(* ===== verification/Prelude.thy ===== *)
theory Prelude
  imports
    Main
    "HOL-Library.Word"
    "HOL-Library.AList"
    "HOL-Library.Char_ord"
    "HOL-Library.List_Lexorder"
    "HOL-Library.Sublist"
    "HOL-Library.Multiset"
begin

text \<open>
  Shared vocabulary of the development: the collections its proofs draw on, the parts of the
  JavaScript runtime that the sources use everywhere (strings, buffers, insertion-ordered
  dictionaries, decimal printing) and the generic lemmas about them.

  \<^item> A JavaScript string is a \<^typ>\<open>string\<close>: one \<^typ>\<open>char\<close> per UTF-16 code unit, so the
    model covers strings whose code units are below 256. Case mapping is the ASCII one,
    which is what header names, host names and HTTP methods consist of.
  \<^item> A Node \<open>Buffer\<close> is a list of bytes; \<open>Buffer.from(s)\<close> is \<open>utf8_encode\<close>.
  \<^item> A \<open>Map\<close> or a plain object is an association list in insertion order: \<open>set\<close> on a key
    that is present keeps its position, a new key goes to the end (\<^const>\<open>AList.update\<close>).
\<close>

unbundle bit_operations_syntax

type_synonym byte = "8 word"
type_synonym bytes = "byte list"
type_synonym 'v dict = "(string \<times> 'v) list"

named_theorems js_simps \<open>evaluation of the JavaScript string and dictionary primitives\<close>

section \<open>Strings\<close>

definition lower_char :: "char \<Rightarrow> char" where
  "lower_char c = (let n = of_char c :: nat in if 65 \<le> n \<and> n \<le> 90 then char_of (n + 32) else c)"

definition upper_char :: "char \<Rightarrow> char" where
  "upper_char c = (let n = of_char c :: nat in if 97 \<le> n \<and> n \<le> 122 then char_of (n - 32) else c)"

definition toLowerCase :: "string \<Rightarrow> string" where
  "toLowerCase s = map lower_char s"

definition toUpperCase :: "string \<Rightarrow> string" where
  "toUpperCase s = map upper_char s"

definition startsWith :: "string \<Rightarrow> string \<Rightarrow> bool" where
  "startsWith s p \<longleftrightarrow> take (length p) s = p"

definition endsWith :: "string \<Rightarrow> string \<Rightarrow> bool" where
  "endsWith s p \<longleftrightarrow> length p \<le> length s \<and> drop (length s - length p) s = p"

text \<open>\<open>s.indexOf(c)\<close> for a one-character needle: the prefix before it and the rest after it.\<close>

fun break_at :: "char \<Rightarrow> string \<Rightarrow> (string \<times> string) option" where
  "break_at c [] = None"
| "break_at c (x # xs) =
     (if x = c then Some ([], xs)
      else map_option (\<lambda>(a, b). (x # a, b)) (break_at c xs))"

text \<open>\<open>s.split(sep)\<close> for a one-character separator, and \<open>parts.join(sep)\<close>.\<close>

fun split_on :: "char \<Rightarrow> string \<Rightarrow> string list" where
  "split_on c [] = [[]]"
| "split_on c (x # xs) =
     (if x = c then [] # split_on c xs
      else (case split_on c xs of [] \<Rightarrow> [[x]] | p # ps \<Rightarrow> (x # p) # ps))"

fun join_with :: "string \<Rightarrow> string list \<Rightarrow> string" where
  "join_with sep [] = []"
| "join_with sep [s] = s"
| "join_with sep (s # t # rest) = s @ sep @ join_with sep (t # rest)"

text \<open>\<open>s.includes(t)\<close>: t occurs somewhere in s.\<close>

fun str_includes :: "string \<Rightarrow> string \<Rightarrow> bool" where
  "str_includes [] t = (t = [])"
| "str_includes (x # xs) t = (startsWith (x # xs) t \<or> str_includes xs t)"

definition padStart :: "nat \<Rightarrow> char \<Rightarrow> string \<Rightarrow> string" where
  "padStart n c s = replicate (n - length s) c @ s"

lemma lower_char_idem [simp]: "lower_char (lower_char c) = lower_char c"
  by (auto simp: lower_char_def Let_def)

lemma toLowerCase_idem [simp]: "toLowerCase (toLowerCase s) = toLowerCase s"
  by (simp add: toLowerCase_def)

lemma upper_char_idem [simp]: "upper_char (upper_char c) = upper_char c"
  by (auto simp: upper_char_def Let_def)

lemma toUpperCase_idem [simp]: "toUpperCase (toUpperCase s) = toUpperCase s"
  by (simp add: toUpperCase_def)

lemma toLowerCase_Nil [simp]: "toLowerCase [] = []" "toUpperCase [] = []"
  by (simp_all add: toLowerCase_def toUpperCase_def)

lemma length_toLowerCase [simp]: "length (toLowerCase s) = length s"
  by (simp add: toLowerCase_def)

lemma toLowerCase_append [simp]: "toLowerCase (s @ t) = toLowerCase s @ toLowerCase t"
  by (simp add: toLowerCase_def)

lemma startsWith_append [simp]: "startsWith (p @ s) p"
  by (simp add: startsWith_def)

lemma startsWith_iff: "startsWith s p \<longleftrightarrow> (\<exists>t. s = p @ t)"
  by (metis append_eq_conv_conj append_take_drop_id startsWith_def)

lemma endsWith_append [simp]: "endsWith (s @ p) p"
  by (simp add: endsWith_def)

lemma endsWith_iff: "endsWith s p \<longleftrightarrow> (\<exists>t. s = t @ p)"
  by (metis append_take_drop_id endsWith_append endsWith_def)

lemma break_at_None_iff: "break_at c s = None \<longleftrightarrow> c \<notin> set s"
  by (induction s) auto

lemma break_at_append: "c \<notin> set a \<Longrightarrow> break_at c (a @ c # b) = Some (a, b)"
  by (induction a) auto

lemma break_at_SomeD: "break_at c s = Some (a, b) \<Longrightarrow> s = a @ c # b \<and> c \<notin> set a"
  by (induction s arbitrary: a b) (auto split: if_splits)

lemma split_on_not_Nil [simp]: "split_on c s \<noteq> []"
  by (induction s) (auto split: list.splits)

lemma split_on_append:
  "c \<notin> set a \<Longrightarrow> split_on c (a @ c # b) = a # split_on c b"
  by (induction a) auto

lemma split_on_single: "c \<notin> set a \<Longrightarrow> split_on c a = [a]"
  by (induction a) auto

lemma join_split: "join_with [c] (split_on c s) = s"
proof (induction s)
  case Nil
  show ?case by simp
next
  case (Cons x xs)
  show ?case
  proof (cases "split_on c xs")
    case Nil
    then show ?thesis by simp
  next
    case (Cons p ps)
    with Cons.IH show ?thesis by (cases ps) auto
  qed
qed

lemma length_padStart [simp]: "length (padStart n c s) = max n (length s)"
  by (simp add: padStart_def)

section \<open>Decimal numerals\<close>

text \<open>\<open>n.toString()\<close> for a non-negative integer, and reading a digit string back.\<close>

definition digit_char :: "nat \<Rightarrow> char" where
  "digit_char d = char_of (48 + d)"

definition is_digit :: "char \<Rightarrow> bool" where
  "is_digit c \<longleftrightarrow> (let n = of_char c :: nat in 48 \<le> n \<and> n \<le> 57)"

definition digit_value :: "char \<Rightarrow> nat" where
  "digit_value c = of_char c - 48"

fun nat_to_string :: "nat \<Rightarrow> string" where
  "nat_to_string n =
     (if n < 10 then [digit_char n]
      else nat_to_string (n div 10) @ [digit_char (n mod 10)])"

declare nat_to_string.simps [simp del]

definition string_to_nat :: "string \<Rightarrow> nat" where
  "string_to_nat s = foldl (\<lambda>acc c. 10 * acc + digit_value c) 0 s"

lemma of_char_digit: "d < 10 \<Longrightarrow> (of_char (digit_char d) :: nat) = 48 + d"
  by (simp add: digit_char_def)

lemma digit_value_digit_char [simp]: "d < 10 \<Longrightarrow> digit_value (digit_char d) = d"
  by (simp add: digit_value_def of_char_digit)

lemma is_digit_digit_char [simp]: "d < 10 \<Longrightarrow> is_digit (digit_char d)"
  by (simp add: is_digit_def of_char_digit Let_def)

lemma nat_to_string_not_Nil [simp]: "nat_to_string n \<noteq> []"
  by (subst nat_to_string.simps) simp

lemma nat_to_string_digits: "\<forall>c \<in> set (nat_to_string n). is_digit c"
proof (induction n rule: nat_to_string.induct)
  case (1 n)
  then show ?case by (subst nat_to_string.simps) auto
qed

lemma string_to_nat_append:
  "string_to_nat (s @ [c]) = 10 * string_to_nat s + digit_value c"
  by (simp add: string_to_nat_def)

lemma string_to_nat_to_string [simp]: "string_to_nat (nat_to_string n) = n"
proof (induction n rule: nat_to_string.induct)
  case (1 n)
  show ?case
  proof (cases "n < 10")
    case True
    then show ?thesis by (subst nat_to_string.simps) (simp add: string_to_nat_def)
  next
    case False
    with 1 have "string_to_nat (nat_to_string (n div 10)) = n div 10" by simp
    with False show ?thesis
      by (subst nat_to_string.simps) (simp add: string_to_nat_append)
  qed
qed

lemma CHR_zero: "CHR ''0'' = digit_char 0"
  by code_simp

lemma string_to_nat_zeros:
  "string_to_nat (replicate k (digit_char 0) @ s) = string_to_nat s"
  by (induction k) (simp_all add: string_to_nat_def)

lemma length_nat_to_string: "n < 10 ^ k \<Longrightarrow> 0 < k \<Longrightarrow> length (nat_to_string n) \<le> k"
proof (induction k arbitrary: n)
  case 0
  then show ?case by simp
next
  case (Suc k)
  show ?case
  proof (cases "n < 10")
    case True
    then show ?thesis by (subst nat_to_string.simps) simp
  next
    case False
    with Suc.prems have "0 < k" by (cases k) auto
    moreover from Suc.prems have "n div 10 < 10 ^ k"
      by (simp add: less_mult_imp_div_less mult.commute)
    ultimately have "length (nat_to_string (n div 10)) \<le> k" by (rule Suc.IH [rotated])
    with False show ?thesis by (subst nat_to_string.simps) simp
  qed
qed

section \<open>Equal-length digit strings compare like numbers\<close>

lemma string_to_nat_bound:
  "\<forall>c \<in> set s. is_digit c \<Longrightarrow> string_to_nat s < 10 ^ length s"
proof (induction s rule: rev_induct)
  case Nil
  show ?case by (simp add: string_to_nat_def)
next
  case (snoc c s)
  then have "string_to_nat s < 10 ^ length s" and "digit_value c < 10"
    by (auto simp: is_digit_def digit_value_def Let_def)
  then show ?case by (simp add: string_to_nat_append)
qed

lemma foldl_digits:
  "foldl (\<lambda>acc c. 10 * acc + digit_value c) a s = a * 10 ^ length s + string_to_nat s"
proof (induction s arbitrary: a)
  case Nil
  show ?case by (simp add: string_to_nat_def)
next
  case (Cons c s)
  have "string_to_nat (c # s) = digit_value c * 10 ^ length s + string_to_nat s"
    using Cons.IH [of "digit_value c"] by (simp add: string_to_nat_def)
  with Cons.IH [of "10 * a + digit_value c"] show ?case
    by (simp add: algebra_simps)
qed

lemma string_to_nat_Cons:
  "string_to_nat (c # s) = digit_value c * 10 ^ length s + string_to_nat s"
  using foldl_digits [of "digit_value c" s] by (simp add: string_to_nat_def)

lemma digit_less_iff:
  "is_digit c \<Longrightarrow> is_digit d \<Longrightarrow> c < d \<longleftrightarrow> digit_value c < digit_value d"
  by (auto simp: is_digit_def digit_value_def less_char_def Let_def)

lemma digit_value_inject:
  "is_digit c \<Longrightarrow> is_digit d \<Longrightarrow> digit_value c = digit_value d \<longleftrightarrow> c = d"
  by (metis digit_less_iff linorder_neq_iff)

lemma digits_less_iff:
  assumes "length s = length t" "\<forall>c \<in> set s. is_digit c" "\<forall>c \<in> set t. is_digit c"
  shows "s < t \<longleftrightarrow> string_to_nat s < string_to_nat t"
  using assms
proof (induction s t rule: list_induct2)
  case Nil
  show ?case by simp
next
  case (Cons c s d t)
  let ?p = "10 ^ length s :: nat"
  have b: "string_to_nat s < ?p" "string_to_nat t < ?p"
    using Cons.prems Cons.hyps string_to_nat_bound [of s] string_to_nat_bound [of t] by auto
  have dig: "is_digit c" "is_digit d" using Cons.prems by auto
  show ?case
  proof (cases "digit_value c" "digit_value d" rule: linorder_cases)
    case less
    then have "(digit_value c + 1) * ?p \<le> digit_value d * ?p" by (intro mult_right_mono) auto
    with less b dig Cons.hyps show ?thesis
      by (simp add: string_to_nat_Cons digit_less_iff)
  next
    case equal
    with dig have "c = d" by (simp add: digit_value_inject)
    with Cons equal show ?thesis by (simp add: string_to_nat_Cons)
  next
    case greater
    then have "(digit_value d + 1) * ?p \<le> digit_value c * ?p" by (intro mult_right_mono) auto
    with greater b dig Cons.hyps show ?thesis
      by (auto simp: string_to_nat_Cons digit_less_iff digit_value_inject)
  qed
qed

section \<open>Buffers\<close>

text \<open>\<open>Buffer.from(s)\<close>: UTF-8, on code units below 256 one or two bytes each.\<close>

definition utf8_char :: "char \<Rightarrow> bytes" where
  "utf8_char c = (let n = of_char c :: nat in
     if n < 128 then [of_nat n] else [of_nat (192 + n div 64), of_nat (128 + n mod 64)])"

definition utf8_encode :: "string \<Rightarrow> bytes" where
  "utf8_encode s = concat (map utf8_char s)"

section \<open>Dictionaries\<close>

abbreviation dict_get :: "('k \<times> 'v) list \<Rightarrow> 'k \<Rightarrow> 'v option" where
  "dict_get d k \<equiv> map_of d k"

abbreviation dict_set :: "'k \<Rightarrow> 'v \<Rightarrow> ('k \<times> 'v) list \<Rightarrow> ('k \<times> 'v) list" where
  "dict_set k v d \<equiv> AList.update k v d"

abbreviation dict_del :: "'k \<Rightarrow> ('k \<times> 'v) list \<Rightarrow> ('k \<times> 'v) list" where
  "dict_del k d \<equiv> AList.delete k d"

abbreviation dict_keys :: "('k \<times> 'v) list \<Rightarrow> 'k list" where
  "dict_keys d \<equiv> map fst d"

lemma dict_get_set [simp]: "dict_get (dict_set k v d) k' = (if k' = k then Some v else dict_get d k')"
  by (simp add: AList.update_conv')

lemma dict_get_del [simp]: "dict_get (dict_del k d) k' = (if k' = k then None else dict_get d k')"
  by (simp add: AList.delete_conv')

lemma distinct_dict_set [simp]: "distinct (dict_keys d) \<Longrightarrow> distinct (dict_keys (dict_set k v d))"
  by (rule AList.distinct_update)

lemma distinct_dict_del [simp]: "distinct (dict_keys d) \<Longrightarrow> distinct (dict_keys (dict_del k d))"
  by (rule AList.distinct_delete)

lemma dict_set_new: "k \<notin> set (dict_keys d) \<Longrightarrow> dict_set k v d = d @ [(k, v)]"
  by (induction d) auto

lemma sum_list_filter_split:
  "sum_list (map f xs) = sum_list (map f (filter P xs)) + sum_list (map f (filter (\<lambda>x. \<not> P x) xs))"
  for f :: "'a \<Rightarrow> nat"
  by (induction xs) auto


section \<open>Interfaces\<close>

text \<open>
  A step relation and a predicate that its start states have and its steps keep. The client and the
  dashboard's socket are such systems.
\<close>

locale invariant_of =
  fixes start :: "'s \<Rightarrow> bool" and step :: "'s \<Rightarrow> 's \<Rightarrow> bool" and inv :: "'s \<Rightarrow> bool"
  assumes inv_start: "start s \<Longrightarrow> inv s"
    and inv_step: "inv s \<Longrightarrow> step s t \<Longrightarrow> inv t"
begin

lemma inv_steps: "step\<^sup>*\<^sup>* s t \<Longrightarrow> inv s \<Longrightarrow> inv t"
  by (induction rule: rtranclp_induct) (auto intro: inv_step)

lemma inv_reached: "start s \<Longrightarrow> step\<^sup>*\<^sup>* s t \<Longrightarrow> inv t"
  by (rule inv_steps [OF _ inv_start])

end

text \<open>
  A step relation that implements another one: under the invariant, each step is a run of the
  specification between the abstractions of its states. Runs are simulated by runs, and whatever
  holds of every state the specification can reach holds of the abstraction of every state the
  implementation can reach.
\<close>

locale forward_simulation = invariant_of start step inv
  for start :: "'s \<Rightarrow> bool" and step :: "'s \<Rightarrow> 's \<Rightarrow> bool" and inv :: "'s \<Rightarrow> bool" +
  fixes abs :: "'s \<Rightarrow> 'a" and spec_start :: 'a and spec_step :: "'a \<Rightarrow> 'a \<Rightarrow> bool"
  assumes abs_start: "start s \<Longrightarrow> abs s = spec_start"
    and abs_step: "inv s \<Longrightarrow> step s t \<Longrightarrow> spec_step\<^sup>*\<^sup>* (abs s) (abs t)"
begin

lemma abs_steps: "step\<^sup>*\<^sup>* s t \<Longrightarrow> inv s \<Longrightarrow> spec_step\<^sup>*\<^sup>* (abs s) (abs t)"
proof (induction rule: rtranclp_induct)
  case (step t u)
  from inv_steps [OF step.hyps(1) step.prems] step.hyps(2) have "spec_step\<^sup>*\<^sup>* (abs t) (abs u)" by (rule abs_step)
  with step.IH [OF step.prems] show ?case by (rule rtranclp_trans)
qed simp

lemma abs_reached: "start s \<Longrightarrow> step\<^sup>*\<^sup>* s t \<Longrightarrow> spec_step\<^sup>*\<^sup>* spec_start (abs t)"
  using abs_steps [OF _ inv_start] abs_start by metis

lemma spec_transfer:
  assumes "P spec_start" "\<And>a b. P a \<Longrightarrow> spec_step a b \<Longrightarrow> P b" "start s" "step\<^sup>*\<^sup>* s t"
  shows "P (abs t)"
  using abs_reached [OF assms(3,4)] assms(1) by (induction rule: rtranclp_induct) (auto intro: assms(2))

end

text \<open>
  The same for a page or a hook that is driven by events: the invariant relates the state to the
  events so far, and holds after every run.
\<close>

locale history_invariant =
  fixes init :: 's and step :: "'e \<Rightarrow> 's \<Rightarrow> 's" and inv :: "'e list \<Rightarrow> 's \<Rightarrow> bool"
  assumes inv_init: "inv [] init"
    and inv_event: "inv seen s \<Longrightarrow> inv (seen @ [e]) (step e s)"
begin

lemma inv_from: "inv seen s \<Longrightarrow> inv (seen @ evs) (fold step evs s)"
proof (induction evs arbitrary: seen s)
  case (Cons e evs)
  from Cons.IH [OF inv_event [OF Cons.prems, of e]] show ?case by simp
qed simp

lemma inv_run: "inv evs (fold step evs init)"
  using inv_from [OF inv_init] by simp

end

text \<open>
  A patch that is installed on a table of functions and gives back what its removal needs: removing
  it restores the table, and patches that were stacked are removed from the top.
\<close>

fun install_all :: "('n \<Rightarrow> 't \<Rightarrow> 't \<times> 'o) \<Rightarrow> 'n list \<Rightarrow> 't \<Rightarrow> 't \<times> 'o list" where
  "install_all install [] t = (t, [])"
| "install_all install (n # ns) t =
     (case install n t of (t1, saved) \<Rightarrow> (case install_all install ns t1 of (t2, rest) \<Rightarrow> (t2, rest @ [saved])))"

locale reversible_patch =
  fixes install :: "'n \<Rightarrow> 't \<Rightarrow> 't \<times> 'o" and undo :: "'o \<Rightarrow> 't \<Rightarrow> 't"
  assumes undo_install: "install n t = (t', saved) \<Longrightarrow> undo saved t' = t"
begin

lemma undo_all: "install_all install ns t = (t', saved) \<Longrightarrow> fold undo saved t' = t"
proof (induction ns arbitrary: t saved)
  case (Cons n ns)
  obtain t1 x where n: "install n t = (t1, x)" by (cases "install n t")
  obtain rest where "install_all install ns t1 = (t', rest)" "saved = rest @ [x]"
    using Cons.prems n by (auto split: prod.splits)
  with Cons.IH [of t1 rest] undo_install [OF n] show ?case by simp
qed simp

end

end
