(* ===== verification/Wal.thy ===== *)
theory Wal
  imports Prelude
begin

text \<open>
  The write-ahead log of captured batches (\<open>sdk-node/src/client/wal.ts\<close>) over a small model
  of the \<open>node:fs\<close> calls it makes. The protobuf codec (\<open>EventBatch.encode\<close> and \<open>decode\<close>, generated
  code) is the pair of parameters \<open>enc\<close> and \<open>dec\<close>; what the log relies on is \<open>codec_ok\<close>: decoding
  what was encoded gives the batch back. Every disk operation may fail; which one does is the
  \<open>disk\<close> argument.

  The log is specified by \<open>batch_at\<close>: the partial map from batch ids to the events on disk.
  Appending is an update of that map, removing deletes from it, listing enumerates it in
  batch order, and a failed or interrupted append leaves it alone.
\<close>

section \<open>The file system\<close>

datatype io_error = ENOENT | IoError string

record fs =
  fs_dirs :: "string list"
  fs_files :: "(string \<times> bytes) list"

text \<open>What the disk does during one log operation.\<close>

datatype disk = DiskOk | MkdirFails io_error | WriteFails io_error bytes | RenameFails io_error

definition path_join :: "string \<Rightarrow> string \<Rightarrow> string" where
  "path_join d n = d @ ''/'' @ n"

definition fs_mkdir :: "string \<Rightarrow> fs \<Rightarrow> fs" where
  "fs_mkdir p f = (if p \<in> set (fs_dirs f) then f else f\<lparr>fs_dirs := p # fs_dirs f\<rparr>)"

text \<open>\<open>in_dir d p\<close>: p is a direct child of d; \<open>file_name d p\<close> is then its last component.\<close>

definition file_name :: "string \<Rightarrow> string \<Rightarrow> string" where
  "file_name d p = drop (Suc (length d)) p"

definition in_dir :: "string \<Rightarrow> string \<Rightarrow> bool" where
  "in_dir d p \<longleftrightarrow> startsWith p (d @ ''/'') \<and> CHR ''/'' \<notin> set (file_name d p)"

definition fs_readdir :: "string \<Rightarrow> fs \<Rightarrow> io_error + string list" where
  "fs_readdir d f =
     (if d \<in> set (fs_dirs f)
      then Inr (map (file_name d) (filter (in_dir d) (dict_keys (fs_files f))))
      else Inl ENOENT)"

definition fs_readFile :: "string \<Rightarrow> fs \<Rightarrow> io_error + bytes" where
  "fs_readFile p f = (case dict_get (fs_files f) p of None \<Rightarrow> Inl ENOENT | Some b \<Rightarrow> Inr b)"

definition fs_writeFile :: "string \<Rightarrow> bytes \<Rightarrow> fs \<Rightarrow> fs" where
  "fs_writeFile p b f = f\<lparr>fs_files := dict_set p b (fs_files f)\<rparr>"

definition fs_rename :: "string \<Rightarrow> string \<Rightarrow> fs \<Rightarrow> io_error + fs" where
  "fs_rename p q f =
     (case dict_get (fs_files f) p of
        None \<Rightarrow> Inl ENOENT
      | Some b \<Rightarrow> Inr (f\<lparr>fs_files := dict_set q b (dict_del p (fs_files f))\<rparr>))"

definition fs_unlink :: "string \<Rightarrow> fs \<Rightarrow> io_error + fs" where
  "fs_unlink p f =
     (case dict_get (fs_files f) p of
        None \<Rightarrow> Inl ENOENT
      | Some b \<Rightarrow> Inr (f\<lparr>fs_files := dict_del p (fs_files f)\<rparr>))"

section \<open>The log\<close>

record wal =
  wal_dir :: string
  wal_sessionDir :: string
  wal_maxBytes :: nat
  wal_currentBytes :: nat
  wal_initialized :: bool

record 'e wal_entry =
  entry_batchId :: nat
  entry_events :: "'e list"
  entry_filePath :: string
  entry_sizeBytes :: nat

datatype wal_error = WalIo io_error | WalDecode

datatype append_result = Persisted string | NotPersisted string

type_synonym 'e encoder = "'e list \<Rightarrow> nat \<Rightarrow> bytes"
type_synonym 'e decoder = "bytes \<Rightarrow> ('e list \<times> nat) option"

definition wal_new :: "string \<Rightarrow> string \<Rightarrow> nat option \<Rightarrow> wal" where
  "wal_new dir sessionId maxBytes =
     \<lparr>wal_dir = dir, wal_sessionDir = path_join dir sessionId,
      wal_maxBytes = (case maxBytes of None \<Rightarrow> 1 * 1024 * 1024 * 1024 | Some n \<Rightarrow> n),
      wal_currentBytes = 0, wal_initialized = False\<rparr>"

definition formatBatchId :: "nat \<Rightarrow> string" where
  "formatBatchId n = padStart 20 (CHR ''0'') (nat_to_string n)"

definition parseBatchId :: "string \<Rightarrow> nat option" where
  "parseBatchId s = (if s \<noteq> [] \<and> list_all is_digit s then Some (string_to_nat s) else None)"

text \<open>The first loop of \<open>list()\<close>, then the sort by batch id (stable, like \<open>Array.sort\<close>).\<close>

fun wal_names :: "string list \<Rightarrow> (string \<times> nat) list" where
  "wal_names [] = []"
| "wal_names (n # ns) =
     (if \<not> endsWith n ''.pb'' then wal_names ns
      else (case parseBatchId (take (length n - 3) n) of
              None \<Rightarrow> wal_names ns
            | Some b \<Rightarrow> (n, b) # wal_names ns))"

text \<open>The second loop: read and decode each file; the first failure is thrown.\<close>

fun read_entries :: "'e decoder \<Rightarrow> string \<Rightarrow> fs \<Rightarrow> (string \<times> nat) list \<Rightarrow> wal_error + 'e wal_entry list" where
  "read_entries dec d f [] = Inr []"
| "read_entries dec d f ((n, b) # rest) =
     (case fs_readFile (path_join d n) f of
        Inl e \<Rightarrow> Inl (WalIo e)
      | Inr bs \<Rightarrow>
         (case dec bs of
            None \<Rightarrow> Inl WalDecode
          | Some (evs, _) \<Rightarrow>
             (case read_entries dec d f rest of
                Inl e \<Rightarrow> Inl e
              | Inr out \<Rightarrow>
                  Inr (\<lparr>entry_batchId = b, entry_events = evs,
                        entry_filePath = path_join d n, entry_sizeBytes = length bs\<rparr> # out))))"

definition wal_list :: "'e decoder \<Rightarrow> wal \<Rightarrow> fs \<Rightarrow> wal_error + 'e wal_entry list" where
  "wal_list dec w f =
     (case fs_readdir (wal_sessionDir w) f of
        Inl ENOENT \<Rightarrow> Inr []
      | Inl e \<Rightarrow> Inl (WalIo e)
      | Inr names \<Rightarrow> read_entries dec (wal_sessionDir w) f (sort_key snd (wal_names names)))"

definition wal_init :: "'e decoder \<Rightarrow> disk \<Rightarrow> wal \<times> fs \<Rightarrow> (wal_error + unit) \<times> wal \<times> fs" where
  "wal_init dec disk = (\<lambda>(w, f).
     if wal_initialized w then (Inr (), w, f)
     else (case disk of
         MkdirFails e \<Rightarrow> (Inl (WalIo e), w, f)
       | _ \<Rightarrow>
         (let f1 = fs_mkdir (wal_sessionDir w) f
          in case wal_list dec w f1 of
               Inl e \<Rightarrow> (Inl e, w, f1)
             | Inr files \<Rightarrow>
                 (Inr (),
                  w\<lparr>wal_currentBytes := foldl (\<lambda>sum e. sum + entry_sizeBytes e) 0 files,
                    wal_initialized := True\<rparr>,
                  f1))))"

text \<open>
  \<open>append\<close> awaits between the capacity check and the accounting, so its two halves are separate
  steps: \<open>append_check\<close> up to the check, \<open>append_commit\<close> for the write, the rename and the
  accounting. \<open>wal_append\<close> is the uninterrupted call.
\<close>

definition append_check :: "'e encoder \<Rightarrow> 'e decoder \<Rightarrow> disk \<Rightarrow> nat \<Rightarrow> 'e list \<Rightarrow> wal \<times> fs
    \<Rightarrow> (wal_error + bytes option) \<times> wal \<times> fs" where
  "append_check enc dec disk batchId events st =
     (case wal_init dec disk st of
        (Inl e, st') \<Rightarrow> (Inl e, st')
      | (Inr _, w, f) \<Rightarrow>
         (let bs = enc events batchId
          in if wal_currentBytes w + length bs > wal_maxBytes w then (Inr None, w, f)
             else (Inr (Some bs), w, f)))"

definition batch_path :: "string \<Rightarrow> nat \<Rightarrow> string" where
  "batch_path d batchId = path_join d (formatBatchId batchId @ ''.pb'')"

definition append_commit :: "disk \<Rightarrow> nat \<Rightarrow> bytes \<Rightarrow> wal \<times> fs
    \<Rightarrow> (wal_error + append_result) \<times> wal \<times> fs" where
  "append_commit disk batchId bs = (\<lambda>(w, f).
     (let finalPath = batch_path (wal_sessionDir w) batchId;
          tmpPath = finalPath @ ''.tmp''
      in case disk of
           WriteFails e part \<Rightarrow> (Inl (WalIo e), w, fs_writeFile tmpPath part f)
         | RenameFails e \<Rightarrow> (Inl (WalIo e), w, fs_writeFile tmpPath bs f)
         | _ \<Rightarrow>
            (let f1 = fs_writeFile tmpPath bs f
             in case fs_rename tmpPath finalPath f1 of
                  Inl e \<Rightarrow> (Inl (WalIo e), w, f1)
                | Inr f2 \<Rightarrow>
                    (Inr (Persisted finalPath),
                     w\<lparr>wal_currentBytes := wal_currentBytes w + length bs\<rparr>, f2))))"

definition wal_append :: "'e encoder \<Rightarrow> 'e decoder \<Rightarrow> disk \<Rightarrow> nat \<Rightarrow> 'e list \<Rightarrow> wal \<times> fs
    \<Rightarrow> (wal_error + append_result) \<times> wal \<times> fs" where
  "wal_append enc dec disk batchId events st =
     (case append_check enc dec disk batchId events st of
        (Inl e, st') \<Rightarrow> (Inl e, st')
      | (Inr None, st') \<Rightarrow> (Inr (NotPersisted ''capacity''), st')
      | (Inr (Some bs), st') \<Rightarrow> append_commit disk batchId bs st')"

definition wal_remove :: "io_error option \<Rightarrow> 'e wal_entry \<Rightarrow> wal \<times> fs \<Rightarrow> (wal_error + unit) \<times> wal \<times> fs" where
  "wal_remove fault entry = (\<lambda>(w, f).
     (case (case fault of Some e \<Rightarrow> Inl e | None \<Rightarrow> fs_unlink (entry_filePath entry) f) of
        Inr f' \<Rightarrow> (Inr (), w\<lparr>wal_currentBytes := wal_currentBytes w - entry_sizeBytes entry\<rparr>, f')
      | Inl ENOENT \<Rightarrow> (Inr (), w, f)
      | Inl e \<Rightarrow> (Inl (WalIo e), w, f)))"

definition wal_usedBytes :: "wal \<Rightarrow> nat" where
  "wal_usedBytes w = wal_currentBytes w"

section \<open>Specification vocabulary\<close>

text \<open>The codec's contract, and the batch stored for an id: what the file of that id decodes to.\<close>

definition codec_ok :: "'e encoder \<Rightarrow> 'e decoder \<Rightarrow> bool" where
  "codec_ok enc dec \<longleftrightarrow> (\<forall>evs b. dec (enc evs b) = Some (evs, b))"

definition batch_at :: "'e decoder \<Rightarrow> string \<Rightarrow> fs \<Rightarrow> nat \<Rightarrow> 'e list option" where
  "batch_at dec d f b =
     (case dict_get (fs_files f) (batch_path d b) of
        None \<Rightarrow> None
      | Some bs \<Rightarrow> map_option fst (dec bs))"

text \<open>
  A session directory as the log itself leaves it: it exists, file names are unique, and every
  complete log file in it has the name \<open>append\<close> gives and holds an encoded batch of that id.
\<close>

definition is_log_file :: "string \<Rightarrow> string \<Rightarrow> bool" where
  "is_log_file d p \<longleftrightarrow> in_dir d p \<and> wal_names [file_name d p] \<noteq> []"

definition session_dir_ok :: "'e encoder \<Rightarrow> string \<Rightarrow> fs \<Rightarrow> bool" where
  "session_dir_ok enc d f \<longleftrightarrow>
     d \<in> set (fs_dirs f) \<and> distinct (dict_keys (fs_files f)) \<and>
     (\<forall>(p, bs) \<in> set (fs_files f). is_log_file d p \<longrightarrow>
        (\<exists>b evs. p = batch_path d b \<and> bs = enc evs b))"

text \<open>Bytes the complete log files of a session directory take up.\<close>

definition log_bytes :: "string \<Rightarrow> fs \<Rightarrow> nat" where
  "log_bytes d f = sum_list (map (length \<circ> snd) (filter (is_log_file d \<circ> fst) (fs_files f)))"

section \<open>Batch ids in file names\<close>

lemma formatBatchId_digits: "list_all is_digit (formatBatchId n)"
  using nat_to_string_digits [of n]
  by (auto simp: formatBatchId_def padStart_def CHR_zero list_all_iff)

lemma formatBatchId_not_Nil [simp]: "formatBatchId n \<noteq> []"
  by (simp add: formatBatchId_def padStart_def)

lemma parse_formatBatchId: "parseBatchId (formatBatchId n) = Some n"
  using formatBatchId_digits [of n]
  by (simp add: parseBatchId_def formatBatchId_def padStart_def CHR_zero string_to_nat_zeros)

lemma formatBatchId_inject [simp]: "formatBatchId a = formatBatchId b \<longleftrightarrow> a = b"
  by (metis option.inject parse_formatBatchId)

lemma length_formatBatchId: "n < 10 ^ 20 \<Longrightarrow> length (formatBatchId n) = 20"
  using length_nat_to_string [of n 20] by (simp add: formatBatchId_def max_def)

lemma formatBatchId_less_iff:
  assumes "a < 10 ^ 20" "b < 10 ^ 20"
  shows "formatBatchId a < formatBatchId b \<longleftrightarrow> a < b"
proof -
  have "formatBatchId a < formatBatchId b \<longleftrightarrow>
      string_to_nat (formatBatchId a) < string_to_nat (formatBatchId b)"
    using assms formatBatchId_digits [of a] formatBatchId_digits [of b]
    by (intro digits_less_iff) (simp_all add: length_formatBatchId list_all_iff)
  also have "\<dots> \<longleftrightarrow> a < b"
    using parse_formatBatchId [of a] parse_formatBatchId [of b]
    by (simp add: parseBatchId_def split: if_splits)
  finally show ?thesis .
qed

lemma slash_not_digit: "\<not> is_digit (CHR ''/'')"
  by (simp add: is_digit_def)

lemma slash_notin_format: "CHR ''/'' \<notin> set (formatBatchId n)"
  using formatBatchId_digits [of n] slash_not_digit by (auto simp: list_all_iff)

section \<open>Paths and directory listings\<close>

lemma file_name_join [simp]: "file_name d (path_join d n) = n"
  by (simp add: file_name_def path_join_def)

lemma in_dirD: "in_dir d p \<Longrightarrow> p = path_join d (file_name d p)"
  by (auto simp: in_dir_def startsWith_iff file_name_def path_join_def)

lemma in_dir_join [simp]: "in_dir d (path_join d n) \<longleftrightarrow> CHR ''/'' \<notin> set n"
proof -
  have "path_join d n = (d @ ''/'') @ n" by (simp add: path_join_def)
  then have "startsWith (path_join d n) (d @ ''/'')" by (metis startsWith_append)
  then show ?thesis by (simp add: in_dir_def)
qed

lemma path_join_inject [simp]: "path_join d n = path_join d m \<longleftrightarrow> n = m"
  by (simp add: path_join_def)

lemma batch_path_inject [simp]: "batch_path d a = batch_path d b \<longleftrightarrow> a = b"
  by (simp add: batch_path_def)

lemma path_join_pb: "path_join d (formatBatchId b @ ''.pb'') = batch_path d b"
  by (simp add: batch_path_def)

lemma in_dir_batch_path [simp]: "in_dir d (batch_path d b)"
  by (simp add: batch_path_def slash_notin_format)

lemma wal_names_pb: "wal_names [formatBatchId b @ ''.pb''] = [(formatBatchId b @ ''.pb'', b)]"
  by (simp add: parse_formatBatchId)

lemma is_log_file_batch_path [simp]: "is_log_file d (batch_path d b)"
  using wal_names_pb [of b] by (simp add: is_log_file_def batch_path_def slash_notin_format)

lemma endsWith_tmp_pb: "\<not> endsWith (s @ ''.tmp'') ''.pb''"
  by (auto simp: endsWith_def Suc_diff_Suc numeral_eq_Suc)

lemma not_log_file_tmp [simp]: "\<not> is_log_file d (batch_path d b @ ''.tmp'')"
proof -
  have "file_name d (batch_path d b @ ''.tmp'') = (formatBatchId b @ ''.pb'') @ ''.tmp''"
    by (simp add: file_name_def batch_path_def path_join_def)
  then have "\<not> endsWith (file_name d (batch_path d b @ ''.tmp'')) ''.pb''"
    by (metis endsWith_tmp_pb)
  then show ?thesis by (simp add: is_log_file_def)
qed

lemma batch_path_not_tmp [simp]: "batch_path d a \<noteq> batch_path d' b @ ''.tmp''"
proof
  assume eq: "batch_path d a = batch_path d' b @ ''.tmp''"
  have "endsWith (batch_path d a) ''.pb''"
    by (metis append.assoc batch_path_def endsWith_append path_join_def)
  with eq show False by (metis endsWith_tmp_pb)
qed

lemma wal_names_append: "wal_names (xs @ ys) = wal_names xs @ wal_names ys"
  by (induction xs) (auto split: option.splits)

lemma set_wal_names:
  "(n, b) \<in> set (wal_names ns) \<longleftrightarrow>
     n \<in> set ns \<and> endsWith n ''.pb'' \<and> parseBatchId (take (length n - 3) n) = Some b"
  by (induction ns) (auto split: option.splits)

lemma wal_names_filter:
  "wal_names ns = concat (map (\<lambda>n. wal_names [n]) ns)"
  by (induction ns) (auto split: option.splits)

section \<open>Listing enumerates the log\<close>

definition mk_entry :: "'e decoder \<Rightarrow> string \<Rightarrow> fs \<Rightarrow> string \<times> nat \<Rightarrow> 'e wal_entry" where
  "mk_entry dec d f x =
     (let bs = the (dict_get (fs_files f) (path_join d (fst x)))
      in \<lparr>entry_batchId = snd x, entry_events = fst (the (dec bs)),
          entry_filePath = path_join d (fst x), entry_sizeBytes = length bs\<rparr>)"

lemma read_entries_total:
  assumes "\<And>n b. (n, b) \<in> set xs \<Longrightarrow>
      \<exists>bs r. dict_get (fs_files f) (path_join d n) = Some bs \<and> dec bs = Some r"
  shows "read_entries dec d f xs = Inr (map (mk_entry dec d f) xs)"
  using assms
proof (induction xs)
  case Nil
  show ?case by simp
next
  case (Cons x xs)
  obtain n b where x: "x = (n, b)" by (cases x)
  from Cons.prems [of n b] x obtain bs evs k where
    "dict_get (fs_files f) (path_join d n) = Some bs" "dec bs = Some (evs, k)" by auto
  moreover have "read_entries dec d f xs = Inr (map (mk_entry dec d f) xs)"
    by (rule Cons.IH) (meson Cons.prems list.set_intros(2))
  ultimately show ?case by (simp add: x fs_readFile_def mk_entry_def)
qed

definition log_name :: "string \<Rightarrow> string \<Rightarrow> string \<times> nat" where
  "log_name d p = hd (wal_names [file_name d p])"

lemma log_name_batch_path [simp]: "log_name d (batch_path d b) = (formatBatchId b @ ''.pb'', b)"
  using wal_names_pb [of b] by (simp add: log_name_def batch_path_def)

lemma wal_names_single:
  assumes "in_dir d p"
  shows "wal_names [file_name d p] = (if is_log_file d p then [log_name d p] else [])"
proof -
  have "wal_names [n] = [] \<or> wal_names [n] = [hd (wal_names [n])]" for n
    by (simp split: option.splits)
  with assms show ?thesis unfolding is_log_file_def log_name_def by metis
qed

lemma wal_names_keys:
  "wal_names (map (file_name d) (filter (in_dir d) ps)) = map (log_name d) (filter (is_log_file d) ps)"
proof (induction ps)
  case Nil
  show ?case by simp
next
  case (Cons p ps)
  show ?case
  proof (cases "in_dir d p")
    case True
    then have "wal_names (map (file_name d) (filter (in_dir d) (p # ps))) =
        wal_names [file_name d p] @ wal_names (map (file_name d) (filter (in_dir d) ps))"
      by (simp only: filter.simps if_True list.map wal_names_append [symmetric] append.simps)
    with True Cons.IH show ?thesis by (simp add: wal_names_single del: wal_names.simps)
  next
    case False
    with Cons.IH show ?thesis by (simp add: is_log_file_def)
  qed
qed

lemma session_dir_okD:
  assumes "session_dir_ok enc d f" "dict_get (fs_files f) p = Some bs" "is_log_file d p"
  shows "\<exists>b evs. p = batch_path d b \<and> bs = enc evs b"
  using assms map_of_SomeD [OF assms(2)] by (force simp: session_dir_ok_def)

lemma batch_at_codec:
  assumes "session_dir_ok enc d f" "codec_ok enc dec"
    and "dict_get (fs_files f) (batch_path d b) = Some bs"
  shows "\<exists>evs. bs = enc evs b \<and> batch_at dec d f b = Some evs"
  using session_dir_okD [OF assms(1,3)] assms(2,3) by (auto simp: batch_at_def codec_ok_def)

text \<open>The paths of the complete log files, and what \<open>list()\<close> makes of their names.\<close>

definition log_paths :: "string \<Rightarrow> fs \<Rightarrow> string list" where
  "log_paths d f = filter (is_log_file d) (dict_keys (fs_files f))"

definition listing :: "string \<Rightarrow> fs \<Rightarrow> (string \<times> nat) list" where
  "listing d f = sort_key snd (map (log_name d) (log_paths d f))"

lemma wal_list_listing:
  "d = wal_sessionDir w \<Longrightarrow> d \<in> set (fs_dirs f) \<Longrightarrow>
   wal_list dec w f = read_entries dec d f (listing d f)"
  by (simp add: wal_list_def fs_readdir_def wal_names_keys listing_def log_paths_def)

lemma in_log_paths:
  assumes ok: "session_dir_ok enc d f"
  shows "p \<in> set (log_paths d f) \<longleftrightarrow>
    (\<exists>b evs. p = batch_path d b \<and> dict_get (fs_files f) p = Some (enc evs b))"
proof
  assume p: "p \<in> set (log_paths d f)"
  then have "p \<in> fst ` set (fs_files f)" by (simp add: log_paths_def)
  then obtain bs where bs: "dict_get (fs_files f) p = Some bs"
    by (metis map_of_eq_None_iff not_None_eq)
  with p session_dir_okD [OF ok bs]
  show "\<exists>b evs. p = batch_path d b \<and> dict_get (fs_files f) p = Some (enc evs b)"
    by (auto simp: log_paths_def)
next
  assume "\<exists>b evs. p = batch_path d b \<and> dict_get (fs_files f) p = Some (enc evs b)"
  then show "p \<in> set (log_paths d f)" by (force simp: log_paths_def dest: map_of_SomeD)
qed

lemma in_listing:
  assumes "session_dir_ok enc d f"
  shows "x \<in> set (listing d f) \<longleftrightarrow>
    (\<exists>b evs. x = (formatBatchId b @ ''.pb'', b) \<and>
       dict_get (fs_files f) (batch_path d b) = Some (enc evs b))"
proof -
  have "x \<in> set (listing d f) \<longleftrightarrow> (\<exists>p. p \<in> set (log_paths d f) \<and> x = log_name d p)"
    by (auto simp: listing_def)
  then show ?thesis unfolding in_log_paths [OF assms]
    by (metis log_name_batch_path)
qed

lemma mk_entry_batch:
  assumes "codec_ok enc dec" "dict_get (fs_files f) (batch_path d b) = Some (enc evs b)"
  shows "mk_entry dec d f (formatBatchId b @ ''.pb'', b) =
    \<lparr>entry_batchId = b, entry_events = evs, entry_filePath = batch_path d b,
     entry_sizeBytes = length (enc evs b)\<rparr>"
  using assms by (simp add: mk_entry_def codec_ok_def path_join_pb)

lemma batch_at_iff:
  assumes "session_dir_ok enc d f" "codec_ok enc dec"
  shows "batch_at dec d f b = Some evs \<longleftrightarrow>
    dict_get (fs_files f) (batch_path d b) = Some (enc evs b)"
proof
  assume at: "batch_at dec d f b = Some evs"
  then obtain bs where "dict_get (fs_files f) (batch_path d b) = Some bs"
    by (auto simp: batch_at_def split: option.splits)
  with at batch_at_codec [OF assms this]
  show "dict_get (fs_files f) (batch_path d b) = Some (enc evs b)" by auto
next
  assume "dict_get (fs_files f) (batch_path d b) = Some (enc evs b)"
  with assms(2) show "batch_at dec d f b = Some evs" by (simp add: batch_at_def codec_ok_def)
qed

lemma listing_ids_sorted:
  assumes ok: "session_dir_ok enc d f"
  shows "sorted_wrt (<) (map snd (listing d f))"
proof -
  have "distinct (log_paths d f)"
    using ok by (simp add: session_dir_ok_def log_paths_def)
  moreover have "inj_on (snd \<circ> log_name d) (set (log_paths d f))"
    using in_log_paths [OF ok] by (fastforce intro!: inj_onI)
  ultimately have "distinct (map (snd \<circ> log_name d) (log_paths d f))"
    by (simp add: distinct_map)
  then have "distinct (map snd (map (log_name d) (log_paths d f)))" by simp
  then have "distinct (map snd (listing d f))"
    by (metis listing_def mset_eq_imp_distinct_iff mset_map mset_sort)
  then show ?thesis by (simp add: listing_def strict_sorted_iff)
qed

lemma listing_bytes:
  assumes ok: "session_dir_ok enc d f"
  shows "sum_list (map (entry_sizeBytes \<circ> mk_entry dec d f) (listing d f)) = log_bytes d f"
proof -
  let ?size = "\<lambda>p. length (the (dict_get (fs_files f) p))"
  have "sum_list (map (entry_sizeBytes \<circ> mk_entry dec d f) (listing d f)) =
      sum_list (map ((entry_sizeBytes \<circ> mk_entry dec d f) \<circ> log_name d) (log_paths d f))"
    unfolding listing_def
    by (metis (no_types, lifting) list.map_comp mset_map mset_sort sum_mset_sum_list)
  also have "\<dots> = sum_list (map ?size (log_paths d f))"
  proof (intro arg_cong [of _ _ sum_list] map_cong refl)
    fix p assume "p \<in> set (log_paths d f)"
    with in_log_paths [OF ok] obtain b where "p = batch_path d b" by blast
    then show "((entry_sizeBytes \<circ> mk_entry dec d f) \<circ> log_name d) p = ?size p"
      by (simp add: mk_entry_def Let_def path_join_pb)
  qed
  also have "log_paths d f = map fst (filter (is_log_file d \<circ> fst) (fs_files f))"
    by (simp add: log_paths_def filter_map comp_def)
  also have "sum_list (map ?size (map fst (filter (is_log_file d \<circ> fst) (fs_files f)))) = log_bytes d f"
    using ok by (auto simp: log_bytes_def session_dir_ok_def intro!: arg_cong [of _ _ sum_list] map_cong)
  finally show ?thesis .
qed

text \<open>The listing of a well-formed session directory, in one statement.\<close>

lemma wal_list_complete:
  assumes ok: "session_dir_ok enc d f" and codec: "codec_ok enc dec" and d: "d = wal_sessionDir w"
  obtains es where "wal_list dec w f = Inr es"
    "sorted_wrt (<) (map entry_batchId es)"
    "\<And>e. e \<in> set es \<Longrightarrow> entry_filePath e = batch_path d (entry_batchId e) \<and>
        batch_at dec d f (entry_batchId e) = Some (entry_events e) \<and>
        entry_sizeBytes e = length (enc (entry_events e) (entry_batchId e))"
    "\<And>b. b \<in> entry_batchId ` set es \<longleftrightarrow> batch_at dec d f b \<noteq> None"
    "sum_list (map entry_sizeBytes es) = log_bytes d f"
proof -
  define es where "es = map (mk_entry dec d f) (listing d f)"
  have "read_entries dec d f (listing d f) = Inr es"
    unfolding es_def using in_listing [OF ok] codec
    by (intro read_entries_total) (auto simp: path_join_pb codec_ok_def)
  moreover have "d \<in> set (fs_dirs f)" using ok by (simp add: session_dir_ok_def)
  ultimately have l: "wal_list dec w f = Inr es" using d by (simp add: wal_list_listing)
  have ids: "map entry_batchId es = map snd (listing d f)"
    by (simp add: es_def mk_entry_def Let_def comp_def)
  have path: "entry_filePath e = batch_path d (entry_batchId e) \<and>
        batch_at dec d f (entry_batchId e) = Some (entry_events e) \<and>
        entry_sizeBytes e = length (enc (entry_events e) (entry_batchId e))" if e: "e \<in> set es" for e
  proof -
    from e obtain x where x: "x \<in> set (listing d f)" "e = mk_entry dec d f x"
      by (auto simp: es_def)
    from x(1) [unfolded in_listing [OF ok]] obtain b evs where
      "e = mk_entry dec d f (formatBatchId b @ ''.pb'', b)"
      and "dict_get (fs_files f) (batch_path d b) = Some (enc evs b)"
      using x(2) by blast
    with mk_entry_batch [OF codec] batch_at_iff [OF ok codec] show ?thesis by simp
  qed
  have "b \<in> entry_batchId ` set es \<longleftrightarrow> b \<in> set (map snd (listing d f))" for b
    by (metis ids list.set_map)
  then have "b \<in> entry_batchId ` set es \<longleftrightarrow> batch_at dec d f b \<noteq> None" for b
    unfolding set_map image_iff Bex_def in_listing [OF ok] not_None_eq batch_at_iff [OF ok codec]
    by auto
  moreover have "sum_list (map entry_sizeBytes es) = log_bytes d f"
    using listing_bytes [OF ok] by (simp add: es_def)
  moreover have "sorted_wrt (<) (map entry_batchId es)"
    unfolding ids by (rule listing_ids_sorted [OF ok])
  ultimately show thesis using l path by (intro that)
qed

section \<open>Appending and removing\<close>

text \<open>
  The state the log keeps once it is initialised: a well-formed session directory, and a byte
  counter that agrees with it.
\<close>

definition wal_inv :: "'e encoder \<Rightarrow> 'e decoder \<Rightarrow> wal \<times> fs \<Rightarrow> bool" where
  "wal_inv enc dec = (\<lambda>(w, f).
     codec_ok enc dec \<and> wal_initialized w \<and> session_dir_ok enc (wal_sessionDir w) f \<and>
     wal_currentBytes w = log_bytes (wal_sessionDir w) f)"

abbreviation wal_at :: "'e decoder \<Rightarrow> wal \<times> fs \<Rightarrow> nat \<Rightarrow> 'e list option" where
  "wal_at dec st \<equiv> batch_at dec (wal_sessionDir (fst st)) (snd st)"

lemma filter_dict_set: "\<not> P k \<Longrightarrow> filter (P \<circ> fst) (dict_set k v d) = filter (P \<circ> fst) d"
  by (induction d) auto

lemma filter_dict_del: "\<not> P k \<Longrightarrow> filter (P \<circ> fst) (dict_del k d) = filter (P \<circ> fst) d"
  by (induction d) (auto simp: AList.delete_eq)

lemma set_dict_set_subset: "set (dict_set k v d) \<subseteq> insert (k, v) (set d)"
  by (induction d) auto

lemma set_dict_del_subset: "set (dict_del k d) \<subseteq> set d"
  by (auto simp: AList.delete_eq)

lemma log_bytes_write_tmp [simp]:
  "log_bytes d (fs_writeFile (batch_path d b @ ''.tmp'') bs f) = log_bytes d f"
  by (simp add: log_bytes_def fs_writeFile_def filter_dict_set)

lemma session_dir_ok_write_tmp:
  "session_dir_ok enc d f \<Longrightarrow> session_dir_ok enc d (fs_writeFile (batch_path d b @ ''.tmp'') bs f)"
  using set_dict_set_subset [of "batch_path d b @ ''.tmp''" bs "fs_files f"]
  by (fastforce simp: session_dir_ok_def fs_writeFile_def)

lemma batch_at_write_tmp [simp]:
  "batch_at dec d (fs_writeFile (batch_path d' b @ ''.tmp'') bs f) = batch_at dec d f"
  by (rule ext) (simp add: batch_at_def fs_writeFile_def)

text \<open>The file system after a write to the temporary name and the rename onto the final one.\<close>

definition fs_put :: "string \<Rightarrow> nat \<Rightarrow> bytes \<Rightarrow> fs \<Rightarrow> fs" where
  "fs_put d b bs f =
     f\<lparr>fs_files := dict_set (batch_path d b) bs
        (dict_del (batch_path d b @ ''.tmp'') (dict_set (batch_path d b @ ''.tmp'') bs (fs_files f)))\<rparr>"

lemma append_commit_ok:
  "append_commit DiskOk b bs (w, f) =
     (Inr (Persisted (batch_path (wal_sessionDir w) b)),
      w\<lparr>wal_currentBytes := wal_currentBytes w + length bs\<rparr>, fs_put (wal_sessionDir w) b bs f)"
  by (simp add: append_commit_def Let_def fs_rename_def fs_writeFile_def fs_put_def)

lemma dict_get_fs_put:
  "dict_get (fs_files (fs_put d b bs f)) p =
     (if p = batch_path d b then Some bs
      else if p = batch_path d b @ ''.tmp'' then None
      else dict_get (fs_files f) p)"
  by (simp add: fs_put_def)

lemma batch_at_fs_put:
  "batch_at dec d (fs_put d b bs f) = (batch_at dec d f)(b := map_option fst (dec bs))"
  by (rule ext) (simp add: batch_at_def dict_get_fs_put)

lemma session_dir_ok_fs_put:
  assumes ok: "session_dir_ok enc d f"
  shows "session_dir_ok enc d (fs_put d b (enc evs b) f)"
proof -
  let ?p = "batch_path d b" and ?t = "batch_path d b @ ''.tmp''" and ?e = "enc evs b"
  have "set (dict_del ?t (dict_set ?t ?e (fs_files f))) \<subseteq> insert (?t, ?e) (set (fs_files f))"
    by (rule subset_trans [OF set_dict_del_subset set_dict_set_subset])
  then have "set (fs_files (fs_put d b ?e f)) \<subseteq> insert (?p, ?e) (insert (?t, ?e) (set (fs_files f)))"
    using set_dict_set_subset [of ?p ?e "dict_del ?t (dict_set ?t ?e (fs_files f))"]
    by (simp add: fs_put_def) blast
  moreover have "distinct (dict_keys (fs_files (fs_put d b ?e f)))"
    using ok by (simp add: fs_put_def session_dir_ok_def)
  moreover have "fs_dirs (fs_put d b ?e f) = fs_dirs f" by (simp add: fs_put_def)
  ultimately show ?thesis
    using ok unfolding session_dir_ok_def by (fastforce dest: subsetD)
qed

lemma log_bytes_fs_put:
  assumes "dict_get (fs_files f) (batch_path d b) = None"
  shows "log_bytes d (fs_put d b bs f) = log_bytes d f + length bs"
proof -
  let ?t = "batch_path d b @ ''.tmp''"
  let ?r = "dict_del ?t (dict_set ?t bs (fs_files f))"
  have "dict_get ?r (batch_path d b) = None" using assms by simp
  then have "batch_path d b \<notin> set (dict_keys ?r)" by (simp only: map_of_eq_None_iff set_map simp_thms)
  then have "dict_set (batch_path d b) bs ?r = ?r @ [(batch_path d b, bs)]" by (rule dict_set_new)
  then show ?thesis
    by (simp add: fs_put_def log_bytes_def filter_dict_set filter_dict_del del: filter_filter)
qed

lemma filter_dict_set_present:
  assumes "dict_get d k = Some old" "P k"
  shows "sum_list (map (length \<circ> snd) (filter (P \<circ> fst) (dict_set k v d))) + length old =
    sum_list (map (length \<circ> snd) (filter (P \<circ> fst) d)) + length v"
  using assms by (induction d) (auto split: if_splits)

lemma log_bytes_fs_put_present:
  assumes "dict_get (fs_files f) (batch_path d b) = Some old"
  shows "log_bytes d (fs_put d b bs f) + length old = log_bytes d f + length bs"
proof -
  let ?t = "batch_path d b @ ''.tmp''"
  have "dict_get (dict_del ?t (dict_set ?t bs (fs_files f))) (batch_path d b) = Some old"
    using assms by simp
  from filter_dict_set_present [where P = "is_log_file d", OF this, of bs]
  show ?thesis
    by (simp add: fs_put_def log_bytes_def filter_dict_set filter_dict_del del: filter_filter)
qed

lemma batch_at_None:
  assumes "session_dir_ok enc d f" "codec_ok enc dec"
  shows "batch_at dec d f b = None \<longleftrightarrow> dict_get (fs_files f) (batch_path d b) = None"
proof (cases "dict_get (fs_files f) (batch_path d b)")
  case None
  then show ?thesis by (simp only: batch_at_def option.case simp_thms)
next
  case (Some bs)
  with batch_at_codec [OF assms this] show ?thesis by auto
qed

lemma append_check_inv:
  assumes "wal_inv enc dec (w, f)"
  shows "append_check enc dec disk b evs (w, f) =
    (Inr (if wal_currentBytes w + length (enc evs b) > wal_maxBytes w then None
          else Some (enc evs b)), w, f)"
  using assms by (simp add: append_check_def wal_inv_def wal_init_def Let_def)

lemma fs_unlink_files:
  "fs_unlink p f = Inr f' \<longleftrightarrow> p \<in> fst ` set (fs_files f) \<and> f' = f\<lparr>fs_files := dict_del p (fs_files f)\<rparr>"
  unfolding fs_unlink_def using map_of_eq_None_iff [of "fs_files f" p]
  by (cases "dict_get (fs_files f) p") auto

lemma mset_dict_del:
  "distinct (dict_keys d) \<Longrightarrow> dict_get d k = Some v \<Longrightarrow> mset d = add_mset (k, v) (mset (dict_del k d))"
proof (induction d)
  case (Cons x d)
  then show ?case
    by (cases x) (auto simp: AList.delete_idem split: if_splits)
qed simp

lemma log_bytes_remove:
  assumes "distinct (dict_keys (fs_files f))" "dict_get (fs_files f) p = Some bs" "is_log_file d p"
  shows "log_bytes d (f\<lparr>fs_files := dict_del p (fs_files f)\<rparr>) + length bs = log_bytes d f"
proof -
  have bytes: "log_bytes d g =
      (\<Sum>x \<in># filter_mset (is_log_file d \<circ> fst) (mset (fs_files g)). length (snd x))" for g
    by (simp add: log_bytes_def comp_def flip: mset_filter sum_mset_sum_list mset_map)
  show ?thesis
    unfolding bytes using mset_dict_del [OF assms(1,2)] assms(3) by simp
qed

lemma session_dir_ok_remove:
  "session_dir_ok enc d f \<Longrightarrow> session_dir_ok enc d (f\<lparr>fs_files := dict_del p (fs_files f)\<rparr>)"
  using set_dict_del_subset [of p "fs_files f"] by (fastforce simp: session_dir_ok_def)

lemma batch_at_remove:
  "batch_at dec d (f\<lparr>fs_files := dict_del (batch_path d b) (fs_files f)\<rparr>) = (batch_at dec d f)(b := None)"
  by (rule ext) (simp add: batch_at_def)

lemma read_entries_cong:
  "(\<And>n b. (n, b) \<in> set xs \<Longrightarrow>
      dict_get (fs_files f) (path_join d n) = dict_get (fs_files g) (path_join d n)) \<Longrightarrow>
   read_entries dec d f xs = read_entries dec d g xs"
proof (induction xs)
  case (Cons x xs)
  obtain n b where x: "x = (n, b)" by (cases x)
  have "read_entries dec d f xs = read_entries dec d g xs"
    by (rule Cons.IH) (meson Cons.prems list.set_intros(2))
  with Cons.prems [of n b] x show ?case by (simp add: fs_readFile_def split: option.split)
qed simp

lemma wal_list_write_tmp:
  assumes ok: "session_dir_ok enc d f" and d: "d = wal_sessionDir w"
  shows "wal_list dec w (fs_writeFile (batch_path d b @ ''.tmp'') bs f) = wal_list dec w f"
proof -
  let ?g = "fs_writeFile (batch_path d b @ ''.tmp'') bs f"
  have "log_paths d ?g = log_paths d f"
    by (simp add: log_paths_def fs_writeFile_def filter_map filter_dict_set)
  then have "listing d ?g = listing d f" by (simp add: listing_def)
  moreover have "read_entries dec d ?g (listing d f) = read_entries dec d f (listing d f)"
    using in_listing [OF ok]
    by (intro read_entries_cong) (auto simp: fs_writeFile_def path_join_pb)
  moreover have "d \<in> set (fs_dirs f)" using ok by (simp add: session_dir_ok_def)
  ultimately show ?thesis using d by (simp add: wal_list_listing fs_writeFile_def)
qed

lemma wal_append_failed:
  assumes inv: "wal_inv enc dec (w, f)"
    and res: "wal_append enc dec disk b evs (w, f) = (Inl err, w', f')"
  shows "w' = w \<and> (\<exists>part. f' = fs_writeFile (batch_path (wal_sessionDir w) b @ ''.tmp'') part f)"
  using res append_check_inv [OF inv]
  by (cases disk) (auto simp: wal_append_def append_commit_def Let_def fs_rename_def fs_writeFile_def
      split: if_splits)

section \<open>What the log promises\<close>

text \<open>
  C10. An append to an initialised log, under any id. When the cap would be passed it reports \<open>capacity\<close> and changes
  nothing. Otherwise it stores exactly that batch under the id and keeps every batch with another id, and the byte
  account grows by the size of the file. For an id that was not in the log the account still agrees with the directory and
  the state stays well formed; for an id that was, the old batch is replaced and the account exceeds the directory by the
  size of the old file.
\<close>

theorem wal_append_spec:
  assumes inv: "wal_inv enc dec (w, f)"
  shows "\<exists>w' f'. wal_sessionDir w' = wal_sessionDir w \<and> wal_maxBytes w' = wal_maxBytes w \<and>
    (if wal_usedBytes w + length (enc evs b) \<le> wal_maxBytes w
     then wal_append enc dec DiskOk b evs (w, f) =
            (Inr (Persisted (batch_path (wal_sessionDir w) b)), w', f') \<and>
          wal_at dec (w', f') = (wal_at dec (w, f))(b := Some evs) \<and>
          wal_usedBytes w' = wal_usedBytes w + length (enc evs b) \<and>
          (case wal_at dec (w, f) b of
             None \<Rightarrow> wal_inv enc dec (w', f')
           | Some old_evs \<Rightarrow> log_bytes (wal_sessionDir w') f' + length (enc old_evs b) = wal_usedBytes w')
     else wal_append enc dec DiskOk b evs (w, f) = (Inr (NotPersisted ''capacity''), w', f') \<and>
          w' = w \<and> f' = f)"
proof (cases "wal_usedBytes w + length (enc evs b) \<le> wal_maxBytes w")
  case True
  let ?d = "wal_sessionDir w" and ?bs = "enc evs b"
  let ?w = "w\<lparr>wal_currentBytes := wal_currentBytes w + length ?bs\<rparr>" and ?f = "fs_put ?d b ?bs f"
  from inv have ok: "session_dir_ok enc ?d f" and c: "codec_ok enc dec" and bytes: "wal_currentBytes w = log_bytes ?d f"
    by (auto simp: wal_inv_def)
  have "wal_append enc dec DiskOk b evs (w, f) = (Inr (Persisted (batch_path ?d b)), ?w, ?f)"
    using True append_check_inv [OF inv]
    by (simp add: wal_append_def append_commit_ok wal_usedBytes_def)
  moreover have "batch_at dec ?d ?f = (batch_at dec ?d f)(b := Some evs)"
    using c by (simp add: batch_at_fs_put codec_ok_def)
  moreover have "wal_inv enc dec (?w, ?f)" if "batch_at dec ?d f b = None"
    using inv session_dir_ok_fs_put [OF ok] log_bytes_fs_put that batch_at_None [OF ok c]
    by (simp add: wal_inv_def)
  moreover have "log_bytes ?d ?f + length (enc old_evs b) = wal_usedBytes ?w" if "batch_at dec ?d f b = Some old_evs" for old_evs
    using log_bytes_fs_put_present [of f ?d b "enc old_evs b" ?bs] that bytes by (simp add: batch_at_iff [OF ok c] wal_usedBytes_def)
  ultimately show ?thesis
    using True by (intro exI [of _ ?w] exI [of _ ?f]) (simp add: wal_usedBytes_def split: option.splits)
next
  case False
  with inv append_check_inv [OF inv] show ?thesis
    by (auto simp: wal_append_def wal_usedBytes_def)
qed

text \<open>
  C9. A failed append is harmless: whatever the disk does at the write or at the rename (a partial
  write included), and so also when the process dies before the rename, the listing, the
  stored batches and the byte counter are those from before the call.
\<close>

theorem wal_append_crash_safe:
  assumes inv: "wal_inv enc dec (w, f)"
    and res: "wal_append enc dec disk b evs (w, f) = (Inl err, w', f')"
  shows "wal_inv enc dec (w', f') \<and> wal_at dec (w', f') = wal_at dec (w, f) \<and> w' = w \<and>
    wal_list dec w' f' = wal_list dec w f"
proof -
  from wal_append_failed [OF inv res] obtain part where
    "w' = w" "f' = fs_writeFile (batch_path (wal_sessionDir w) b @ ''.tmp'') part f" by blast
  moreover from inv have "session_dir_ok enc (wal_sessionDir w) f" by (simp add: wal_inv_def)
  ultimately show ?thesis
    using inv by (simp add: wal_inv_def session_dir_ok_write_tmp wal_list_write_tmp)
qed

text \<open>
  Listing a well-formed log succeeds and returns exactly the stored batches, in strictly
  increasing batch order, each with the path and the size of its file.
\<close>

theorem wal_list_spec:
  assumes "wal_inv enc dec (w, f)"
  shows "\<exists>es. wal_list dec w f = Inr es \<and> sorted_wrt (<) (map entry_batchId es) \<and>
    map_of (map (\<lambda>e. (entry_batchId e, entry_events e)) es) = wal_at dec (w, f) \<and>
    (\<forall>e \<in> set es. entry_filePath e = batch_path (wal_sessionDir w) (entry_batchId e)) \<and>
    sum_list (map entry_sizeBytes es) = wal_usedBytes w"
proof -
  from assms have ok: "session_dir_ok enc (wal_sessionDir w) f" "codec_ok enc dec"
    by (auto simp: wal_inv_def)
  obtain es where es: "wal_list dec w f = Inr es" "sorted_wrt (<) (map entry_batchId es)"
    "\<And>e. e \<in> set es \<Longrightarrow> entry_filePath e = batch_path (wal_sessionDir w) (entry_batchId e) \<and>
        wal_at dec (w, f) (entry_batchId e) = Some (entry_events e) \<and>
        entry_sizeBytes e = length (enc (entry_events e) (entry_batchId e))"
    "\<And>b. b \<in> entry_batchId ` set es \<longleftrightarrow> wal_at dec (w, f) b \<noteq> None"
    "sum_list (map entry_sizeBytes es) = log_bytes (wal_sessionDir w) f"
    using wal_list_complete [OF ok refl, of thesis] by simp
  have "map_of (map (\<lambda>e. (entry_batchId e, entry_events e)) es) b = wal_at dec (w, f) b" for b
  proof (cases "b \<in> entry_batchId ` set es")
    case True
    then obtain evs where "map_of (map (\<lambda>e. (entry_batchId e, entry_events e)) es) b = Some evs"
      by (cases "map_of (map (\<lambda>e. (entry_batchId e, entry_events e)) es) b")
        (auto simp: map_of_eq_None_iff image_image)
    with es(3) show ?thesis by (fastforce dest: map_of_SomeD)
  next
    case False
    with es(4) [of b] have "wal_at dec (w, f) b = None" by simp
    moreover from False have "map_of (map (\<lambda>e. (entry_batchId e, entry_events e)) es) b = None"
      by (force simp: map_of_eq_None_iff)
    ultimately show ?thesis by (simp only:)
  qed
  with es assms show ?thesis by (auto simp: wal_inv_def wal_usedBytes_def)
qed

text \<open>The entry \<open>list()\<close> makes for a stored batch, and the set of entries it returns.\<close>

definition log_entry :: "'e encoder \<Rightarrow> string \<Rightarrow> nat \<Rightarrow> 'e list \<Rightarrow> 'e wal_entry" where
  "log_entry enc d b evs =
     \<lparr>entry_batchId = b, entry_events = evs, entry_filePath = batch_path d b, entry_sizeBytes = length (enc evs b)\<rparr>"

lemma log_entry_sel [simp]:
  "entry_batchId (log_entry enc d b evs) = b" "entry_events (log_entry enc d b evs) = evs"
  "entry_filePath (log_entry enc d b evs) = batch_path d b" "entry_sizeBytes (log_entry enc d b evs) = length (enc evs b)"
  by (simp_all add: log_entry_def)

lemma log_entry_inject [simp]: "log_entry enc d b evs = log_entry enc d b' evs' \<longleftrightarrow> b = b' \<and> evs = evs'"
  by (auto simp: log_entry_def)

lemma wal_list_entries:
  assumes "wal_inv enc dec (w, f)"
  obtains es where "wal_list dec w f = Inr es" "sorted_wrt (<) (map entry_batchId es)"
    "set es = {log_entry enc (wal_sessionDir w) b evs | b evs. wal_at dec (w, f) b = Some evs}"
proof -
  let ?d = "wal_sessionDir w"
  from assms have ok: "session_dir_ok enc ?d f" "codec_ok enc dec" by (auto simp: wal_inv_def)
  obtain es where es: "wal_list dec w f = Inr es" "sorted_wrt (<) (map entry_batchId es)"
    "\<And>e. e \<in> set es \<Longrightarrow> entry_filePath e = batch_path ?d (entry_batchId e) \<and>
        wal_at dec (w, f) (entry_batchId e) = Some (entry_events e) \<and>
        entry_sizeBytes e = length (enc (entry_events e) (entry_batchId e))"
    "\<And>b. b \<in> entry_batchId ` set es \<longleftrightarrow> wal_at dec (w, f) b \<noteq> None"
    using wal_list_complete [OF ok refl, of thesis] by simp
  have is_entry: "e = log_entry enc ?d (entry_batchId e) (entry_events e)" if "e \<in> set es" for e
    using es(3) [OF that] by (intro wal_entry.equality) simp_all
  have "set es = {log_entry enc ?d b evs | b evs. wal_at dec (w, f) b = Some evs}"
  proof (intro set_eqI iffI)
    fix e
    assume "e \<in> set es"
    with is_entry es(3) show "e \<in> {log_entry enc ?d b evs | b evs. wal_at dec (w, f) b = Some evs}" by blast
  next
    fix e
    assume "e \<in> {log_entry enc ?d b evs | b evs. wal_at dec (w, f) b = Some evs}"
    then obtain b evs where e: "e = log_entry enc ?d b evs" "wal_at dec (w, f) b = Some evs" by blast
    with es(4) [of b] obtain e' where e': "e' \<in> set es" "entry_batchId e' = b" by auto
    with es(3) [OF e'(1)] e have "e = log_entry enc ?d (entry_batchId e') (entry_events e')" by simp
    with is_entry [OF e'(1)] e'(1) show "e \<in> set es" by metis
  qed
  with es(1,2) show thesis by (rule that)
qed

lemma wal_remove_ok:
  assumes inv: "wal_inv enc dec (w, f)" and es: "wal_list dec w f = Inr es" and e: "e \<in> set es"
  shows "\<exists>w' f'. wal_remove None e (w, f) = (Inr (), w', f') \<and> wal_inv enc dec (w', f') \<and>
    wal_sessionDir w' = wal_sessionDir w \<and>
    wal_at dec (w', f') = (wal_at dec (w, f))(entry_batchId e := None) \<and>
    wal_usedBytes w' + entry_sizeBytes e = wal_usedBytes w \<and>
    wal_remove None e (w', f') = (Inr (), w', f')"
proof -
  let ?d = "wal_sessionDir w" and ?p = "batch_path (wal_sessionDir w) (entry_batchId e)"
  from inv have ok: "session_dir_ok enc ?d f" and c: "codec_ok enc dec" by (auto simp: wal_inv_def)
  obtain es' where "wal_list dec w f = Inr es'"
    "set es' = {log_entry enc ?d b evs | b evs. wal_at dec (w, f) b = Some evs}"
    by (rule wal_list_entries [OF inv])
  with es e obtain b evs where e': "e = log_entry enc ?d b evs" "batch_at dec ?d f b = Some evs" by auto
  then have get: "dict_get (fs_files f) ?p = Some (enc evs b)" by (simp add: batch_at_iff [OF ok c])
  let ?f = "f\<lparr>fs_files := dict_del ?p (fs_files f)\<rparr>"
  let ?w = "w\<lparr>wal_currentBytes := wal_currentBytes w - entry_sizeBytes e\<rparr>"
  have bytes: "log_bytes ?d ?f + entry_sizeBytes e = log_bytes ?d f"
    using log_bytes_remove [OF _ get] ok e' by (simp add: session_dir_ok_def)
  have "wal_remove None e (w, f) = (Inr (), ?w, ?f)"
    using get e' by (simp add: wal_remove_def fs_unlink_def)
  moreover have "wal_inv enc dec (?w, ?f)"
    using inv bytes session_dir_ok_remove [OF ok] by (simp add: wal_inv_def)
  moreover have "wal_remove None e (?w, ?f) = (Inr (), ?w, ?f)"
    using e' by (simp add: wal_remove_def fs_unlink_def)
  moreover have "batch_at dec ?d ?f = (batch_at dec ?d f)(entry_batchId e := None)"
    by (rule batch_at_remove)
  ultimately show ?thesis
    using inv bytes by (intro exI [of _ ?w] exI [of _ ?f]) (simp add: wal_inv_def wal_usedBytes_def)
qed

text \<open>
  Removing a listed entry deletes that batch and nothing else, and gives its bytes back;
  removing it again (another drainer was faster) is a no-op, and so is any failed unlink.
\<close>

theorem wal_remove_spec:
  assumes inv: "wal_inv enc dec (w, f)" and es: "wal_list dec w f = Inr es" and e: "e \<in> set es"
  shows "\<exists>w' f'. wal_remove None e (w, f) = (Inr (), w', f') \<and> wal_inv enc dec (w', f') \<and>
    wal_at dec (w', f') = (wal_at dec (w, f))(entry_batchId e := None) \<and>
    wal_usedBytes w' + entry_sizeBytes e = wal_usedBytes w \<and>
    wal_remove None e (w', f') = (Inr (), w', f') \<and>
    wal_remove (Some (IoError x)) e (w, f) = (Inl (WalIo (IoError x)), w, f)"
  using wal_remove_ok [OF assms] by (auto simp: wal_remove_def)

subsection \<open>The contract of a batch log\<close>

text \<open>
  What a drain relies on: a listing in the order of the keys, and removals that shorten it by one
  entry and leave the rest as it was.
\<close>

locale batch_log =
  fixes lst :: "'s \<Rightarrow> 'b list option"
    and rm :: "'b \<Rightarrow> 's \<Rightarrow> 's option"
    and key :: "'b \<Rightarrow> nat"
    and invar :: "'s \<Rightarrow> bool"
  assumes lst_sorted: "invar s \<Longrightarrow> \<exists>es. lst s = Some es \<and> sorted_wrt (<) (map key es)"
    and rm_lst: "invar s \<Longrightarrow> lst s = Some es \<Longrightarrow> e \<in> set es \<Longrightarrow>
      \<exists>s'. rm e s = Some s' \<and> invar s' \<and> lst s' = Some (remove1 e es)"
begin

lemma rm_head:
  "invar s \<Longrightarrow> lst s = Some (e # es) \<Longrightarrow> \<exists>s'. rm e s = Some s' \<and> invar s' \<and> lst s' = Some es"
  using rm_lst [of s "e # es" e] by simp

lemma rm_all:
  "invar s \<Longrightarrow> lst s = Some es \<Longrightarrow>
   \<exists>s'. fold (\<lambda>e t. Option.bind t (rm e)) es (Some s) = Some s' \<and> invar s' \<and> lst s' = Some []"
proof (induction es arbitrary: s)
  case (Cons e es)
  from rm_head [OF Cons.prems] obtain s1 where "rm e s = Some s1" "invar s1" "lst s1 = Some es" by blast
  with Cons.IH [of s1] show ?case by simp
qed simp

end

definition log_lst :: "'e decoder \<Rightarrow> wal \<times> fs \<Rightarrow> 'e wal_entry list option" where
  "log_lst dec st = (case wal_list dec (fst st) (snd st) of Inl e \<Rightarrow> None | Inr es \<Rightarrow> Some es)"

definition log_rm :: "'e wal_entry \<Rightarrow> wal \<times> fs \<Rightarrow> (wal \<times> fs) option" where
  "log_rm e st = (case wal_remove None e st of (Inl err, st') \<Rightarrow> None | (Inr u, st') \<Rightarrow> Some st')"

lemma sorted_keys_unique:
  fixes key :: "'b \<Rightarrow> nat"
  assumes "sorted_wrt (<) (map key xs)" "sorted_wrt (<) (map key ys)" "set xs = set ys"
  shows "xs = ys"
proof -
  have "set (map key xs) = set (map key ys)" using assms(3) by simp
  with assms(1,2) have keys: "map key xs = map key ys" by (metis strict_sorted_equal)
  have inj: "inj_on key (set xs)"
    using assms(1) by (metis distinct_map strict_sorted_iff)
  show ?thesis
    using keys inj assms(3) by (metis map_inj_on sup.idem)
qed

lemma sorted_wrt_remove1_keys: "sorted_wrt (<) (map key xs) \<Longrightarrow> sorted_wrt (<) (map key (remove1 x xs))"
  for key :: "'b \<Rightarrow> nat"
  by (induction xs) (auto dest: in_set_remove1 [THEN iffD1, rotated] set_remove1_subset [THEN subsetD])

lemma log_rm_lst:
  assumes inv: "wal_inv enc dec st" and lst: "log_lst dec st = Some es" and e: "e \<in> set es"
  shows "\<exists>st'. log_rm e st = Some st' \<and> wal_inv enc dec st' \<and> log_lst dec st' = Some (remove1 e es)"
proof -
  obtain w f where st: "st = (w, f)" by (cases st)
  let ?d = "wal_sessionDir w"
  have es: "wal_list dec w f = Inr es" using lst by (simp add: log_lst_def st split: sum.splits)
  obtain es' where "wal_list dec w f = Inr es'" "sorted_wrt (<) (map entry_batchId es')"
    "set es' = {log_entry enc ?d b evs | b evs. wal_at dec (w, f) b = Some evs}"
    by (rule wal_list_entries [OF inv [unfolded st]])
  with es have srt: "sorted_wrt (<) (map entry_batchId es)"
    and set: "set es = {log_entry enc ?d b evs | b evs. wal_at dec (w, f) b = Some evs}" by simp_all
  obtain w' f' where rm: "wal_remove None e (w, f) = (Inr (), w', f')" "wal_inv enc dec (w', f')"
    "wal_sessionDir w' = ?d" "wal_at dec (w', f') = (wal_at dec (w, f))(entry_batchId e := None)"
    using wal_remove_ok [OF inv [unfolded st] es e] by blast
  obtain es2 where es2: "wal_list dec w' f' = Inr es2" "sorted_wrt (<) (map entry_batchId es2)"
    "set es2 = {log_entry enc ?d b evs | b evs. wal_at dec (w', f') b = Some evs}"
    by (rule wal_list_entries [OF rm(2), unfolded rm(3)])
  have "distinct es" using srt by (metis distinct_map strict_sorted_iff)
  then have "set (remove1 e es) = set es - {e}" by simp
  also have "\<dots> = set es2" using e unfolding es2(3) rm(4) set by (auto split: if_splits) (metis option.inject)+
  finally have "es2 = remove1 e es"
    using es2(2) sorted_wrt_remove1_keys [OF srt] by (intro sorted_keys_unique) simp_all
  with rm es2(1) show ?thesis by (simp add: st log_rm_def log_lst_def)
qed

interpretation wl: batch_log "log_lst dec" log_rm entry_batchId "wal_inv enc dec" for enc dec
proof unfold_locales
  fix st
  assume inv: "wal_inv enc dec st"
  obtain w f where st: "st = (w, f)" by (cases st)
  obtain es where "wal_list dec w f = Inr es" "sorted_wrt (<) (map entry_batchId es)"
    by (rule wal_list_entries [OF inv [unfolded st]])
  then show "\<exists>es. log_lst dec st = Some es \<and> sorted_wrt (<) (map entry_batchId es)"
    by (simp add: st log_lst_def)
qed (rule log_rm_lst)

text \<open>
  File names order like batch numbers: for ids below \<open>10 ^ 20\<close> the zero-padded name of a smaller
  id is lexicographically smaller, and a name always parses back to its id.
\<close>

theorem batch_file_order:
  assumes "a < 10 ^ 20" "b < 10 ^ 20"
  shows "(formatBatchId a @ ''.pb'' < formatBatchId b @ ''.pb'' \<longleftrightarrow> a < b) \<and>
    parseBatchId (formatBatchId a) = Some a"
proof -
  have "xs @ zs < ys @ zs \<longleftrightarrow> xs < ys" if "length xs = length ys" for xs ys zs :: string
    using that by (induction xs ys rule: list_induct2) auto
  with assms show ?thesis
    by (simp add: length_formatBatchId formatBatchId_less_iff parse_formatBatchId)
qed

text \<open>
  C11. Opening a log over a directory an earlier process left behind (partial writes included)
  recovers it: initialisation succeeds, keeps every stored batch and counts the bytes on disk.
\<close>

theorem wal_init_recovers:
  assumes ok: "session_dir_ok enc (path_join dir sid) f" and c: "codec_ok enc dec"
  shows "\<exists>w'. wal_init dec DiskOk (wal_new dir sid cap, f) = (Inr (), w', f) \<and>
    wal_inv enc dec (w', f) \<and> wal_sessionDir w' = path_join dir sid \<and>
    wal_at dec (w', f) = batch_at dec (path_join dir sid) f"
proof -
  let ?w = "wal_new dir sid cap"
  have d: "path_join dir sid = wal_sessionDir ?w" by (simp add: wal_new_def)
  obtain es where es: "wal_list dec ?w f = Inr es"
    "sum_list (map entry_sizeBytes es) = log_bytes (path_join dir sid) f"
    using wal_list_complete [OF ok c d] by metis
  have sum: "foldl (\<lambda>s e. s + entry_sizeBytes e) n l = n + sum_list (map entry_sizeBytes l)"
    for l :: "'a wal_entry list" and n
    by (induction l arbitrary: n) auto
  from ok have "fs_mkdir (path_join dir sid) f = f" by (simp add: fs_mkdir_def session_dir_ok_def)
  then have "wal_init dec DiskOk (?w, f) =
      (Inr (), ?w\<lparr>wal_currentBytes := log_bytes (path_join dir sid) f, wal_initialized := True\<rparr>, f)"
    using es sum by (simp add: wal_init_def Let_def flip: d) (simp add: wal_new_def)
  then show ?thesis using ok c by (simp add: wal_inv_def wal_new_def)
qed

text \<open>
  The byte cap is not hard: \<open>append\<close> awaits the disk between the capacity check and the
  accounting, so two overlapping appends that each fit, but not together, both pass the check and
  leave the log above \<open>maxBytes\<close>.
\<close>

theorem wal_cap_exceeded_by_overlap:
  assumes inv: "wal_inv enc dec (w, f)"
    and fit: "wal_usedBytes w + length (enc x a) \<le> wal_maxBytes w"
      "wal_usedBytes w + length (enc y b) \<le> wal_maxBytes w"
    and over: "wal_maxBytes w < wal_usedBytes w + length (enc x a) + length (enc y b)"
  shows "\<exists>st1 r1 w2 f2 r2. append_check enc dec DiskOk a x (w, f) = (Inr (Some (enc x a)), w, f) \<and>
    append_check enc dec DiskOk b y (w, f) = (Inr (Some (enc y b)), w, f) \<and>
    append_commit DiskOk a (enc x a) (w, f) = (Inr (Persisted r1), st1) \<and>
    append_commit DiskOk b (enc y b) st1 = (Inr (Persisted r2), w2, f2) \<and>
    wal_maxBytes w2 < wal_usedBytes w2"
  using append_check_inv [OF inv] fit over by (simp add: append_commit_ok wal_usedBytes_def)

text \<open>
  An append under an id that is already on disk replaces the stored batch, and the byte
  counter then overstates the directory by the size of the batch that was lost.
\<close>

theorem wal_append_overwrites:
  assumes inv: "wal_inv enc dec (w, f)" and old: "wal_at dec (w, f) b = Some old_evs"
    and fit: "wal_usedBytes w + length (enc evs b) \<le> wal_maxBytes w"
  shows "\<exists>w' f'. wal_append enc dec DiskOk b evs (w, f) =
      (Inr (Persisted (batch_path (wal_sessionDir w) b)), w', f') \<and>
    wal_at dec (w', f') = (wal_at dec (w, f))(b := Some evs) \<and>
    wal_usedBytes w' = wal_usedBytes w + length (enc evs b) \<and>
    log_bytes (wal_sessionDir w') f' + length (enc old_evs b) = wal_usedBytes w'"
proof -
  let ?d = "wal_sessionDir w"
  from inv have ok: "session_dir_ok enc ?d f" and c: "codec_ok enc dec" by (auto simp: wal_inv_def)
  have "log_bytes ?d (fs_put ?d b (enc evs b) f) + length (enc old_evs b) =
      log_bytes ?d f + length (enc evs b)"
    using old by (intro log_bytes_fs_put_present) (simp add: batch_at_iff [OF ok c])
  moreover have "wal_currentBytes w = log_bytes ?d f" using inv by (simp add: wal_inv_def)
  ultimately show ?thesis
    using append_check_inv [OF inv] fit c
    by (simp add: wal_append_def append_commit_ok wal_usedBytes_def batch_at_fs_put codec_ok_def)
qed

section \<open>Witnesses\<close>

text \<open>
  A concrete codec (events carry no payload; a batch is its event count and its id in unary) and a
  log with one batch on disk, at which every theorem above applies.
\<close>

definition sample_enc :: "unit encoder" where
  "sample_enc evs b = replicate (length evs) 1 @ 0 # replicate b 1"

definition sample_dec :: "unit decoder" where
  "sample_dec bs =
     Some (map (\<lambda>_. ()) (takeWhile (\<lambda>x. x = 1) bs), length (tl (dropWhile (\<lambda>x. x = 1) bs)))"

lemma sample_codec_ok: "codec_ok sample_enc sample_dec"
proof -
  have t: "takeWhile (\<lambda>x. x = 1) (replicate n 1 @ 0 # r) = replicate n (1 :: byte)"
    and d: "dropWhile (\<lambda>x. x = 1) (replicate n 1 @ 0 # r) = 0 # (r :: bytes)" for n r
    by (induction n) auto
  have "replicate (length evs) () = evs" for evs :: "unit list" by (induction evs) auto
  then show ?thesis by (simp add: codec_ok_def sample_enc_def sample_dec_def t d)
qed

definition sample_wal :: wal where
  "sample_wal = \<lparr>wal_dir = ''/w'', wal_sessionDir = ''/w/s'', wal_maxBytes = 9,
     wal_currentBytes = 3, wal_initialized = True\<rparr>"

definition sample_fs :: fs where
  "sample_fs = \<lparr>fs_dirs = [''/w/s''],
     fs_files = [(''/w/s/00000000000000000001.pb'', [1, 0, 1]),
                 (''/w/s/00000000000000000002.pb.tmp'', [1])]\<rparr>"

lemma sample_inv: "wal_inv sample_enc sample_dec (sample_wal, sample_fs)"
proof -
  have p: "batch_path ''/w/s'' 1 = ''/w/s/00000000000000000001.pb''" by code_simp
  have e: "sample_enc [()] 1 = [1, 0, 1]" by code_simp
  have t: "\<not> is_log_file ''/w/s'' ''/w/s/00000000000000000002.pb.tmp''" by code_simp
  have b: "log_bytes ''/w/s'' sample_fs = 3" by code_simp
  show ?thesis
    using sample_codec_ok p [symmetric] e [symmetric] t b
    by (auto simp: wal_inv_def session_dir_ok_def sample_wal_def sample_fs_def)
qed

lemma sample_at: "wal_at sample_dec (sample_wal, sample_fs) 1 = Some [()]"
    "wal_at sample_dec (sample_wal, sample_fs) 2 = None"
  by code_simp+

theorem wal_append_spec_witness:
  "\<exists>w' f'. wal_append sample_enc sample_dec DiskOk 2 [(), ()] (sample_wal, sample_fs) =
     (Inr (Persisted (batch_path ''/w/s'' 2)), w', f') \<and>
     wal_at sample_dec (w', f') 2 = Some [(), ()] \<and> wal_at sample_dec (w', f') 1 = Some [()]"
proof -
  have l: "wal_usedBytes sample_wal + length (sample_enc [(), ()] 2) \<le> wal_maxBytes sample_wal"
    "wal_sessionDir sample_wal = ''/w/s''"
    by code_simp+
  from wal_append_spec [OF sample_inv, of "[(), ()]" 2] l sample_at
  show ?thesis by auto
qed

theorem wal_append_crash_safe_witness:
  "\<exists>w' f'. wal_append sample_enc sample_dec (WriteFails (IoError ''ENOSPC'') [1]) 2 [()] (sample_wal, sample_fs) =
     (Inl (WalIo (IoError ''ENOSPC'')), w', f') \<and> wal_list sample_dec w' f' = wal_list sample_dec sample_wal sample_fs"
proof -
  let ?r = "wal_append sample_enc sample_dec (WriteFails (IoError ''ENOSPC'') [1]) 2 [()] (sample_wal, sample_fs)"
  have "fst ?r = Inl (WalIo (IoError ''ENOSPC''))" by code_simp
  then obtain w' f' where r: "?r = (Inl (WalIo (IoError ''ENOSPC'')), w', f')"
    by (metis prod.exhaust fst_conv)
  with wal_append_crash_safe [OF sample_inv r] show ?thesis by blast
qed

theorem wal_list_spec_witness:
  "\<exists>es. wal_list sample_dec sample_wal sample_fs = Inr es \<and>
     map_of (map (\<lambda>e. (entry_batchId e, entry_events e)) es) 1 = Some [()]"
  using wal_list_spec [OF sample_inv] sample_at(1) by metis

theorem wal_remove_spec_witness:
  "\<exists>(e :: unit wal_entry) w' f'. wal_remove None e (sample_wal, sample_fs) = (Inr (), w', f') \<and> entry_batchId e = 1 \<and>
     wal_at sample_dec (w', f') 1 = None"
proof -
  let ?e = "\<lparr>entry_batchId = 1, entry_events = [()],
     entry_filePath = ''/w/s/00000000000000000001.pb'', entry_sizeBytes = 3\<rparr>"
  have l: "wal_list sample_dec sample_wal sample_fs = Inr [?e]" by code_simp
  have "?e \<in> set [?e]" by simp
  from wal_remove_spec [OF sample_inv l this] obtain w' f' where
    "wal_remove None ?e (sample_wal, sample_fs) = (Inr (), w', f')"
    "wal_at sample_dec (w', f') = (wal_at sample_dec (sample_wal, sample_fs))(entry_batchId ?e := None)"
    by blast
  then show ?thesis by (intro exI [of _ ?e] exI [of _ w'] exI [of _ f']) simp
qed

theorem batch_file_order_witness:
  "formatBatchId 9 @ ''.pb'' < formatBatchId 10 @ ''.pb'' \<and> parseBatchId (formatBatchId 9) = Some 9"
  using batch_file_order [of 9 10] by simp

theorem wal_init_recovers_witness:
  "\<exists>w'. wal_init sample_dec DiskOk (wal_new ''/w'' ''s'' None, sample_fs) = (Inr (), w', sample_fs) \<and>
     wal_at sample_dec (w', sample_fs) 1 = Some [()]"
proof -
  have "path_join ''/w'' ''s'' = wal_sessionDir sample_wal" by code_simp
  with sample_inv have "session_dir_ok sample_enc (path_join ''/w'' ''s'') sample_fs"
    by (simp add: wal_inv_def)
  from wal_init_recovers [OF this sample_codec_ok, of None] sample_at(1)
    \<open>path_join ''/w'' ''s'' = wal_sessionDir sample_wal\<close>
  show ?thesis by auto
qed

theorem wal_cap_exceeded_by_overlap_witness:
  "\<exists>st1 r1 w2 f2 r2. append_commit DiskOk 2 (sample_enc [()] 2) (sample_wal, sample_fs) = (Inr (Persisted r1), st1) \<and>
     append_commit DiskOk 3 (sample_enc [()] 3) st1 = (Inr (Persisted r2), w2, f2) \<and>
     wal_maxBytes w2 < wal_usedBytes w2"
proof -
  have "wal_usedBytes sample_wal + length (sample_enc [()] 2) \<le> wal_maxBytes sample_wal"
    "wal_usedBytes sample_wal + length (sample_enc [()] 3) \<le> wal_maxBytes sample_wal"
    "wal_maxBytes sample_wal < wal_usedBytes sample_wal + length (sample_enc [()] 2) + length (sample_enc [()] 3)"
    by code_simp+
  from wal_cap_exceeded_by_overlap [OF sample_inv this] show ?thesis by blast
qed

theorem wal_append_overwrites_witness:
  "\<exists>w' f'. wal_append sample_enc sample_dec DiskOk 1 [(), ()] (sample_wal, sample_fs) =
     (Inr (Persisted (batch_path ''/w/s'' 1)), w', f') \<and> wal_at sample_dec (w', f') 1 = Some [(), ()]"
proof -
  have "wal_usedBytes sample_wal + length (sample_enc [(), ()] 1) \<le> wal_maxBytes sample_wal"
    and d: "wal_sessionDir sample_wal = ''/w/s''"
    by code_simp+
  from wal_append_overwrites [OF sample_inv sample_at(1) this(1)] d show ?thesis by auto
qed

end
