(* ===== verification/Client.thy ===== *)
theory Client
  imports Wal
begin

text \<open>
  The SDK client (\<open>sdk-node/src/client.ts\<close>): capture session, event stream, write-ahead-log
  fail-over, reconnect loop and remote control.

  JavaScript runs one piece of code at a time and switches only at an \<open>await\<close> or when a callback
  returns, so every method is cut at its awaits: the code before the first await is a function on
  the client state, what is left is a pending \<open>task\<close>, and one more function runs it when its
  promise settles. \<open>client_step\<close> (theory \<open>Client_Steps\<close>) lets the environment choose what happens
  next: an API call, an answer of the engine on some stream, a stream error, a timer, the disk.

  Streams and log objects have an identity in the source (listeners stay attached to the stream
  they were put on, an append in flight keeps its log object), so streams are numbered and log
  objects live in a store, \<open>c_wals\<close>. The fields from \<open>c_submitted\<close> on are the history the theorems
  speak about; no method reads them.
\<close>

section \<open>Configuration and data\<close>

record remote_config =
  remote_clientName :: string
  remote_displayName :: "string option"
  remote_labels :: "string dict option"
  remote_sdkLanguage :: "string option"
  remote_instanceId :: "string option"

record client_config =
  cfg_apiKey :: string
  cfg_sessionName :: string
  cfg_sessionLabels :: "string dict option"
  cfg_remote :: "remote_config option"
  cfg_walDir :: "string option"
  cfg_walMaxBytes :: "nat option"
  cfg_walDisabled :: bool
  cfg_initialBackoffMs :: "nat option"
  cfg_maxBackoffMs :: "nat option"

record session_handle =
  session_id :: string
  maxBatchSize :: int
  maxEventsPerSecond :: int
  recommendedFlushIntervalMs :: int

record stop_result =
  stoppedAtNs :: int
  eventsCaptured :: int
  bytesCaptured :: int

definition zero_stop :: stop_result where
  "zero_stop = \<lparr>stoppedAtNs = 0, eventsCaptured = 0, bytesCaptured = 0\<rparr>"

datatype err_code = CodeNum int | CodeStr string

record rpc_error =
  err_code :: "err_code option"
  err_message :: "string option"

text \<open>
  \<open>isSessionGoneError\<close>: status 9 (FAILED_PRECONDITION), by number or by name, or one of the three
  phrases of the case-insensitive pattern in the message.
\<close>

definition isSessionGoneError :: "rpc_error option \<Rightarrow> bool" where
  "isSessionGoneError err =
     (case err of
        None \<Rightarrow> False
      | Some e \<Rightarrow>
          err_code e = Some (CodeNum 9) \<or> err_code e = Some (CodeStr ''FAILED_PRECONDITION'') \<or>
          (let msg = toLowerCase (case err_message e of None \<Rightarrow> '''' | Some m \<Rightarrow> m)
           in str_includes msg ''session is not active'' \<or> str_includes msg ''session is inactive'' \<or>
              str_includes msg ''session inactive'' \<or> str_includes msg ''no such session''))"

text \<open>A log or disk error as the error object a \<open>catch\<close> block sees.\<close>

definition wal_rpc_error :: "wal_error \<Rightarrow> rpc_error" where
  "wal_rpc_error e = \<lparr>err_code = (case e of
       WalIo ENOENT \<Rightarrow> Some (CodeStr ''ENOENT'') | WalIo (IoError c) \<Rightarrow> Some (CodeStr c) | WalDecode \<Rightarrow> None),
     err_message = None\<rparr>"

record start_command =
  start_sessionId :: string
  start_sessionName :: string
  start_sessionLabels :: "string dict option"

datatype command = StartCapture start_command | StopCapture string nat | Ping

record open_params =
  open_name :: string
  open_labels :: "string dict"
  open_preferredId :: string

text \<open>Who awaits an opening or a closing session.\<close>

datatype after_open = OpenForStart | OpenForCommand

datatype after_close = CloseForStop | CloseForCommand | CloseThenOpen start_command

datatype promise = SendPromise nat | TrackedTask nat

text \<open>How the promise of a \<open>sendBatch\<close> call settled.\<close>

datatype outcome =
    Resolved
  | RejectedWalDisabled
  | RejectedWalFull
  | RejectedDisk wal_error

datatype 'e stream_message = Handshake string string | Batch nat "'e list"

section \<open>Pending work\<close>

datatype 'e task =
    SendWaiting nat nat "'e list"
  | SendRejected rpc_error nat "'e list"
  | PersistStart "nat option" nat "'e list"
  | PersistWriting nat nat "'e list" bytes
  | ReconnectHandshake nat
  | ReconnectFailed rpc_error
  | DrainList nat
  | DrainSending nat "'e wal_entry" "'e wal_entry list"
  | DrainRejected rpc_error
  | DrainRemoving "'e wal_entry" "'e wal_entry list"
  | StartRpc open_params after_open
  | WalInit nat string after_open
  | OpenHandshake nat string after_open
  | OpenFailed rpc_error after_open
  | CloseFlush string "promise list" nat after_close
  | StopRpc string after_close

record 'e client =
  c_config :: client_config
  c_session :: "session_handle option"
  c_stream :: "nat option"
  c_streamHealthy :: bool
  c_nextBatchId :: nat
  c_inflight :: "promise list"
  c_wal :: "nat option"
  c_reconnectTimer :: "nat option"
  c_reconnectAttempt :: nat
  c_draining :: bool
  c_shuttingDown :: bool
  c_controlStream :: "nat option"
  c_controlReconnectTimer :: "nat option"
  c_controlReconnectAttempt :: nat
  c_loggedDropWhileIdle :: bool
  c_closed :: bool
  c_wals :: "wal list"
  c_fs :: fs
  c_streams :: nat
  c_controlStreams :: nat
  c_written :: "(nat \<times> 'e stream_message) list"
  c_ended :: "nat list"
  c_tasks :: "'e task list"
  c_submitted :: "(nat \<times> 'e list) list"
  c_acked :: "(nat \<times> 'e list) list"
  c_results :: "(nat \<times> outcome) list"
  c_dropped :: nat
  c_notStarted :: nat
  c_starts :: "(rpc_error + session_handle) list"
  c_stops :: "(rpc_error + stop_result) list"
  c_unhandled :: "wal_error list"

definition new_client :: "client_config \<Rightarrow> fs \<Rightarrow> 'e client" where
  "new_client cfg f =
     \<lparr>c_config = cfg, c_session = None, c_stream = None, c_streamHealthy = False,
      c_nextBatchId = 1, c_inflight = [], c_wal = None, c_reconnectTimer = None,
      c_reconnectAttempt = 0, c_draining = False, c_shuttingDown = False,
      c_controlStream = None, c_controlReconnectTimer = None, c_controlReconnectAttempt = 0,
      c_loggedDropWhileIdle = False, c_closed = False, c_wals = [], c_fs = f, c_streams = 0,
      c_controlStreams = 0, c_written = [], c_ended = [], c_tasks = [], c_submitted = [],
      c_acked = [], c_results = [], c_dropped = 0, c_notStarted = 0, c_starts = [],
      c_stops = [], c_unhandled = []\<rparr>"

abbreviation is_remote :: "'e client \<Rightarrow> bool" where
  "is_remote c \<equiv> cfg_remote (c_config c) \<noteq> None"

definition add_task :: "'e task \<Rightarrow> 'e client \<Rightarrow> 'e client" where
  "add_task t c = c\<lparr>c_tasks := c_tasks c @ [t]\<rparr>"

definition settle :: "nat \<Rightarrow> outcome \<Rightarrow> 'e client \<Rightarrow> 'e client" where
  "settle b r c = c\<lparr>c_results := c_results c @ [(b, r)]\<rparr>"

definition write_stream :: "nat \<Rightarrow> 'e stream_message \<Rightarrow> 'e client \<Rightarrow> 'e client" where
  "write_stream s m c = c\<lparr>c_written := c_written c @ [(s, m)]\<rparr>"

section \<open>Reconnecting\<close>

text \<open>\<open>Math.min(initial * Math.pow(2, attempt), cap)\<close> with the defaults 500 ms and 30 s.\<close>

definition backoff_delay :: "client_config \<Rightarrow> nat \<Rightarrow> nat" where
  "backoff_delay cfg attempt =
     min ((case cfg_initialBackoffMs cfg of None \<Rightarrow> 500 | Some n \<Rightarrow> n) * 2 ^ attempt)
         (case cfg_maxBackoffMs cfg of None \<Rightarrow> 30000 | Some n \<Rightarrow> n)"

definition scheduleReconnect :: "'e client \<Rightarrow> 'e client" where
  "scheduleReconnect c =
     (if c_reconnectTimer c \<noteq> None \<or> c_shuttingDown c \<or> c_session c = None then c
      else c\<lparr>c_reconnectTimer := Some (backoff_delay (c_config c) (c_reconnectAttempt c))\<rparr>)"

definition clearReconnect :: "'e client \<Rightarrow> 'e client" where
  "clearReconnect c = c\<lparr>c_reconnectTimer := None\<rparr>"

definition markStreamFailed :: "rpc_error \<Rightarrow> 'e client \<Rightarrow> 'e client" where
  "markStreamFailed err c =
     (let c = c\<lparr>c_streamHealthy := False, c_stream := None\<rparr>
      in if c_shuttingDown c then c
         else if is_remote c \<and> isSessionGoneError (Some err)
         then clearReconnect (c\<lparr>c_session := None\<rparr>)
         else scheduleReconnect c)"

text \<open>
  \<open>openStream\<close> up to its await: a new stream becomes the current one at once, and the handshake
  is written to it. The caller's continuation is the task.
\<close>

definition openStream :: "string \<Rightarrow> (nat \<Rightarrow> 'e task) \<Rightarrow> 'e client \<Rightarrow> 'e client" where
  "openStream sid k c =
     (let s = c_streams c
      in add_task (k s)
           (write_stream s (Handshake sid (cfg_apiKey (c_config c)))
              (c\<lparr>c_streams := Suc s, c_stream := Some s\<rparr>)))"

definition tryReconnect :: "'e client \<Rightarrow> 'e client" where
  "tryReconnect c =
     (case c_session c of
        None \<Rightarrow> c
      | Some h \<Rightarrow>
          if c_shuttingDown c then c
          else openStream (session_id h) ReconnectHandshake
                 (c\<lparr>c_reconnectAttempt := c_reconnectAttempt c + 1\<rparr>))"

text \<open>The reconnect timer's callback.\<close>

definition reconnectTimerFires :: "'e client \<Rightarrow> 'e client" where
  "reconnectTimerFires c = tryReconnect (c\<lparr>c_reconnectTimer := None\<rparr>)"

text \<open>The \<open>catch\<close> block of \<open>tryReconnect\<close>.\<close>

definition reconnectFailed :: "rpc_error \<Rightarrow> 'e client \<Rightarrow> 'e client" where
  "reconnectFailed err c =
     (if is_remote c \<and> isSessionGoneError (Some err)
      then clearReconnect (c\<lparr>c_session := None\<rparr>)
      else scheduleReconnect c)"

section \<open>Sending batches\<close>

text \<open>\<open>sendOverStream\<close>: listeners for this stream and this id, then the write.\<close>

definition sendOverStream :: "nat \<Rightarrow> nat \<Rightarrow> 'e list \<Rightarrow> 'e task \<Rightarrow> 'e client \<Rightarrow> 'e client" where
  "sendOverStream s b evs k c = add_task k (write_stream s (Batch b evs) c)"

definition sendBatch :: "'e list \<Rightarrow> 'e client \<Rightarrow> 'e client" where
  "sendBatch evs c =
     (case c_session c of
        None \<Rightarrow>
          if is_remote c
          then c\<lparr>c_loggedDropWhileIdle := True, c_dropped := c_dropped c + 1\<rparr>
          else c\<lparr>c_notStarted := c_notStarted c + 1\<rparr>
      | Some _ \<Rightarrow>
          (let b = c_nextBatchId c;
               c = c\<lparr>c_nextBatchId := b + 1, c_submitted := c_submitted c @ [(b, evs)]\<rparr>
           in case (c_streamHealthy c, c_stream c) of
                (True, Some s) \<Rightarrow>
                  sendOverStream s b evs (SendWaiting s b evs)
                    (c\<lparr>c_inflight := c_inflight c @ [SendPromise b]\<rparr>)
              | _ \<Rightarrow> add_task (PersistStart (c_wal c) b evs) c))"

text \<open>The \<open>catch\<close> block of \<open>sendBatch\<close>, falling through to the log.\<close>

definition sendRejected :: "rpc_error \<Rightarrow> nat \<Rightarrow> 'e list \<Rightarrow> 'e client \<Rightarrow> 'e client" where
  "sendRejected err b evs c = (let c = markStreamFailed err c in add_task (PersistStart (c_wal c) b evs) c)"

text \<open>
  \<open>persistToWAL\<close> up to the write: no log, a full log and a broken log reject the batch. The log is
  the one the client had when the call was made.
\<close>

definition persistToWAL :: "'e encoder \<Rightarrow> 'e decoder \<Rightarrow> disk \<Rightarrow> nat option \<Rightarrow> nat \<Rightarrow> 'e list
    \<Rightarrow> 'e client \<Rightarrow> 'e client" where
  "persistToWAL enc dec disk wal b evs c =
     (case wal of
        None \<Rightarrow> settle b RejectedWalDisabled c
      | Some i \<Rightarrow>
          (case append_check enc dec disk b evs (c_wals c ! i, c_fs c) of
             (r, w, f) \<Rightarrow>
               (let c = c\<lparr>c_wals := (c_wals c)[i := w], c_fs := f\<rparr>
                in case r of
                     Inl e \<Rightarrow> settle b (RejectedDisk e) c
                   | Inr None \<Rightarrow> settle b RejectedWalFull c
                   | Inr (Some bs) \<Rightarrow> add_task (PersistWriting i b evs bs) c)))"

text \<open>The write to the log object the append started on, and the rest of \<open>persistToWAL\<close>.\<close>

definition persistWritten :: "disk \<Rightarrow> nat \<Rightarrow> nat \<Rightarrow> bytes \<Rightarrow> 'e client \<Rightarrow> 'e client" where
  "persistWritten disk i b bs c =
     (case append_commit disk b bs (c_wals c ! i, c_fs c) of
        (r, w, f) \<Rightarrow>
          (let c = c\<lparr>c_wals := (c_wals c)[i := w], c_fs := f\<rparr>
           in case r of
                Inl e \<Rightarrow> settle b (RejectedDisk e) c
              | Inr _ \<Rightarrow>
                  (let c = settle b Resolved c
                   in if \<not> c_streamHealthy c \<and> \<not> c_shuttingDown c then scheduleReconnect c else c)))"

section \<open>Draining the log\<close>

definition drainDone :: "'e client \<Rightarrow> 'e client" where
  "drainDone c = c\<lparr>c_draining := False\<rparr>"

text \<open>The head of the \<open>for (;;)\<close> loop, and the head of the loop over one listing.\<close>

definition drainHead :: "'e client \<Rightarrow> 'e client" where
  "drainHead c =
     (if \<not> c_streamHealthy c \<or> c_stream c = None then drainDone c
      else (case c_wal c of None \<Rightarrow> drainDone c | Some i \<Rightarrow> add_task (DrainList i) c))"

definition drainEntries :: "'e wal_entry list \<Rightarrow> 'e client \<Rightarrow> 'e client" where
  "drainEntries es c =
     (case es of
        [] \<Rightarrow> drainHead c
      | e # rest \<Rightarrow>
          (case (c_streamHealthy c, c_stream c) of
             (True, Some s) \<Rightarrow>
               sendOverStream s (entry_batchId e) (entry_events e) (DrainSending s e rest) c
           | _ \<Rightarrow> drainDone c))"

definition drainWAL :: "'e client \<Rightarrow> 'e client" where
  "drainWAL c =
     (if c_wal c = None \<or> c_draining c then c else drainHead (c\<lparr>c_draining := True\<rparr>))"

definition drainListed :: "'e decoder \<Rightarrow> nat \<Rightarrow> 'e client \<Rightarrow> 'e client" where
  "drainListed dec i c =
     (case wal_list dec (c_wals c ! i) (c_fs c) of
        Inl e \<Rightarrow> drainDone (c\<lparr>c_unhandled := c_unhandled c @ [e]\<rparr>)
      | Inr [] \<Rightarrow> drainDone c
      | Inr es \<Rightarrow> drainEntries es c)"

definition drainRemove :: "io_error option \<Rightarrow> 'e wal_entry \<Rightarrow> 'e wal_entry list \<Rightarrow> 'e client \<Rightarrow> 'e client" where
  "drainRemove fault e rest c =
     (case c_wal c of
        None \<Rightarrow> drainDone c
      | Some i \<Rightarrow>
          (case wal_remove fault e (c_wals c ! i, c_fs c) of
             (r, w, f) \<Rightarrow>
               (let c = c\<lparr>c_wals := (c_wals c)[i := w], c_fs := f\<rparr>
                in case r of
                     Inr _ \<Rightarrow> drainEntries rest c
                   | Inl err \<Rightarrow> drainDone (markStreamFailed (wal_rpc_error err) c))))"

definition drainRejected :: "rpc_error \<Rightarrow> 'e client \<Rightarrow> 'e client" where
  "drainRejected err c = drainDone (markStreamFailed err c)"

text \<open>After a successful reconnect handshake.\<close>

definition reconnected :: "'e client \<Rightarrow> 'e client" where
  "reconnected c = drainWAL (c\<lparr>c_streamHealthy := True, c_reconnectAttempt := 0\<rparr>)"

section \<open>Opening and closing a session\<close>

definition openSession :: "open_params \<Rightarrow> after_open \<Rightarrow> 'e client \<Rightarrow> 'e client" where
  "openSession p k c = add_task (StartRpc p k) c"

text \<open>
  The directory of the log when none is configured depends on the host and the process; the operations below have it as the
  parameter \<open>tmp\<close>.
\<close>

definition defaultWalDir :: "string \<Rightarrow> nat \<Rightarrow> string" where
  "defaultWalDir tmpdir pid = tmpdir @ ''/clearvoiance-wal/pid-'' @ nat_to_string pid"

definition sessionStarted :: "string \<Rightarrow> string \<Rightarrow> after_open \<Rightarrow> 'e client \<Rightarrow> 'e client" where
  "sessionStarted tmp sid k c =
     (if \<not> cfg_walDisabled (c_config c)
      then (let dir = (case cfg_walDir (c_config c) of None \<Rightarrow> tmp | Some d \<Rightarrow> d);
                i = length (c_wals c);
                c = c\<lparr>c_wals := c_wals c @ [wal_new dir sid (cfg_walMaxBytes (c_config c))],
                      c_wal := Some i\<rparr>
            in add_task (WalInit i sid k) c)
      else openStream sid (\<lambda>s. OpenHandshake s sid k) c)"

definition openFailed :: "rpc_error \<Rightarrow> after_open \<Rightarrow> 'e client \<Rightarrow> 'e client" where
  "openFailed err k c =
     (case k of
        OpenForStart \<Rightarrow> c\<lparr>c_starts := c_starts c @ [Inl err]\<rparr>
      | OpenForCommand \<Rightarrow> c)"

definition walInit :: "'e decoder \<Rightarrow> disk \<Rightarrow> nat \<Rightarrow> string \<Rightarrow> after_open \<Rightarrow> 'e client \<Rightarrow> 'e client" where
  "walInit dec disk i sid k c =
     (case wal_init dec disk (c_wals c ! i, c_fs c) of
        (r, w, f) \<Rightarrow>
          (let c = c\<lparr>c_wals := (c_wals c)[i := w], c_fs := f\<rparr>
           in case r of
                Inl e \<Rightarrow> openFailed (wal_rpc_error e) k c
              | Inr _ \<Rightarrow> openStream sid (\<lambda>s. OpenHandshake s sid k) c))"

record handshake_ack =
  ack_maxBatchSize :: int
  ack_maxEventsPerSecond :: int
  ack_recommendedFlushIntervalMs :: int

definition sessionOpened :: "handshake_ack \<Rightarrow> string \<Rightarrow> after_open \<Rightarrow> 'e client \<Rightarrow> 'e client" where
  "sessionOpened a sid k c =
     (let h = \<lparr>session_id = sid, maxBatchSize = ack_maxBatchSize a,
               maxEventsPerSecond = ack_maxEventsPerSecond a,
               recommendedFlushIntervalMs = ack_recommendedFlushIntervalMs a\<rparr>;
          c = c\<lparr>c_session := Some h, c_streamHealthy := True, c_loggedDropWhileIdle := False\<rparr>
      in case k of
           OpenForStart \<Rightarrow> c\<lparr>c_starts := c_starts c @ [Inr h]\<rparr>
         | OpenForCommand \<Rightarrow> c)"

text \<open>\<open>closeSession\<close> after the flush: end the stream and ask the engine to stop the session.\<close>

definition closeStreams :: "string \<Rightarrow> after_close \<Rightarrow> 'e client \<Rightarrow> 'e client" where
  "closeStreams sid k c =
     (let c = (case c_stream c of
                 None \<Rightarrow> c
               | Some s \<Rightarrow> c\<lparr>c_ended := c_ended c @ [s], c_stream := None\<rparr>)
      in add_task (StopRpc sid k) (c\<lparr>c_streamHealthy := False\<rparr>))"

definition openForCommand :: "start_command \<Rightarrow> 'e client \<Rightarrow> 'e client" where
  "openForCommand cmd c =
     openSession
       \<lparr>open_name = (if start_sessionName cmd \<noteq> [] then start_sessionName cmd
                     else if cfg_sessionName (c_config c) \<noteq> [] then cfg_sessionName (c_config c)
                     else start_sessionId cmd),
        open_labels = (case start_sessionLabels cmd of None \<Rightarrow> [] | Some l \<Rightarrow> l),
        open_preferredId = start_sessionId cmd\<rparr> OpenForCommand c"

text \<open>What the caller of \<open>closeSession\<close> does with its result.\<close>

definition closeReturns :: "rpc_error + stop_result \<Rightarrow> after_close \<Rightarrow> 'e client \<Rightarrow> 'e client" where
  "closeReturns r k c =
     (case k of
        CloseForStop \<Rightarrow>
          (case r of
             Inl e \<Rightarrow> c\<lparr>c_stops := c_stops c @ [Inl e]\<rparr>
           | Inr res \<Rightarrow> c\<lparr>c_closed := True, c_stops := c_stops c @ [Inr res]\<rparr>)
      | CloseForCommand \<Rightarrow> c
      | CloseThenOpen cmd \<Rightarrow> openForCommand cmd c)"

definition closeSession :: "nat \<Rightarrow> after_close \<Rightarrow> 'e client \<Rightarrow> 'e client" where
  "closeSession flushTimeoutMs k c =
     (case c_session c of
        None \<Rightarrow> closeReturns (Inr zero_stop) k c
      | Some h \<Rightarrow>
          if c_inflight c \<noteq> []
          then add_task (CloseFlush (session_id h) (c_inflight c) flushTimeoutMs k) c
          else closeStreams (session_id h) k c)"

definition stopReturned :: "rpc_error + stop_result \<Rightarrow> after_close \<Rightarrow> 'e client \<Rightarrow> 'e client" where
  "stopReturned resp k c =
     (case resp of
        Inr res \<Rightarrow> closeReturns (Inr res) k (c\<lparr>c_session := None\<rparr>)
      | Inl e \<Rightarrow>
          if is_remote c then closeReturns (Inr zero_stop) k (c\<lparr>c_session := None\<rparr>)
          else closeReturns (Inl e) k c)"

section \<open>Remote control\<close>

definition openControlStream :: "'e client \<Rightarrow> 'e client" where
  "openControlStream c =
     (if c_controlStream c \<noteq> None \<or> c_shuttingDown c \<or> \<not> is_remote c then c
      else c\<lparr>c_controlStream := Some (c_controlStreams c),
             c_controlStreams := Suc (c_controlStreams c), c_controlReconnectAttempt := 0\<rparr>)"

definition scheduleControlReconnect :: "'e client \<Rightarrow> 'e client" where
  "scheduleControlReconnect c =
     (if c_controlReconnectTimer c \<noteq> None \<or> c_shuttingDown c \<or> \<not> is_remote c then c
      else c\<lparr>c_controlReconnectTimer := Some (backoff_delay (c_config c) (c_controlReconnectAttempt c))\<rparr>)"

definition clearControlReconnect :: "'e client \<Rightarrow> 'e client" where
  "clearControlReconnect c = c\<lparr>c_controlReconnectTimer := None\<rparr>"

definition closeControlStream :: "'e client \<Rightarrow> 'e client" where
  "closeControlStream c = c\<lparr>c_controlStream := None\<rparr>"

text \<open>The \<open>error\<close> and \<open>end\<close> listeners of a control stream do the same to the state.\<close>

definition controlStreamLost :: "'e client \<Rightarrow> 'e client" where
  "controlStreamLost c =
     (if c_shuttingDown c then c else scheduleControlReconnect (c\<lparr>c_controlStream := None\<rparr>))"

definition controlTimerFires :: "'e client \<Rightarrow> 'e client" where
  "controlTimerFires c =
     openControlStream
       (c\<lparr>c_controlReconnectTimer := None,
          c_controlReconnectAttempt := c_controlReconnectAttempt c + 1\<rparr>)"

definition handleSubscribeResponse :: "command \<Rightarrow> 'e client \<Rightarrow> 'e client" where
  "handleSubscribeResponse cmd c =
     (case cmd of
        StartCapture start \<Rightarrow>
          if map_option session_id (c_session c) = Some (start_sessionId start) then c
          else if c_session c \<noteq> None then closeSession 5000 (CloseThenOpen start) c
          else openForCommand start c
      | StopCapture sid flushTimeoutMs \<Rightarrow>
          if map_option session_id (c_session c) \<noteq> Some sid then c
          else closeSession (if flushTimeoutMs = 0 then 10000 else flushTimeoutMs) CloseForCommand c
      | Ping \<Rightarrow> c)"

section \<open>The public interface\<close>

definition start_client :: "'e client \<Rightarrow> 'e client" where
  "start_client c =
     (if is_remote c then openControlStream c
      else case c_session c of
             Some h \<Rightarrow> c\<lparr>c_starts := c_starts c @ [Inr h]\<rparr>
           | None \<Rightarrow>
               openSession
                 \<lparr>open_name = cfg_sessionName (c_config c),
                  open_labels = (case cfg_sessionLabels (c_config c) of None \<Rightarrow> [] | Some l \<Rightarrow> l),
                  open_preferredId = ''''\<rparr> OpenForStart c)"

definition stop_client :: "nat option \<Rightarrow> 'e client \<Rightarrow> 'e client" where
  "stop_client flushTimeoutMs c =
     (let c = closeControlStream (clearControlReconnect (clearReconnect (c\<lparr>c_shuttingDown := True\<rparr>)))
      in if c_session c \<noteq> None
         then closeSession (case flushTimeoutMs of None \<Rightarrow> 2000 | Some n \<Rightarrow> n) CloseForStop c
         else c\<lparr>c_closed := True, c_stops := c_stops c @ [Inr zero_stop]\<rparr>)"

text \<open>\<open>track\<close>: the promise is in flight until it settles.\<close>

definition track :: "promise \<Rightarrow> 'e client \<Rightarrow> 'e client" where
  "track p c = c\<lparr>c_inflight := c_inflight c @ [p]\<rparr>"

definition untrack :: "promise \<Rightarrow> 'e client \<Rightarrow> 'e client" where
  "untrack p c = c\<lparr>c_inflight := remove1 p (c_inflight c)\<rparr>"

end
