(* ===== verification/Client_Steps.thy ===== *)
theory Client_Steps
  imports Client
begin

text \<open>
  The client as a transition system: what an acknowledgement and a stream error do to the pending
  work, one rule per thing the environment can do next, and the invariants of every reachable
  state. The disk may refuse to delete a file, but says that a file is not there only when it is
  not. A rule may fire whenever its task is pending, so every order in which the JavaScript
  event loop could run the continuations is covered.
\<close>

section \<open>Events on a stream\<close>

text \<open>A batch acknowledgement resolves the sends that wait for this id on this very stream.\<close>

fun ack_task :: "nat \<Rightarrow> nat \<Rightarrow> 'e task \<Rightarrow> 'e task list" where
  "ack_task s b (SendWaiting s' b' evs) = (if s' = s \<and> b' = b then [] else [SendWaiting s' b' evs])"
| "ack_task s b (DrainSending s' e rest) =
     (if s' = s \<and> entry_batchId e = b then [DrainRemoving e rest] else [DrainSending s' e rest])"
| "ack_task s b t = [t]"

fun acked_by :: "nat \<Rightarrow> nat \<Rightarrow> 'e task \<Rightarrow> (nat \<times> 'e list) list" where
  "acked_by s b (SendWaiting s' b' evs) = (if s' = s \<and> b' = b then [(b', evs)] else [])"
| "acked_by s b (DrainSending s' e rest) =
     (if s' = s \<and> entry_batchId e = b then [(b, entry_events e)] else [])"
| "acked_by s b t = []"

fun resolved_by :: "nat \<Rightarrow> nat \<Rightarrow> 'e task \<Rightarrow> nat list" where
  "resolved_by s b (SendWaiting s' b' evs) = (if s' = s \<and> b' = b then [b'] else [])"
| "resolved_by s b t = []"

definition onBatchAck :: "nat \<Rightarrow> nat \<Rightarrow> 'e client \<Rightarrow> 'e client" where
  "onBatchAck s b c =
     (let done = concat (map (resolved_by s b) (c_tasks c))
      in c\<lparr>c_tasks := concat (map (ack_task s b) (c_tasks c)),
           c_acked := c_acked c @ concat (map (acked_by s b) (c_tasks c)),
           c_results := c_results c @ map (\<lambda>b. (b, Resolved)) done,
           c_inflight := filter (\<lambda>p. p \<notin> SendPromise ` set done) (c_inflight c)\<rparr>)"

text \<open>
  An \<open>error\<close> event: first the listener \<open>openStream\<close> put there for good, then the rejections of
  everything that waits on this stream.
\<close>

fun reject_task :: "nat \<Rightarrow> rpc_error \<Rightarrow> 'e task \<Rightarrow> 'e task" where
  "reject_task s err (SendWaiting s' b evs) =
     (if s' = s then SendRejected err b evs else SendWaiting s' b evs)"
| "reject_task s err (DrainSending s' e rest) =
     (if s' = s then DrainRejected err else DrainSending s' e rest)"
| "reject_task s err (ReconnectHandshake s') =
     (if s' = s then ReconnectFailed err else ReconnectHandshake s')"
| "reject_task s err (OpenHandshake s' sid k) =
     (if s' = s then OpenFailed err k else OpenHandshake s' sid k)"
| "reject_task s err t = t"

fun rejected_by :: "nat \<Rightarrow> 'e task \<Rightarrow> nat list" where
  "rejected_by s (SendWaiting s' b evs) = (if s' = s then [b] else [])"
| "rejected_by s t = []"

definition onStreamError :: "nat \<Rightarrow> rpc_error \<Rightarrow> 'e client \<Rightarrow> 'e client" where
  "onStreamError s err c =
     (let c = markStreamFailed err c;
          gone = concat (map (rejected_by s) (c_tasks c))
      in c\<lparr>c_tasks := map (reject_task s err) (c_tasks c),
           c_inflight := filter (\<lambda>p. p \<notin> SendPromise ` set gone) (c_inflight c)\<rparr>)"

section \<open>Steps\<close>

abbreviation without :: "'e task list \<Rightarrow> 'e task list \<Rightarrow> 'e client \<Rightarrow> 'e client" where
  "without xs ys c \<equiv> c\<lparr>c_tasks := xs @ ys\<rparr>"

inductive client_step :: "'e encoder \<Rightarrow> 'e decoder \<Rightarrow> string \<Rightarrow> 'e client \<Rightarrow> 'e client \<Rightarrow> bool"
  for enc dec tmp where
  call_start: "client_step enc dec tmp c (start_client c)"
| call_sendBatch: "client_step enc dec tmp c (sendBatch evs c)"
| call_stop: "client_step enc dec tmp c (stop_client t c)"
| call_track: "client_step enc dec tmp c (track (TrackedTask n) c)"
| tracked_settles: "client_step enc dec tmp c (untrack (TrackedTask n) c)"
| batch_ack: "(s, Batch b evs) \<in> set (c_written c) \<Longrightarrow> client_step enc dec tmp c (onBatchAck s b c)"
| stream_error: "s < c_streams c \<Longrightarrow> client_step enc dec tmp c (onStreamError s err c)"
| reconnect_timer: "c_reconnectTimer c = Some d \<Longrightarrow> client_step enc dec tmp c (reconnectTimerFires c)"
| control_command: "client_step enc dec tmp c (handleSubscribeResponse cmd c)"
| control_lost: "client_step enc dec tmp c (controlStreamLost c)"
| control_timer: "c_controlReconnectTimer c = Some d \<Longrightarrow> client_step enc dec tmp c (controlTimerFires c)"
| run_SendRejected: "c_tasks c = xs @ SendRejected err b evs # ys \<Longrightarrow>
    client_step enc dec tmp c (sendRejected err b evs (without xs ys c))"
| run_PersistStart: "c_tasks c = xs @ PersistStart wal b evs # ys \<Longrightarrow>
    client_step enc dec tmp c (persistToWAL enc dec disk wal b evs (without xs ys c))"
| run_PersistWriting: "c_tasks c = xs @ PersistWriting i b evs bs # ys \<Longrightarrow>
    client_step enc dec tmp c (persistWritten disk i b bs (without xs ys c))"
| run_ReconnectHandshake: "c_tasks c = xs @ ReconnectHandshake s # ys \<Longrightarrow>
    client_step enc dec tmp c (reconnected (without xs ys c))"
| run_ReconnectFailed: "c_tasks c = xs @ ReconnectFailed err # ys \<Longrightarrow>
    client_step enc dec tmp c (reconnectFailed err (without xs ys c))"
| run_DrainList: "c_tasks c = xs @ DrainList i # ys \<Longrightarrow>
    client_step enc dec tmp c (drainListed dec i (without xs ys c))"
| run_DrainRejected: "c_tasks c = xs @ DrainRejected err # ys \<Longrightarrow>
    client_step enc dec tmp c (drainRejected err (without xs ys c))"
| run_DrainRemoving: "c_tasks c = xs @ DrainRemoving e rest # ys \<Longrightarrow> fault \<noteq> Some ENOENT \<Longrightarrow>
    client_step enc dec tmp c (drainRemove fault e rest (without xs ys c))"
| run_StartRpc: "c_tasks c = xs @ StartRpc p k # ys \<Longrightarrow>
    client_step enc dec tmp c (sessionStarted tmp sid k (without xs ys c))"
| run_StartRpc_fails: "c_tasks c = xs @ StartRpc p k # ys \<Longrightarrow>
    client_step enc dec tmp c (openFailed err k (without xs ys c))"
| run_WalInit: "c_tasks c = xs @ WalInit i sid k # ys \<Longrightarrow>
    client_step enc dec tmp c (walInit dec disk i sid k (without xs ys c))"
| run_OpenHandshake: "c_tasks c = xs @ OpenHandshake s sid k # ys \<Longrightarrow>
    client_step enc dec tmp c (sessionOpened a sid k (without xs ys c))"
| run_OpenFailed: "c_tasks c = xs @ OpenFailed err k # ys \<Longrightarrow>
    client_step enc dec tmp c (openFailed err k (without xs ys c))"
| run_CloseFlush_settled: "c_tasks c = xs @ CloseFlush sid ps t k # ys \<Longrightarrow>
    set ps \<inter> set (c_inflight c) = {} \<Longrightarrow>
    client_step enc dec tmp c (closeStreams sid k (without xs ys c))"
| run_CloseFlush_timeout: "c_tasks c = xs @ CloseFlush sid ps t k # ys \<Longrightarrow>
    client_step enc dec tmp c (closeStreams sid k (without xs ys c))"
| run_StopRpc: "c_tasks c = xs @ StopRpc sid k # ys \<Longrightarrow>
    client_step enc dec tmp c (stopReturned resp k (without xs ys c))"

text \<open>The reachable states of a client that starts on the file system \<open>f\<close>, whatever it holds.\<close>

inductive reachable :: "'e encoder \<Rightarrow> 'e decoder \<Rightarrow> string \<Rightarrow> client_config \<Rightarrow> fs \<Rightarrow> 'e client \<Rightarrow> bool"
  for enc dec tmp cfg f where
  reach_init: "reachable enc dec tmp cfg f (new_client cfg f)"
| reach_step: "reachable enc dec tmp cfg f c \<Longrightarrow> client_step enc dec tmp c c' \<Longrightarrow>
    reachable enc dec tmp cfg f c'"

section \<open>The batch invariant\<close>

text \<open>The batch a task is responsible for, and what is known of a pending task.\<close>

fun task_batch :: "'e task \<Rightarrow> nat list" where
  "task_batch (SendWaiting s b evs) = [b]"
| "task_batch (SendRejected err b evs) = [b]"
| "task_batch (PersistStart wal b evs) = [b]"
| "task_batch (PersistWriting i b evs bs) = [b]"
| "task_batch t = []"

text \<open>
  Ids are counted from 1 in every client, so a log that an earlier process left behind may hold
  files under ids this client will use: \<open>log_ids f\<close> are the ids that a listing can read off the file names of \<open>f\<close>.
  What is said below of a batch holds for ids outside the set \<open>old\<close> of those found at the start.
\<close>

definition names_batch :: "string \<Rightarrow> nat \<Rightarrow> bool" where
  "names_batch p b \<longleftrightarrow> (\<exists>d n. p = path_join d n \<and> CHR ''/'' \<notin> set n \<and> endsWith n ''.pb'' \<and>
     parseBatchId (take (length n - 3) n) = Some b)"

definition log_ids :: "fs \<Rightarrow> nat set" where
  "log_ids f = {b. \<exists>p \<in> set (dict_keys (fs_files f)). names_batch p b}"

definition entry_ok :: "nat set \<Rightarrow> (nat \<times> 'e list) list \<Rightarrow> 'e wal_entry \<Rightarrow> bool" where
  "entry_ok old S e \<longleftrightarrow> (\<forall>d b. entry_filePath e = batch_path d b \<longrightarrow> b = entry_batchId e) \<and>
     (entry_batchId e \<in> old \<or> (entry_batchId e, entry_events e) \<in> set S)"

fun task_ok :: "'e encoder \<Rightarrow> nat set \<Rightarrow> (nat \<times> 'e list) list \<Rightarrow> (nat \<times> 'e list) list \<Rightarrow> 'e task \<Rightarrow> bool" where
  "task_ok enc old S A (SendWaiting s b evs) \<longleftrightarrow> (b, evs) \<in> set S"
| "task_ok enc old S A (SendRejected err b evs) \<longleftrightarrow> (b, evs) \<in> set S"
| "task_ok enc old S A (PersistStart wal b evs) \<longleftrightarrow> (b, evs) \<in> set S"
| "task_ok enc old S A (PersistWriting i b evs bs) \<longleftrightarrow> (b, evs) \<in> set S \<and> bs = enc evs b"
| "task_ok enc old S A (DrainSending s e rest) \<longleftrightarrow> (\<forall>x \<in> set (e # rest). entry_ok old S x)"
| "task_ok enc old S A (DrainRemoving e rest) \<longleftrightarrow> (\<forall>x \<in> set (e # rest). entry_ok old S x) \<and>
     (entry_batchId e, entry_events e) \<in> set A"
| "task_ok enc old S A t \<longleftrightarrow> True"

text \<open>Every complete log file is the file of a batch this client accepted, or is named after an old id.\<close>

definition files_ok :: "'e encoder \<Rightarrow> nat set \<Rightarrow> (nat \<times> 'e list) list \<Rightarrow> fs \<Rightarrow> bool" where
  "files_ok enc old S f \<longleftrightarrow> (\<forall>p bs. dict_get (fs_files f) p = Some bs \<longrightarrow>
     (\<exists>d b evs. p = batch_path d b \<and> bs = enc evs b \<and> (b, evs) \<in> set S) \<or> (\<exists>q. p = q @ ''.tmp'') \<or>
     (\<forall>b. names_batch p b \<longrightarrow> b \<in> old))"

definition on_disk :: "'e encoder \<Rightarrow> fs \<Rightarrow> nat \<Rightarrow> 'e list \<Rightarrow> bool" where
  "on_disk enc f b evs \<longleftrightarrow> (\<exists>d. dict_get (fs_files f) (batch_path d b) = Some (enc evs b))"

definition safe_batch :: "'e encoder \<Rightarrow> 'e client \<Rightarrow> nat \<Rightarrow> bool" where
  "safe_batch enc c b \<longleftrightarrow> (\<exists>evs. (b, evs) \<in> set (c_submitted c) \<and>
     ((b, evs) \<in> set (c_acked c) \<or> on_disk enc (c_fs c) b evs))"

text \<open>
  The invariant, with the ids of the batches that are \<open>in hand\<close> (taken from a task that is being
  run and not yet given to another one).
\<close>

definition batches_ok :: "'e encoder \<Rightarrow> nat set \<Rightarrow> nat list \<Rightarrow> 'e client \<Rightarrow> bool" where
  "batches_ok enc old hand c \<longleftrightarrow>
     distinct (map fst (c_submitted c)) \<and>
     (\<forall>b \<in> fst ` set (c_submitted c). b < c_nextBatchId c) \<and>
     mset (concat (map task_batch (c_tasks c))) + mset hand + mset (map fst (c_results c)) =
       mset (map fst (c_submitted c)) \<and>
     (\<forall>t \<in> set (c_tasks c). task_ok enc old (c_submitted c) (c_acked c) t) \<and>
     files_ok enc old (c_submitted c) (c_fs c) \<and>
     (\<forall>b. (b, Resolved) \<in> set (c_results c) \<longrightarrow> b \<notin> old \<longrightarrow> safe_batch enc c b)"

text \<open>The part of the state the invariant reads.\<close>

definition core :: "'e client \<Rightarrow> _" where
  "core c = (c_submitted c, c_nextBatchId c, c_tasks c, c_acked c, c_results c, c_fs c)"

lemma batches_ok_core: "core c' = core c \<Longrightarrow> batches_ok enc old h c' \<longleftrightarrow> batches_ok enc old h c"
  by (simp add: core_def batches_ok_def safe_batch_def)

named_theorems core_frame \<open>functions that leave the batch bookkeeping alone\<close>

lemma core_scheduleReconnect [core_frame]: "core (scheduleReconnect c) = core c"
  by (simp add: core_def scheduleReconnect_def)

lemma core_clearReconnect [core_frame]: "core (clearReconnect c) = core c"
  by (simp add: core_def clearReconnect_def)

lemma core_markStreamFailed [core_frame]: "core (markStreamFailed err c) = core c"
  by (simp add: core_def markStreamFailed_def scheduleReconnect_def clearReconnect_def Let_def)

lemma core_reconnectFailed [core_frame]: "core (reconnectFailed err c) = core c"
  by (simp add: core_def reconnectFailed_def scheduleReconnect_def clearReconnect_def)

lemma core_drainDone [core_frame]: "core (drainDone c) = core c"
  by (simp add: core_def drainDone_def)

lemma core_openControlStream [core_frame]: "core (openControlStream c) = core c"
  by (simp add: core_def openControlStream_def)

lemma core_controlStreamLost [core_frame]: "core (controlStreamLost c) = core c"
  by (simp add: core_def controlStreamLost_def scheduleControlReconnect_def)

lemma core_controlTimerFires [core_frame]: "core (controlTimerFires c) = core c"
  by (simp add: core_def controlTimerFires_def openControlStream_def)

lemma core_openFailed [core_frame]: "core (openFailed err k c) = core c"
  by (simp add: core_def openFailed_def split: after_open.splits)

lemma core_sessionOpened [core_frame]: "core (sessionOpened a sid k c) = core c"
  by (simp add: core_def sessionOpened_def Let_def split: after_open.splits)

lemma core_write_stream [core_frame]: "core (write_stream s m c) = core c"
  by (simp add: core_def write_stream_def)

lemma core_track [core_frame]: "core (track p c) = core c" "core (untrack p c) = core c"
  by (simp_all add: core_def track_def untrack_def)

lemmas batches_ok_frame = core_frame [THEN batches_ok_core]

text \<open>The moves of the bookkeeping: take a task, add one, settle a batch, touch the disk.\<close>

lemma batches_ok_take:
  assumes "batches_ok enc old [] c" "c_tasks c = xs @ t # ys"
  shows "batches_ok enc old (task_batch t) (without xs ys c)"
    and "task_ok enc old (c_submitted c) (c_acked c) t"
  using assms by (auto simp: batches_ok_def safe_batch_def ac_simps)

lemma batches_ok_add:
  assumes "batches_ok enc old (task_batch t) c" "task_ok enc old (c_submitted c) (c_acked c) t"
  shows "batches_ok enc old [] (add_task t c)"
  using assms by (auto simp: batches_ok_def safe_batch_def add_task_def ac_simps)

lemma batches_ok_add_idle:
  assumes "batches_ok enc old h c" "task_ok enc old (c_submitted c) (c_acked c) t" "task_batch t = []"
  shows "batches_ok enc old h (add_task t c)"
  using assms by (auto simp: batches_ok_def safe_batch_def add_task_def)

lemma batches_ok_settle:
  assumes "batches_ok enc old [b] c" "r = Resolved \<Longrightarrow> b \<notin> old \<Longrightarrow> safe_batch enc c b"
  shows "batches_ok enc old [] (settle b r c)"
  using assms by (auto simp: batches_ok_def safe_batch_def settle_def)

lemma batches_ok_fs:
  assumes "batches_ok enc old h c" "files_ok enc old (c_submitted c) f"
    and "\<And>b evs. b \<notin> old \<Longrightarrow> (b, evs) \<in> set (c_submitted c) \<Longrightarrow> on_disk enc (c_fs c) b evs \<Longrightarrow>
      (b, evs) \<in> set (c_acked c) \<or> on_disk enc f b evs"
  shows "batches_ok enc old h (c\<lparr>c_wals := ws, c_fs := f\<rparr>)"
  using assms unfolding batches_ok_def safe_batch_def by simp blast

lemma submitted_unique:
  assumes "batches_ok enc old h c" "(b, x) \<in> set (c_submitted c)" "(b, y) \<in> set (c_submitted c)"
  shows "x = y"
  using assms by (auto simp: batches_ok_def dest: eq_key_imp_eq_value)

section \<open>The disk under the invariant\<close>

lemma path_join_inject2:
  assumes "path_join d n = path_join d' m" "CHR ''/'' \<notin> set n" "CHR ''/'' \<notin> set m"
  shows "d = d' \<and> n = m"
proof -
  have br: "break_at (CHR ''/'') (rev (path_join x k)) = Some (rev k, rev x)" if "CHR ''/'' \<notin> set k" for x k
    using break_at_append [of "CHR ''/''" "rev k" "rev x"] that by (simp add: path_join_def)
  have "Some (rev n, rev d) = Some (rev m, rev d')"
    using br [OF assms(2), of d] br [OF assms(3), of d'] by (simp only: assms(1))
  then show ?thesis by simp
qed

lemma slash_notin_pb: "CHR ''/'' \<notin> set (formatBatchId n @ ''.pb'')"
  using slash_notin_format [of n] by simp

lemma batch_path_inject2: "batch_path d a = batch_path d' b \<longleftrightarrow> d = d' \<and> a = b"
  using path_join_inject2 [OF _ slash_notin_pb slash_notin_pb, of d a d' b]
  by (auto simp: batch_path_def)

lemma on_disk_same_files: "fs_files f' = fs_files f \<Longrightarrow> on_disk enc f' b evs = on_disk enc f b evs"
  by (simp add: on_disk_def)

lemma files_ok_same_files: "fs_files f' = fs_files f \<Longrightarrow> files_ok enc old S f' = files_ok enc old S f"
  by (simp add: files_ok_def)

lemma files_ok_mono: "files_ok enc old S f \<Longrightarrow> set S \<subseteq> set S' \<Longrightarrow> files_ok enc old S' f"
  unfolding files_ok_def by blast

lemma wal_init_files: "wal_init dec disk (w, f) = (r, w', f') \<Longrightarrow> fs_files f' = fs_files f"
  by (auto simp: wal_init_def fs_mkdir_def Let_def split: if_splits disk.splits sum.splits)

lemma append_check_files:
  "append_check enc dec disk b evs (w, f) = (r, w', f') \<Longrightarrow> fs_files f' = fs_files f \<and>
     (\<forall>bs. r = Inr (Some bs) \<longrightarrow> bs = enc evs b)"
  by (cases "wal_init dec disk (w, f)")
    (auto simp: append_check_def Let_def split: sum.splits if_splits dest: wal_init_files)

lemma append_commit_cases:
  assumes "append_commit disk b bs (w, f) = (r, w', f')"
  obtains part e where "r = Inl e" "f' = fs_writeFile (batch_path (wal_sessionDir w) b @ ''.tmp'') part f"
  | x where "r = Inr x" "f' = fs_put (wal_sessionDir w) b bs f"
  using assms
  by (cases disk) (auto simp: append_commit_def Let_def fs_rename_def fs_writeFile_def fs_put_def)

text \<open>
  What is on disk stays there: under a write to a temporary file, under the file of a batch, and when the file of
  an acknowledged batch is deleted.
\<close>

lemma on_disk_write_tmp:
  assumes "on_disk enc f b evs"
  shows "on_disk enc (fs_writeFile (p @ ''.tmp'') part f) b evs"
proof -
  have "batch_path d b \<noteq> p @ ''.tmp''" for d b
    by (metis append.assoc batch_path_def endsWith_append endsWith_tmp_pb path_join_def)
  with assms show ?thesis by (auto simp: on_disk_def fs_writeFile_def)
qed

lemma on_disk_fs_put:
  assumes ok: "batches_ok enc old h c" and sub: "(b, evs) \<in> set (c_submitted c)" "(b', x) \<in> set (c_submitted c)"
    and "on_disk enc (c_fs c) b' x"
  shows "on_disk enc (fs_put d b (enc evs b) (c_fs c)) b' x"
proof -
  from assms(4) obtain d' where d': "dict_get (fs_files (c_fs c)) (batch_path d' b') = Some (enc x b')"
    unfolding on_disk_def by blast
  have "b' = b \<Longrightarrow> x = evs" using sub submitted_unique [OF ok] by blast
  with d' have "dict_get (fs_files (fs_put d b (enc evs b) (c_fs c))) (batch_path d' b') = Some (enc x b')"
    by (auto simp only: dict_get_fs_put batch_path_inject2 batch_path_not_tmp split: if_splits)
  then show ?thesis unfolding on_disk_def by blast
qed

lemma unlinked_get:
  assumes "f' = f \<or> fs_unlink q f = Inr f'"
  shows "dict_get (fs_files f') p = dict_get (fs_files f) p \<or> p = q \<and> dict_get (fs_files f') p = None"
  using assms by (cases "p = q") (auto simp: fs_unlink_files)

lemma on_disk_unlink:
  assumes ok: "batches_ok enc old h c" and e: "entry_ok old (c_submitted c) e"
    and acked: "(entry_batchId e, entry_events e) \<in> set (c_acked c)"
    and f: "f' = c_fs c \<or> fs_unlink (entry_filePath e) (c_fs c) = Inr f'"
    and new: "b \<notin> old" and sub: "(b, x) \<in> set (c_submitted c)" and disk: "on_disk enc (c_fs c) b x"
  shows "(b, x) \<in> set (c_acked c) \<or> on_disk enc f' b x"
proof -
  from disk obtain d where d: "dict_get (fs_files (c_fs c)) (batch_path d b) = Some (enc x b)"
    by (auto simp: on_disk_def)
  show ?thesis
  proof (cases "batch_path d b = entry_filePath e")
    case True
    with e have b: "b = entry_batchId e" unfolding entry_ok_def by metis
    with e new have "(b, entry_events e) \<in> set (c_submitted c)" by (simp add: entry_ok_def)
    with sub have "x = entry_events e" by (rule submitted_unique [OF ok])
    with acked b show ?thesis by simp
  next
    case False
    with d unlinked_get [OF f] have "dict_get (fs_files f') (batch_path d b) = Some (enc x b)" by metis
    then show ?thesis by (auto simp: on_disk_def)
  qed
qed

lemma batches_ok_write_tmp:
  assumes "batches_ok enc old h c"
  shows "batches_ok enc old h (c\<lparr>c_wals := ws, c_fs := fs_writeFile (p @ ''.tmp'') part (c_fs c)\<rparr>)"
proof (rule batches_ok_fs [OF assms])
  show "files_ok enc old (c_submitted c) (fs_writeFile (p @ ''.tmp'') part (c_fs c))"
    using assms by (auto simp: batches_ok_def files_ok_def fs_writeFile_def)
qed (simp add: on_disk_write_tmp)

lemma batches_ok_put:
  assumes ok: "batches_ok enc old h c" and sub: "(b, evs) \<in> set (c_submitted c)"
  shows "batches_ok enc old h (c\<lparr>c_wals := ws, c_fs := fs_put d b (enc evs b) (c_fs c)\<rparr>)"
proof (rule batches_ok_fs [OF ok])
  show "files_ok enc old (c_submitted c) (fs_put d b (enc evs b) (c_fs c))"
    using ok sub by (auto simp: batches_ok_def files_ok_def dict_get_fs_put)
qed (simp add: on_disk_fs_put [OF ok sub])

lemma batches_ok_unlink:
  assumes ok: "batches_ok enc old h c" and e: "entry_ok old (c_submitted c) e"
    and acked: "(entry_batchId e, entry_events e) \<in> set (c_acked c)"
    and f: "f' = c_fs c \<or> fs_unlink (entry_filePath e) (c_fs c) = Inr f'"
  shows "batches_ok enc old h (c\<lparr>c_wals := ws, c_fs := f'\<rparr>)"
proof (rule batches_ok_fs [OF ok])
  have "dict_get (fs_files f') p = Some bs \<Longrightarrow> dict_get (fs_files (c_fs c)) p = Some bs" for p bs
    using unlinked_get [OF f, of p] by auto
  then show "files_ok enc old (c_submitted c) f'"
    using ok unfolding batches_ok_def files_ok_def by blast
qed (rule on_disk_unlink [OF assms])

lemma batches_ok_same_files:
  "batches_ok enc old h c \<Longrightarrow> fs_files f = fs_files (c_fs c) \<Longrightarrow>
   batches_ok enc old h (c\<lparr>c_wals := ws, c_fs := f\<rparr>)"
  by (rule batches_ok_fs) (simp_all add: batches_ok_def files_ok_def on_disk_def)

text \<open>What a listing returns under the invariant: accepted batches only.\<close>

lemma read_entries_mem:
  "read_entries dec d f xs = Inr es \<Longrightarrow> e \<in> set es \<Longrightarrow>
     \<exists>n bs k. (n, entry_batchId e) \<in> set xs \<and> entry_filePath e = path_join d n \<and>
       dict_get (fs_files f) (path_join d n) = Some bs \<and> dec bs = Some (entry_events e, k)"
proof (induction xs arbitrary: es)
  case (Cons x xs)
  obtain n b where x: "x = (n, b)" by (cases x)
  show ?case
  proof (cases "fs_readFile (path_join d n) f")
    case (Inr bs)
    with Cons.prems(1) x obtain evs k out where dec: "dec bs = Some (evs, k)"
      and out: "read_entries dec d f xs = Inr out"
      and es: "es = \<lparr>entry_batchId = b, entry_events = evs, entry_filePath = path_join d n,
        entry_sizeBytes = length bs\<rparr> # out"
      by (auto split: option.splits sum.splits)
    from Inr have "dict_get (fs_files f) (path_join d n) = Some bs"
      by (simp add: fs_readFile_def split: option.splits)
    with dec Cons.IH [OF out] Cons.prems(2) es x show ?thesis by fastforce
  qed (use Cons.prems(1) x in simp)
qed simp

lemma fs_readdir_no_slash: "fs_readdir d f = Inr ns \<Longrightarrow> n \<in> set ns \<Longrightarrow> CHR ''/'' \<notin> set n"
  by (auto simp: fs_readdir_def in_dir_def split: if_splits)

lemma names_batch_join:
  "names_batch (path_join d n) b \<longleftrightarrow> endsWith n ''.pb'' \<and> parseBatchId (take (length n - 3) n) = Some b"
  if "CHR ''/'' \<notin> set n"
  using that path_join_inject2 unfolding names_batch_def by blast

lemma wal_list_entry_ok:
  assumes files: "files_ok enc old S f" and codec: "codec_ok enc dec"
    and l: "wal_list dec w f = Inr es" and e: "e \<in> set es"
  shows "entry_ok old S e"
proof -
  let ?d = "wal_sessionDir w"
  from l e obtain names where names: "fs_readdir ?d f = Inr names"
    and rd: "read_entries dec ?d f (sort_key snd (wal_names names)) = Inr es"
    by (auto simp: wal_list_def split: sum.splits io_error.splits)
  from read_entries_mem [OF rd e] obtain n bs k where
    mem: "n \<in> set names" and n: "endsWith n ''.pb''" "parseBatchId (take (length n - 3) n) = Some (entry_batchId e)"
    and p: "entry_filePath e = path_join ?d n"
    and get: "dict_get (fs_files f) (path_join ?d n) = Some bs" and dec: "dec bs = Some (entry_events e, k)"
    by (auto simp: set_wal_names)
  note slash = fs_readdir_no_slash [OF names mem]
  have id: "b = entry_batchId e \<and> n = formatBatchId b @ ''.pb''" if "path_join ?d n = batch_path d b" for d b
  proof -
    have "n = formatBatchId b @ ''.pb''"
      using path_join_inject2 [OF that [unfolded batch_path_def] slash slash_notin_pb] by simp
    with n(2) show ?thesis by (simp add: parse_formatBatchId)
  qed
  from n(1) obtain t where "n = t @ ''.pb''" by (auto simp only: endsWith_iff)
  then have "endsWith (path_join ?d n) ''.pb''"
    using endsWith_append [of "?d @ ''/'' @ t" "''.pb''"] by (simp add: path_join_def)
  then have "path_join ?d n \<noteq> q @ ''.tmp''" for q
    using endsWith_tmp_pb [of q] by auto
  with files get consider d b evs where "path_join ?d n = batch_path d b" "bs = enc evs b" "(b, evs) \<in> set S"
    | "\<forall>b. names_batch (path_join ?d n) b \<longrightarrow> b \<in> old"
    unfolding files_ok_def by blast
  then have "entry_batchId e \<in> old \<or> (entry_batchId e, entry_events e) \<in> set S"
  proof cases
    case 1
    have "entry_events e = evs" using codec dec 1(2) by (simp add: codec_ok_def)
    with id [OF 1(1)] 1(3) show ?thesis by simp
  next
    case 2
    with n names_batch_join [OF slash, of ?d] show ?thesis by blast
  qed
  with id p show ?thesis by (auto simp: entry_ok_def)
qed

section \<open>Every method keeps the batch invariant\<close>

lemma batches_ok_update [simp]:
  "batches_ok enc old h (c\<lparr>c_session := x1\<rparr>) = batches_ok enc old h c"
  "batches_ok enc old h (c\<lparr>c_stream := x2\<rparr>) = batches_ok enc old h c"
  "batches_ok enc old h (c\<lparr>c_streamHealthy := x3\<rparr>) = batches_ok enc old h c"
  "batches_ok enc old h (c\<lparr>c_inflight := x4\<rparr>) = batches_ok enc old h c"
  "batches_ok enc old h (c\<lparr>c_wal := x5\<rparr>) = batches_ok enc old h c"
  "batches_ok enc old h (c\<lparr>c_wals := x6\<rparr>) = batches_ok enc old h c"
  "batches_ok enc old h (c\<lparr>c_reconnectTimer := x7\<rparr>) = batches_ok enc old h c"
  "batches_ok enc old h (c\<lparr>c_reconnectAttempt := x8\<rparr>) = batches_ok enc old h c"
  "batches_ok enc old h (c\<lparr>c_draining := x9\<rparr>) = batches_ok enc old h c"
  "batches_ok enc old h (c\<lparr>c_shuttingDown := x10\<rparr>) = batches_ok enc old h c"
  "batches_ok enc old h (c\<lparr>c_controlStream := x11\<rparr>) = batches_ok enc old h c"
  "batches_ok enc old h (c\<lparr>c_controlReconnectTimer := x12\<rparr>) = batches_ok enc old h c"
  "batches_ok enc old h (c\<lparr>c_closed := x13\<rparr>) = batches_ok enc old h c"
  "batches_ok enc old h (c\<lparr>c_streams := x14\<rparr>) = batches_ok enc old h c"
  "batches_ok enc old h (c\<lparr>c_ended := x15\<rparr>) = batches_ok enc old h c"
  "batches_ok enc old h (c\<lparr>c_starts := x16\<rparr>) = batches_ok enc old h c"
  "batches_ok enc old h (c\<lparr>c_stops := x17\<rparr>) = batches_ok enc old h c"
  "batches_ok enc old h (c\<lparr>c_unhandled := x18\<rparr>) = batches_ok enc old h c"
  "batches_ok enc old h (c\<lparr>c_loggedDropWhileIdle := x19\<rparr>) = batches_ok enc old h c"
  "batches_ok enc old h (c\<lparr>c_dropped := x20\<rparr>) = batches_ok enc old h c"
  "batches_ok enc old h (c\<lparr>c_notStarted := x21\<rparr>) = batches_ok enc old h c"
  "batches_ok enc old h (c\<lparr>c_written := x22\<rparr>) = batches_ok enc old h c"
  by (rule batches_ok_core, simp add: core_def)+

lemma batches_ok_openStream:
  "batches_ok enc old h c \<Longrightarrow> (\<And>s. task_batch (k s) = []) \<Longrightarrow>
   (\<And>s. task_ok enc old (c_submitted c) (c_acked c) (k s)) \<Longrightarrow> batches_ok enc old h (openStream sid k c)"
  by (simp add: openStream_def Let_def batches_ok_add_idle batches_ok_frame write_stream_def)

lemma batches_ok_tryReconnect: "batches_ok enc old h c \<Longrightarrow> batches_ok enc old h (tryReconnect c)"
  by (simp add: tryReconnect_def batches_ok_openStream split: option.splits)

lemma task_ok_mono:
  "task_ok enc old S A t \<Longrightarrow> set S \<subseteq> set S' \<Longrightarrow> set A \<subseteq> set A' \<Longrightarrow> task_ok enc old S' A' t"
  by (cases t) (auto simp: entry_ok_def)

lemma batches_ok_submit:
  assumes "batches_ok enc old [] c"
  shows "batches_ok enc old [c_nextBatchId c]
    (c\<lparr>c_nextBatchId := Suc (c_nextBatchId c), c_submitted := c_submitted c @ [(c_nextBatchId c, evs)]\<rparr>)"
proof -
  have "task_ok enc old (c_submitted c @ [(c_nextBatchId c, evs)]) (c_acked c) t" if "t \<in> set (c_tasks c)" for t
    using that assms by (auto simp: batches_ok_def intro: task_ok_mono)
  with assms show ?thesis
    unfolding batches_ok_def
    by (auto simp: safe_batch_def less_Suc_eq intro: files_ok_mono)
qed

lemma batches_ok_sendBatch: "batches_ok enc old [] c \<Longrightarrow> batches_ok enc old [] (sendBatch evs c)"
  using batches_ok_submit [of enc old c evs]
  by (auto simp: sendBatch_def Let_def sendOverStream_def write_stream_def batches_ok_frame
      intro!: batches_ok_add split: option.splits bool.splits)

lemma batches_ok_sendRejected:
  "batches_ok enc old [b] c \<Longrightarrow> (b, evs) \<in> set (c_submitted c) \<Longrightarrow>
   batches_ok enc old [] (sendRejected err b evs c)"
  using core_markStreamFailed [of err c]
  by (auto simp: sendRejected_def Let_def batches_ok_frame core_def intro!: batches_ok_add)

lemma batches_ok_persistToWAL:
  assumes "batches_ok enc old [b] c" "(b, evs) \<in> set (c_submitted c)"
  shows "batches_ok enc old [] (persistToWAL enc dec disk wal b evs c)"
proof (cases wal)
  case (Some i)
  obtain r w f where chk: "append_check enc dec disk b evs (c_wals c ! i, c_fs c) = (r, w, f)"
    by (metis prod_cases3)
  note files = append_check_files [OF chk]
  let ?c = "c\<lparr>c_wals := (c_wals c)[i := w], c_fs := f\<rparr>"
  have ok: "batches_ok enc old [b] ?c"
    using assms(1) files by (intro batches_ok_same_files) auto
  have run: "persistToWAL enc dec disk wal b evs c =
      (case r of Inl e \<Rightarrow> settle b (RejectedDisk e) ?c
       | Inr None \<Rightarrow> settle b RejectedWalFull ?c
       | Inr (Some bs) \<Rightarrow> add_task (PersistWriting i b evs bs) ?c)"
    using Some chk by (simp add: persistToWAL_def Let_def)
  have "batches_ok enc old [] (settle b q ?c)" if "q \<noteq> Resolved" for q
    using that by (intro batches_ok_settle ok) simp
  moreover have "batches_ok enc old [] (add_task (PersistWriting i b evs bs) ?c)" if "r = Inr (Some bs)" for bs
    using that files ok assms(2) by (intro batches_ok_add) simp_all
  ultimately show ?thesis
    unfolding run by (simp split: sum.splits option.splits)
qed (use assms in \<open>auto simp: persistToWAL_def intro: batches_ok_settle\<close>)

lemma on_disk_put: "on_disk enc (fs_put d b (enc evs b) f) b evs"
  unfolding on_disk_def by (rule exI [of _ d]) (simp add: dict_get_fs_put)

lemma batches_ok_persistWritten:
  assumes "batches_ok enc old [b] c" "(b, evs) \<in> set (c_submitted c)"
  shows "batches_ok enc old [] (persistWritten disk i b (enc evs b) c)"
proof -
  obtain r w f where com: "append_commit disk b (enc evs b) (c_wals c ! i, c_fs c) = (r, w, f)"
    by (metis prod_cases3)
  let ?c = "c\<lparr>c_wals := (c_wals c)[i := w], c_fs := f\<rparr>"
  from com show ?thesis
  proof (cases rule: append_commit_cases)
    case (1 part e)
    then have "batches_ok enc old [b] ?c" using assms(1) by (simp only: batches_ok_write_tmp)
    with 1 com show ?thesis
      by (auto simp: persistWritten_def Let_def intro: batches_ok_settle)
  next
    case (2 x)
    then have "batches_ok enc old [b] ?c" using assms by (simp only: batches_ok_put)
    moreover have "safe_batch enc ?c b" 
      unfolding safe_batch_def by (intro exI [of _ evs]) (simp add: 2 assms(2) on_disk_put)
    ultimately have "batches_ok enc old [] (settle b Resolved ?c)" by (rule batches_ok_settle)
    with 2 com show ?thesis by (simp add: persistWritten_def Let_def batches_ok_frame)
  qed
qed

lemma batches_ok_drainHead: "batches_ok enc old h c \<Longrightarrow> batches_ok enc old h (drainHead c)"
  by (simp add: drainHead_def batches_ok_frame batches_ok_add_idle split: option.splits)

lemma batches_ok_drainEntries:
  "batches_ok enc old h c \<Longrightarrow> (\<And>e. e \<in> set es \<Longrightarrow> entry_ok old (c_submitted c) e) \<Longrightarrow>
   batches_ok enc old h (drainEntries es c)"
  by (auto simp: drainEntries_def batches_ok_drainHead batches_ok_frame sendOverStream_def write_stream_def
      intro!: batches_ok_add_idle split: list.splits bool.splits option.splits)

lemma batches_ok_drainWAL: "batches_ok enc old h c \<Longrightarrow> batches_ok enc old h (drainWAL c)"
  by (simp add: drainWAL_def batches_ok_drainHead)

lemma batches_ok_files: "batches_ok enc old h c \<Longrightarrow> files_ok enc old (c_submitted c) (c_fs c)"
  by (simp add: batches_ok_def)

lemma batches_ok_drainListed:
  assumes "batches_ok enc old h c" "codec_ok enc dec"
  shows "batches_ok enc old h (drainListed dec i c)"
proof -
  have "batches_ok enc old h (drainEntries es c)" if "wal_list dec (c_wals c ! i) (c_fs c) = Inr es" for es
    using assms(1) wal_list_entry_ok [OF batches_ok_files [OF assms(1)] assms(2) that]
    by (rule batches_ok_drainEntries)
  with assms(1) show ?thesis
    by (auto simp: drainListed_def batches_ok_frame split: sum.splits list.splits)
qed

lemma batches_ok_drainRemove:
  assumes "batches_ok enc old h c" "\<And>x. x \<in> set (e # rest) \<Longrightarrow> entry_ok old (c_submitted c) x"
    and "(entry_batchId e, entry_events e) \<in> set (c_acked c)"
  shows "batches_ok enc old h (drainRemove fault e rest c)"
proof (cases "c_wal c")
  case (Some i)
  obtain r w f where rm: "wal_remove fault e (c_wals c ! i, c_fs c) = (r, w, f)" by (metis prod_cases3)
  then have "f = c_fs c \<or> fs_unlink (entry_filePath e) (c_fs c) = Inr f"
    by (auto simp: wal_remove_def Let_def split: option.splits sum.splits io_error.splits)
  with assms have "batches_ok enc old h (c\<lparr>c_wals := (c_wals c)[i := w], c_fs := f\<rparr>)"
    by (intro batches_ok_unlink [of enc old h c e]) auto
  with assms(2) Some rm show ?thesis
    by (auto simp: drainRemove_def Let_def batches_ok_frame batches_ok_drainEntries split: sum.splits)
qed (use assms in \<open>simp add: drainRemove_def batches_ok_frame\<close>)

lemma batches_ok_closeStreams: "batches_ok enc old h c \<Longrightarrow> batches_ok enc old h (closeStreams sid k c)"
  by (simp add: closeStreams_def Let_def batches_ok_add_idle split: option.splits)

lemma batches_ok_closeReturns: "batches_ok enc old h c \<Longrightarrow> batches_ok enc old h (closeReturns r k c)"
  by (simp add: closeReturns_def openForCommand_def openSession_def batches_ok_add_idle
      split: after_close.splits sum.splits)

lemma batches_ok_closeSession: "batches_ok enc old h c \<Longrightarrow> batches_ok enc old h (closeSession t k c)"
  by (simp add: closeSession_def batches_ok_closeReturns batches_ok_closeStreams batches_ok_add_idle
      split: option.splits)

lemma batches_ok_stopReturned: "batches_ok enc old h c \<Longrightarrow> batches_ok enc old h (stopReturned r k c)"
  by (simp add: stopReturned_def batches_ok_closeReturns split: sum.splits)

lemma batches_ok_handleSubscribeResponse:
  "batches_ok enc old h c \<Longrightarrow> batches_ok enc old h (handleSubscribeResponse cmd c)"
  by (simp add: handleSubscribeResponse_def batches_ok_closeSession openForCommand_def openSession_def
      batches_ok_add_idle split: command.splits)

lemma batches_ok_start_client: "batches_ok enc old h c \<Longrightarrow> batches_ok enc old h (start_client c)"
  by (simp add: start_client_def batches_ok_frame openSession_def batches_ok_add_idle split: option.splits)

lemma batches_ok_stop_client: "batches_ok enc old h c \<Longrightarrow> batches_ok enc old h (stop_client t c)"
  by (simp add: stop_client_def Let_def closeControlStream_def clearControlReconnect_def
      clearReconnect_def batches_ok_closeSession)

lemma batches_ok_walInit:
  assumes "batches_ok enc old h c"
  shows "batches_ok enc old h (walInit dec disk i sid k c)"
proof -
  obtain r w f where init: "wal_init dec disk (c_wals c ! i, c_fs c) = (r, w, f)" by (metis prod_cases3)
  have "batches_ok enc old h (c\<lparr>c_wals := (c_wals c)[i := w], c_fs := f\<rparr>)"
    using assms wal_init_files [OF init] by (rule batches_ok_same_files)
  with init show ?thesis
    by (simp add: walInit_def Let_def batches_ok_frame batches_ok_openStream split: sum.splits)
qed

lemma batches_ok_sessionStarted: "batches_ok enc old h c \<Longrightarrow> batches_ok enc old h (sessionStarted tmp sid k c)"
  by (simp add: sessionStarted_def Let_def batches_ok_add_idle batches_ok_openStream)

subsection \<open>Acknowledgements and stream errors\<close>

lemma ack_task_batches:
  "mset (concat (map task_batch (ack_task s b t))) + mset (resolved_by s b t) = mset (task_batch t)"
  by (cases t) auto

lemma ack_tasks_batches:
  "mset (concat (map task_batch (concat (map (ack_task s b) ts)))) +
     mset (concat (map (resolved_by s b) ts)) = mset (concat (map task_batch ts))"
proof (induction ts)
  case (Cons t ts)
  then show ?case using ack_task_batches [of s b t] by (simp add: ac_simps)
qed simp

lemma ack_task_ok:
  "task_ok enc old S A t \<Longrightarrow> t' \<in> set (ack_task s b t) \<Longrightarrow> set A \<subseteq> set A' \<Longrightarrow>
   set (acked_by s b t) \<subseteq> set A' \<Longrightarrow> task_ok enc old S A' t'"
  by (cases t) (auto split: if_splits)

lemma resolved_by_acked:
  "task_ok enc old S A t \<Longrightarrow> x \<in> set (resolved_by s b t) \<Longrightarrow>
   \<exists>evs. (x, evs) \<in> set S \<and> (x, evs) \<in> set (acked_by s b t)"
  by (cases t) (auto split: if_splits)

lemma batches_ok_onBatchAck:
  assumes ok: "batches_ok enc old [] c"
  shows "batches_ok enc old [] (onBatchAck s b c)"
proof -
  let ?done = "concat (map (resolved_by s b) (c_tasks c))"
  let ?A = "c_acked c @ concat (map (acked_by s b) (c_tasks c))"
  have safe: "\<exists>evs. (x, evs) \<in> set (c_submitted c) \<and> (x, evs) \<in> set ?A" if "x \<in> set ?done" for x
  proof -
    from that obtain t where t: "t \<in> set (c_tasks c)" "x \<in> set (resolved_by s b t)" by auto
    with ok have "task_ok enc old (c_submitted c) (c_acked c) t" by (simp add: batches_ok_def)
    from resolved_by_acked [OF this t(2)] t(1) show ?thesis by auto
  qed
  have tasks: "task_ok enc old (c_submitted c) ?A t'" if "t' \<in> set (concat (map (ack_task s b) (c_tasks c)))" for t'
  proof -
    from that obtain t where t: "t \<in> set (c_tasks c)" "t' \<in> set (ack_task s b t)" by auto
    with ok have "task_ok enc old (c_submitted c) (c_acked c) t" by (simp add: batches_ok_def)
    from ack_task_ok [OF this t(2), of ?A] t(1) show ?thesis by auto
  qed
  have sel: "c_tasks (onBatchAck s b c) = concat (map (ack_task s b) (c_tasks c))"
    "c_results (onBatchAck s b c) = c_results c @ map (\<lambda>b. (b, Resolved)) ?done"
    "c_acked (onBatchAck s b c) = ?A" "c_submitted (onBatchAck s b c) = c_submitted c"
    "c_nextBatchId (onBatchAck s b c) = c_nextBatchId c" "c_fs (onBatchAck s b c) = c_fs c"
    by (simp_all add: onBatchAck_def Let_def)
  have ids: "map fst (map (\<lambda>b. (b, Resolved)) ?done) = ?done" by (simp only: map_map comp_def fst_conv map_ident)
  have "mset (concat (map task_batch (concat (map (ack_task s b) (c_tasks c))))) + mset [] +
      mset (map fst (c_results c @ map (\<lambda>b. (b, Resolved)) ?done)) =
      mset (concat (map task_batch (c_tasks c))) + mset [] + mset (map fst (c_results c))"
    using ack_tasks_batches [of s b "c_tasks c"]
    by (simp only: map_append ids mset_append add.assoc add.commute add.left_commute)
  moreover have "safe_batch enc (onBatchAck s b c) x"
    if "(x, Resolved) \<in> set (c_results c @ map (\<lambda>b. (b, Resolved)) ?done)" "x \<notin> old" for x
  proof (cases "(x, Resolved) \<in> set (c_results c)")
    case True
    with ok that(2) have "safe_batch enc c x" by (simp add: batches_ok_def)
    then show ?thesis unfolding safe_batch_def sel by auto
  next
    case False
    with that(1) have "x \<in> set ?done" by auto
    from safe [OF this] show ?thesis unfolding safe_batch_def sel by blast
  qed
  ultimately show ?thesis
    using ok tasks unfolding batches_ok_def sel by metis
qed

lemma reject_task_batch [simp]: "task_batch (reject_task s err t) = task_batch t"
  by (cases t) auto

lemma reject_task_ok: "task_ok enc old S A t \<Longrightarrow> task_ok enc old S A (reject_task s err t)"
  by (cases t) auto

lemma batches_ok_onStreamError:
  assumes "batches_ok enc old h c"
  shows "batches_ok enc old h (onStreamError s err c)"
proof -
  have "batches_ok enc old h (markStreamFailed err c)" using assms by (simp add: batches_ok_frame)
  then show ?thesis
    unfolding onStreamError_def Let_def
    by (simp add: batches_ok_def safe_batch_def reject_task_ok comp_def)
qed

theorem batches_ok_step:
  assumes "client_step enc dec tmp c c'" "codec_ok enc dec" "batches_ok enc old [] c"
  shows "batches_ok enc old [] c'"
  using assms(1)
proof cases
  case (call_sendBatch evs) then show ?thesis using assms(3) by (simp add: batches_ok_sendBatch)
next
  case (run_SendRejected xs err b evs ys)
  note t = batches_ok_take [OF assms(3) run_SendRejected(2)]
  show ?thesis unfolding run_SendRejected(1) by (rule batches_ok_sendRejected) (use t in simp_all)
next
  case (run_PersistStart xs wal b evs ys disk)
  note t = batches_ok_take [OF assms(3) run_PersistStart(2)]
  show ?thesis unfolding run_PersistStart(1) by (rule batches_ok_persistToWAL) (use t in simp_all)
next
  case (run_PersistWriting xs i b evs bs ys disk)
  note t = batches_ok_take [OF assms(3) run_PersistWriting(2)]
  show ?thesis using t unfolding run_PersistWriting(1) by (simp add: batches_ok_persistWritten)
next
  case (run_DrainList xs i ys)
  note t = batches_ok_take [OF assms(3) run_DrainList(2)]
  show ?thesis unfolding run_DrainList(1) by (rule batches_ok_drainListed) (use t assms in simp_all)
next
  case (run_DrainRemoving xs e rest ys fault)
  note t = batches_ok_take [OF assms(3) run_DrainRemoving(2)]
  show ?thesis unfolding run_DrainRemoving(1) by (rule batches_ok_drainRemove) (use t in auto)
qed (use assms(3) in \<open>auto dest!: batches_ok_take(1)
      simp: batches_ok_start_client batches_ok_stop_client batches_ok_frame batches_ok_onBatchAck
        batches_ok_onStreamError reconnectTimerFires_def batches_ok_tryReconnect
        batches_ok_handleSubscribeResponse reconnected_def batches_ok_drainWAL drainRejected_def
        batches_ok_sessionStarted batches_ok_walInit batches_ok_closeStreams batches_ok_stopReturned\<close>)

end
