(* ===== verification/Client_Props.thy ===== *)
theory Client_Props
  imports Client_Steps
begin

text \<open>
  The second invariant of the client (timers and control stream after \<open>stop()\<close>, one drain at a
  time, log objects that exist), and the properties of the client.
\<close>

section \<open>The control invariant\<close>

fun is_drain :: "'e task \<Rightarrow> bool" where
  "is_drain (DrainList i) = True"
| "is_drain (DrainSending s e rest) = True"
| "is_drain (DrainRejected err) = True"
| "is_drain (DrainRemoving e rest) = True"
| "is_drain t = False"

fun task_wal :: "'e task \<Rightarrow> nat list" where
  "task_wal (PersistStart wal b evs) = (case wal of None \<Rightarrow> [] | Some i \<Rightarrow> [i])"
| "task_wal (PersistWriting i b evs bs) = [i]"
| "task_wal (DrainList i) = [i]"
| "task_wal (WalInit i sid k) = [i]"
| "task_wal t = []"

abbreviation drains :: "'e client \<Rightarrow> nat" where
  "drains c \<equiv> length (filter is_drain (c_tasks c))"

text \<open>\<open>h\<close> counts the drain that is running, when one is.\<close>

definition control_ok :: "nat \<Rightarrow> 'e client \<Rightarrow> bool" where
  "control_ok h c \<longleftrightarrow>
     (c_shuttingDown c \<longrightarrow>
        c_reconnectTimer c = None \<and> c_controlReconnectTimer c = None \<and> c_controlStream c = None) \<and>
     drains c + h = (if c_draining c then 1 else 0) \<and>
     (c_draining c \<longrightarrow> c_wal c \<noteq> None) \<and>
     (\<forall>i. c_wal c = Some i \<longrightarrow> i < length (c_wals c)) \<and>
     (\<forall>t \<in> set (c_tasks c). \<forall>i \<in> set (task_wal t). i < length (c_wals c))"

lemma control_ok_take:
  "control_ok 0 c \<Longrightarrow> c_tasks c = xs @ t # ys \<Longrightarrow>
   control_ok (if is_drain t then 1 else 0) (without xs ys c)"
  by (auto simp: control_ok_def split: if_splits)

lemma control_ok_add [simp]:
  "control_ok h (add_task t c) \<longleftrightarrow>
     control_ok (h + (if is_drain t then 1 else 0)) c \<and> (\<forall>i \<in> set (task_wal t). i < length (c_wals c))"
  by (auto simp: control_ok_def add_task_def)

named_theorems control_pres \<open>functions that keep the control invariant\<close>

lemma control_scheduleReconnect [control_pres]: "control_ok h c \<Longrightarrow> control_ok h (scheduleReconnect c)"
  by (auto simp: control_ok_def scheduleReconnect_def)

lemma control_clearReconnect [control_pres]: "control_ok h c \<Longrightarrow> control_ok h (clearReconnect c)"
  by (simp add: control_ok_def clearReconnect_def)

lemma control_fields [control_pres]:
  "control_ok h c \<Longrightarrow> control_ok h (c\<lparr>c_streamHealthy := a1\<rparr>)"
  "control_ok h c \<Longrightarrow> control_ok h (c\<lparr>c_stream := a2\<rparr>)"
  "control_ok h c \<Longrightarrow> control_ok h (c\<lparr>c_session := a3\<rparr>)"
  "control_ok h c \<Longrightarrow> control_ok h (c\<lparr>c_streams := a4\<rparr>)"
  "control_ok h c \<Longrightarrow> control_ok h (c\<lparr>c_written := a5\<rparr>)"
  "control_ok h c \<Longrightarrow> control_ok h (c\<lparr>c_reconnectAttempt := a6\<rparr>)"
  "control_ok h c \<Longrightarrow> control_ok h (c\<lparr>c_inflight := a7\<rparr>)"
  "control_ok h c \<Longrightarrow> control_ok h (c\<lparr>c_nextBatchId := a8\<rparr>)"
  "control_ok h c \<Longrightarrow> control_ok h (c\<lparr>c_submitted := a9\<rparr>)"
  "control_ok h c \<Longrightarrow> control_ok h (c\<lparr>c_results := a10\<rparr>)"
  "control_ok h c \<Longrightarrow> control_ok h (c\<lparr>c_acked := a11\<rparr>)"
  "control_ok h c \<Longrightarrow> control_ok h (c\<lparr>c_fs := a12\<rparr>)"
  "control_ok h c \<Longrightarrow> control_ok h (c\<lparr>c_wals := (c_wals c)[i := a13]\<rparr>)"
  "control_ok h c \<Longrightarrow> control_ok h (c\<lparr>c_starts := a14\<rparr>)"
  "control_ok h c \<Longrightarrow> control_ok h (c\<lparr>c_stops := a15\<rparr>)"
  "control_ok h c \<Longrightarrow> control_ok h (c\<lparr>c_unhandled := a16\<rparr>)"
  "control_ok h c \<Longrightarrow> control_ok h (c\<lparr>c_dropped := a17\<rparr>)"
  "control_ok h c \<Longrightarrow> control_ok h (c\<lparr>c_notStarted := a18\<rparr>)"
  "control_ok h c \<Longrightarrow> control_ok h (c\<lparr>c_loggedDropWhileIdle := a19\<rparr>)"
  "control_ok h c \<Longrightarrow> control_ok h (c\<lparr>c_closed := a20\<rparr>)"
  "control_ok h c \<Longrightarrow> control_ok h (c\<lparr>c_ended := a21\<rparr>)"
  "control_ok h c \<Longrightarrow> control_ok h (c\<lparr>c_reconnectTimer := None\<rparr>)"
  by (simp_all add: control_ok_def)

lemma control_markStreamFailed [control_pres]: "control_ok h c \<Longrightarrow> control_ok h (markStreamFailed err c)"
  by (simp add: markStreamFailed_def Let_def control_pres)

lemma control_reconnectFailed [control_pres]: "control_ok h c \<Longrightarrow> control_ok h (reconnectFailed err c)"
  by (simp add: reconnectFailed_def control_pres)

lemma control_settle [control_pres]: "control_ok h c \<Longrightarrow> control_ok h (settle b r c)"
  by (simp add: settle_def control_pres)

lemma control_openStream [control_pres]:
  "control_ok h c \<Longrightarrow> (\<And>s. \<not> is_drain (k s)) \<Longrightarrow> (\<And>s. task_wal (k s) = []) \<Longrightarrow>
   control_ok h (openStream sid k c)"
  by (simp add: openStream_def Let_def write_stream_def control_pres)

lemma control_tryReconnect [control_pres]: "control_ok h c \<Longrightarrow> control_ok h (tryReconnect c)"
  by (simp add: tryReconnect_def control_pres split: option.splits)

lemma control_drainDone: "control_ok (Suc 0) c \<Longrightarrow> control_ok 0 (drainDone c)"
  by (simp add: control_ok_def drainDone_def split: if_splits)

lemma control_drainHead: "control_ok (Suc 0) c \<Longrightarrow> control_ok 0 (drainHead c)"
  by (auto simp: drainHead_def control_drainDone control_ok_def [of _ c] split: option.splits)

lemma control_drainEntries: "control_ok (Suc 0) c \<Longrightarrow> control_ok 0 (drainEntries es c)"
  by (simp add: drainEntries_def control_drainDone control_drainHead sendOverStream_def write_stream_def
      control_pres split: list.splits bool.splits option.splits)

lemma control_drainWAL [control_pres]:
  assumes "control_ok 0 c"
  shows "control_ok 0 (drainWAL c)"
proof (cases "c_wal c = None \<or> c_draining c")
  case False
  with assms have "control_ok (Suc 0) (c\<lparr>c_draining := True\<rparr>)" by (simp add: control_ok_def)
  with False show ?thesis by (auto simp: drainWAL_def control_drainHead)
qed (use assms in \<open>auto simp: drainWAL_def\<close>)

lemma control_drainListed: "control_ok (Suc 0) c \<Longrightarrow> control_ok 0 (drainListed dec i c)"
  by (simp add: drainListed_def control_drainDone control_drainEntries control_pres
      split: option.splits sum.splits list.splits)

lemma control_wal_fs [control_pres]:
  "control_ok h c \<Longrightarrow> control_ok h (c\<lparr>c_wals := (c_wals c)[i := w], c_fs := f\<rparr>)"
  by (simp add: control_ok_def)

lemma control_drainRemove: "control_ok (Suc 0) c \<Longrightarrow> control_ok 0 (drainRemove fault e rest c)"
  by (simp add: drainRemove_def Let_def control_drainDone control_drainEntries control_pres
      split: option.splits sum.splits prod.splits)

lemma control_closeStreams [control_pres]: "control_ok h c \<Longrightarrow> control_ok h (closeStreams sid k c)"
  by (simp add: closeStreams_def Let_def control_pres split: option.splits)

lemma control_openForCommand [control_pres]: "control_ok h c \<Longrightarrow> control_ok h (openForCommand cmd c)"
  by (simp add: openForCommand_def openSession_def)

lemma control_closeReturns [control_pres]: "control_ok h c \<Longrightarrow> control_ok h (closeReturns r k c)"
  by (simp add: closeReturns_def control_pres split: after_close.splits sum.splits)

lemma control_closeSession [control_pres]: "control_ok h c \<Longrightarrow> control_ok h (closeSession t k c)"
  by (simp add: closeSession_def control_pres split: option.splits)

lemma control_stopReturned [control_pres]: "control_ok h c \<Longrightarrow> control_ok h (stopReturned r k c)"
  by (simp add: stopReturned_def control_pres split: sum.splits)

lemma control_openControlStream [control_pres]: "control_ok h c \<Longrightarrow> control_ok h (openControlStream c)"
  by (auto simp: openControlStream_def control_ok_def)

lemma control_controlStreamLost [control_pres]: "control_ok h c \<Longrightarrow> control_ok h (controlStreamLost c)"
  by (auto simp: controlStreamLost_def scheduleControlReconnect_def control_ok_def)

lemma control_controlTimerFires [control_pres]: "control_ok h c \<Longrightarrow> control_ok h (controlTimerFires c)"
  by (auto simp: controlTimerFires_def openControlStream_def control_ok_def)

lemma control_handleSubscribeResponse [control_pres]:
  "control_ok h c \<Longrightarrow> control_ok h (handleSubscribeResponse cmd c)"
  by (simp add: handleSubscribeResponse_def control_pres split: command.splits)

lemma control_openFailed [control_pres]: "control_ok h c \<Longrightarrow> control_ok h (openFailed err k c)"
  by (simp add: openFailed_def control_pres split: after_open.splits)

lemma control_sessionOpened [control_pres]: "control_ok h c \<Longrightarrow> control_ok h (sessionOpened a sid k c)"
  by (simp add: sessionOpened_def Let_def control_pres split: after_open.splits)

lemma control_new_wal [control_pres]:
  "control_ok h c \<Longrightarrow> control_ok h (c\<lparr>c_wals := c_wals c @ [w], c_wal := Some (length (c_wals c))\<rparr>)"
  by (auto simp: control_ok_def intro: less_SucI)

lemma control_sessionStarted [control_pres]: "control_ok h c \<Longrightarrow> control_ok h (sessionStarted tmp sid k c)"
  by (simp add: sessionStarted_def Let_def control_pres)

lemma control_walInit [control_pres]: "control_ok h c \<Longrightarrow> control_ok h (walInit dec disk i sid k c)"
  by (simp add: walInit_def Let_def control_pres split: prod.splits sum.splits)

lemma control_start_client [control_pres]: "control_ok h c \<Longrightarrow> control_ok h (start_client c)"
  by (simp add: start_client_def openSession_def control_pres split: option.splits)

lemma control_stop_client [control_pres]:
  assumes "control_ok h c"
  shows "control_ok h (stop_client t c)"
proof -
  have "control_ok h (closeControlStream (clearControlReconnect (clearReconnect (c\<lparr>c_shuttingDown := True\<rparr>))))"
    using assms by (simp add: control_ok_def closeControlStream_def clearControlReconnect_def clearReconnect_def)
  then show ?thesis by (simp add: stop_client_def Let_def control_pres)
qed

text \<open>The current log exists.\<close>

lemma control_current_wal: "control_ok h c \<Longrightarrow> \<forall>i. Some i = c_wal c \<longrightarrow> i < length (c_wals c)"
  by (auto simp: control_ok_def)

lemma control_PersistStart:
  "control_ok h c \<Longrightarrow> control_ok h (add_task (PersistStart (c_wal c) b evs) c)"
  by (auto simp: control_current_wal split: option.splits)

lemma control_sendBatch [control_pres]: "control_ok h c \<Longrightarrow> control_ok h (sendBatch evs c)"
  using control_current_wal [of h c]
  by (simp add: sendBatch_def Let_def sendOverStream_def write_stream_def control_pres
      split: option.splits bool.splits)

lemma control_sendRejected [control_pres]: "control_ok h c \<Longrightarrow> control_ok h (sendRejected err b evs c)"
  by (simp add: sendRejected_def Let_def control_PersistStart control_pres del: control_ok_add)

lemma control_persistToWAL [control_pres]:
  "control_ok h c \<Longrightarrow> set (task_wal (PersistStart wal b evs)) \<subseteq> {..<length (c_wals c)} \<Longrightarrow>
    control_ok h (persistToWAL enc dec disk wal b evs c)"
  by (auto simp: persistToWAL_def Let_def control_pres control_ok_def [of _ c] split: option.splits prod.splits sum.splits)

lemma control_persistWritten [control_pres]:
  "control_ok h c \<Longrightarrow> control_ok h (persistWritten disk i b bs c)"
  by (simp add: persistWritten_def Let_def control_pres split: prod.splits sum.splits)

lemma control_track [control_pres]:
  "control_ok h c \<Longrightarrow> control_ok h (track p c)" "control_ok h c \<Longrightarrow> control_ok h (untrack p c)"
  by (simp_all add: track_def untrack_def control_pres)

lemma ack_task_control:
  "length (filter is_drain (ack_task s b t)) = (if is_drain t then 1 else 0)"
  "t' \<in> set (ack_task s b t) \<Longrightarrow> set (task_wal t') \<subseteq> set (task_wal t)"
  by (cases t; auto split: if_splits)+

lemma ack_tasks_drains:
  "length (filter is_drain (concat (map (ack_task s b) ts))) = length (filter is_drain ts)"
  by (induction ts) (simp_all add: ack_task_control)

lemma control_onBatchAck [control_pres]:
  assumes "control_ok h c"
  shows "control_ok h (onBatchAck s b c)"
proof -
  have "\<forall>i \<in> set (task_wal t'). i < length (c_wals c)"
    if "t' \<in> set (concat (map (ack_task s b) (c_tasks c)))" for t'
    using that assms ack_task_control(2) [of t' s b] by (fastforce simp: control_ok_def)
  with assms show ?thesis
    by (simp add: onBatchAck_def Let_def control_ok_def ack_tasks_drains)
qed

lemma reject_task_control [simp]:
  "is_drain (reject_task s err t) = is_drain t" "task_wal (reject_task s err t) = task_wal t"
  by (cases t; simp)+

lemma control_onStreamError [control_pres]:
  assumes "control_ok h c"
  shows "control_ok h (onStreamError s err c)"
proof -
  have "control_ok h (markStreamFailed err c)" using assms by (rule control_markStreamFailed)
  then show ?thesis
    by (simp add: onStreamError_def Let_def control_ok_def filter_map comp_def)
qed

lemma control_ok_step:
  assumes "client_step enc dec tmp c c'" "control_ok 0 c"
  shows "control_ok 0 c'"
  using assms(1)
proof cases
  case (run_PersistStart xs wal b evs ys disk)
  have "set (task_wal (PersistStart wal b evs)) \<subseteq> {..<length (c_wals c)}"
    using assms(2) run_PersistStart(2) by (auto simp: control_ok_def)
  with control_ok_take [OF assms(2) run_PersistStart(2)] show ?thesis
    unfolding run_PersistStart(1) by (intro control_persistToWAL) simp_all
qed (use assms(2) in \<open>auto dest!: control_ok_take simp: control_pres control_drainListed control_drainRemove
      reconnectTimerFires_def reconnected_def drainRejected_def control_drainDone\<close>)

lemma reachable_steps: "reachable enc dec tmp cfg f c \<Longrightarrow> (client_step enc dec tmp)\<^sup>*\<^sup>* (new_client cfg f) c"
  by (induction rule: reachable.induct) (auto intro: rtranclp.rtrancl_into_rtrancl)

interpretation ctl: invariant_of "\<lambda>c. \<exists>cfg f. c = new_client cfg f" "client_step enc dec tmp" "control_ok 0"
  for enc dec tmp
proof unfold_locales
  show "control_ok 0 c" if "\<exists>cfg f. c = new_client cfg f" for c
    using that by (auto simp: control_ok_def new_client_def)
qed (rule control_ok_step)

lemma control_ok_reachable: "reachable enc dec tmp cfg f c \<Longrightarrow> control_ok 0 c"
  by (rule ctl.inv_reached [OF _ reachable_steps]) auto

lemma batches_ok_new: "batches_ok enc (log_ids f) [] (new_client cfg f)"
proof -
  have "b \<in> log_ids f" if "dict_get (fs_files f) p = Some bs" "names_batch p b" for p bs b
    using that by (force simp: log_ids_def dest: map_of_SomeD)
  then show ?thesis by (auto simp: batches_ok_def new_client_def files_ok_def)
qed

interpretation bat: invariant_of "\<lambda>c. \<exists>cfg. c = new_client cfg f" "client_step enc dec tmp"
    "\<lambda>c. codec_ok enc dec \<longrightarrow> batches_ok enc (log_ids f) [] c"
  for enc dec tmp f
  by unfold_locales (auto intro: batches_ok_new batches_ok_step)

lemma batches_ok_reachable:
  assumes "reachable enc dec tmp cfg f c" "codec_ok enc dec"
  shows "batches_ok enc (log_ids f) [] c"
  using bat.inv_reached [OF _ reachable_steps [OF assms(1)]] assms(2) by blast

lemma batches_ok_count:
  assumes "batches_ok enc old [] c" "(b, evs) \<in> set (c_submitted c)"
  shows "count (mset (concat (map task_batch (c_tasks c)))) b + count (mset (map fst (c_results c))) b = 1"
proof -
  have "b \<in> set (map fst (c_submitted c))" using assms(2) by force
  then have "count (mset (map fst (c_submitted c))) b = 1"
    using assms(1) by (simp only: batches_ok_def distinct_count_atmost_1 if_True simp_thms)
  with assms(1) show ?thesis unfolding batches_ok_def by (metis add.right_neutral count_union mset.simps(1))
qed

section \<open>Properties of the client\<close>

text \<open>
  C1. Durability: a client is started on any disk. In every state it reaches, whatever the order of
  calls, answers, errors, timers and disk faults, an accepted batch whose \<open>sendBatch\<close> promise resolved was
  acknowledged by the engine or is complete in the write-ahead log on disk; the condition is that no log file found at the start
  is named after the id of the batch. (An idle remote-controlled client resolves a call without accepting a
  batch; such calls are counted, \<open>c_dropped\<close>.)
\<close>

theorem resolved_is_durable:
  assumes "codec_ok enc dec" "reachable enc dec tmp cfg f c" "b \<notin> log_ids f"
    and "(b, Resolved) \<in> set (c_results c)"
  shows "\<exists>evs. (b, evs) \<in> set (c_submitted c) \<and>
    ((b, evs) \<in> set (c_acked c) \<or>
     (\<exists>d. dict_get (fs_files (c_fs c)) (batch_path d b) = Some (enc evs b)))"
  using batches_ok_reachable [OF assms(2,1)] assms(3,4)
  unfolding batches_ok_def safe_batch_def on_disk_def by blast

text \<open>
  C7. Accounting: batch ids are never used twice by a client, and an accepted batch is in exactly one
  of two situations: one task is responsible for it and its promise is pending, or no task is and its promise has settled
  once: rejected, or resolved and then (unless an old log file has its id) acknowledged or on disk with its events. So no
  batch is forgotten, and none is settled twice.
\<close>

theorem batch_accounting:
  assumes "codec_ok enc dec" "reachable enc dec tmp cfg f c" "(b, evs) \<in> set (c_submitted c)"
  shows "(\<forall>evs'. (b, evs') \<in> set (c_submitted c) \<longrightarrow> evs' = evs) \<and>
    (count (mset (concat (map task_batch (c_tasks c)))) b = 1 \<and> b \<notin> fst ` set (c_results c) \<or>
     count (mset (concat (map task_batch (c_tasks c)))) b = 0 \<and>
       (\<exists>r. filter (\<lambda>x. fst x = b) (c_results c) = [(b, r)] \<and>
         (r = Resolved \<longrightarrow> b \<notin> log_ids f \<longrightarrow> (b, evs) \<in> set (c_acked c) \<or> on_disk enc (c_fs c) b evs)))"
proof -
  have ok: "batches_ok enc (log_ids f) [] c" by (rule batches_ok_reachable [OF assms(2,1)])
  have once: "count (mset (concat (map task_batch (c_tasks c)))) b + count (mset (map fst (c_results c))) b = 1"
    by (rule batches_ok_count [OF ok assms(3)])
  have uniq: "evs' = evs" if "(b, evs') \<in> set (c_submitted c)" for evs'
    by (rule submitted_unique [OF ok that assms(3)])
  have len: "length (filter (\<lambda>x. fst x = b) rs) = count (mset (map fst rs)) b" for rs :: "(nat \<times> outcome) list"
    by (induction rs) auto
  show ?thesis
  proof (cases "count (mset (map fst (c_results c))) b")
    case 0
    then have "b \<notin> fst ` set (c_results c)" by (metis count_eq_zero_iff set_map set_mset_mset)
    with 0 once uniq show ?thesis by auto
  next
    case (Suc n)
    with once have one: "length (filter (\<lambda>x. fst x = b) (c_results c)) = Suc 0" and none: "count (mset (concat (map task_batch (c_tasks c)))) b = 0"
      by (simp_all add: len)
    then obtain x where x: "filter (\<lambda>x. fst x = b) (c_results c) = [x]" by (metis length_0_conv length_Suc_conv)
    have "x \<in> set (c_results c) \<and> fst x = b" using arg_cong [OF x, of set] by auto
    then obtain r where r: "x = (b, r)" "(b, r) \<in> set (c_results c)" by (cases x) auto
    have "(b, evs) \<in> set (c_acked c) \<or> on_disk enc (c_fs c) b evs" if "r = Resolved" "b \<notin> log_ids f"
    proof -
      have "safe_batch enc c b" using ok r(2) that by (simp add: batches_ok_def)
      with uniq show ?thesis unfolding safe_batch_def by blast
    qed
    with none x r uniq show ?thesis by auto
  qed
qed


text \<open>
  C13. The \<open>draining\<close> flag is a lock: there is exactly one drain continuation while it is set and
  none while it is clear, and a drain always has a log object.
\<close>

theorem one_drain_at_a_time:
  assumes "reachable enc dec tmp cfg f c"
  shows "length (filter is_drain (c_tasks c)) = (if c_draining c then 1 else 0) \<and>
    (c_draining c \<longrightarrow> (\<exists>i. c_wal c = Some i \<and> i < length (c_wals c)))"
  using control_ok_reachable [OF assms] by (auto simp: control_ok_def)

subsection \<open>Backoff\<close>

text \<open>
  One failed round of the reconnect loop: the timer fires, a stream is opened, it errors before
  the handshake is acknowledged, and the awaiting \<open>tryReconnect\<close> sees the rejection.
\<close>

definition reconnect_round :: "rpc_error \<Rightarrow> 'e client \<Rightarrow> 'e client" where
  "reconnect_round err c =
     (let c = reconnectTimerFires c;
          c = onStreamError (c_streams c - 1) err c
      in reconnectFailed err (c\<lparr>c_tasks := butlast (c_tasks c)\<rparr>))"

definition control_round :: "'e client \<Rightarrow> 'e client" where
  "control_round c = controlStreamLost (controlTimerFires c)"

lemma reconnect_round_run:
  assumes "c_session c = Some h" "\<not> c_shuttingDown c" "\<not> (is_remote c \<and> isSessionGoneError (Some err))"
  shows "c_session (reconnect_round err c) = Some h" "\<not> c_shuttingDown (reconnect_round err c)"
    "c_config (reconnect_round err c) = c_config c"
    "c_reconnectAttempt (reconnect_round err c) = Suc (c_reconnectAttempt c)"
    "c_reconnectTimer (reconnect_round err c) =
       Some (backoff_delay (c_config c) (Suc (c_reconnectAttempt c)))"
proof -
  define c1 where "c1 = reconnectTimerFires c"
  define c2 where "c2 = onStreamError (c_streams c1 - 1) err c1"
  have c1: "c_session c1 = Some h" "\<not> c_shuttingDown c1" "c_config c1 = c_config c"
    "c_reconnectAttempt c1 = Suc (c_reconnectAttempt c)" "c_reconnectTimer c1 = None"
    using assms(1,2)
    by (simp_all add: c1_def reconnectTimerFires_def tryReconnect_def openStream_def Let_def
        write_stream_def add_task_def)
  have c2: "c_session c2 = Some h" "\<not> c_shuttingDown c2" "c_config c2 = c_config c"
    "c_reconnectAttempt c2 = Suc (c_reconnectAttempt c)"
    "c_reconnectTimer c2 = Some (backoff_delay (c_config c) (Suc (c_reconnectAttempt c)))"
    using assms(3) c1
    by (simp_all add: c2_def onStreamError_def markStreamFailed_def scheduleReconnect_def Let_def del: de_Morgan_conj)
  have "reconnect_round err c = reconnectFailed err (c2\<lparr>c_tasks := butlast (c_tasks c2)\<rparr>)"
    unfolding reconnect_round_def Let_def c2_def c1_def by (rule refl)
  then have "reconnect_round err c = c2\<lparr>c_tasks := butlast (c_tasks c2)\<rparr>"
    using assms(3) c2 by (simp add: reconnectFailed_def scheduleReconnect_def del: de_Morgan_conj)
  with c2 show "c_session (reconnect_round err c) = Some h" "\<not> c_shuttingDown (reconnect_round err c)"
    "c_config (reconnect_round err c) = c_config c"
    "c_reconnectAttempt (reconnect_round err c) = Suc (c_reconnectAttempt c)"
    "c_reconnectTimer (reconnect_round err c) =
       Some (backoff_delay (c_config c) (Suc (c_reconnectAttempt c)))"
    by simp_all
qed

lemma reconnect_rounds:
  assumes "c_session c = Some h" "\<not> c_shuttingDown c" "c_reconnectAttempt c = 0"
    and "\<not> (is_remote c \<and> isSessionGoneError (Some err))" "c_reconnectTimer c = Some (backoff_delay (c_config c) 0)"
  shows "c_reconnectTimer ((reconnect_round err ^^ n) c) = Some (backoff_delay (c_config c) n)"
proof -
  let ?r = "\<lambda>n. (reconnect_round err ^^ n) c"
  have inv: "c_session (?r n) = Some h \<and> \<not> c_shuttingDown (?r n) \<and> c_config (?r n) = c_config c \<and>
      c_reconnectAttempt (?r n) = n" for n
  proof (induction n)
    case (Suc n)
    then show ?case using reconnect_round_run [of "?r n" h err] assms(4) by simp
  qed (use assms in simp)
  show ?thesis
  proof (cases n)
    case (Suc m)
    then show ?thesis using reconnect_round_run(5) [of "?r m" h err] inv [of m] assms(4) by simp
  qed (use assms(5) in simp)
qed

lemma reconnected_sel [simp]:
  "c_session (reconnected c) = c_session c" "c_shuttingDown (reconnected c) = c_shuttingDown c"
  "c_config (reconnected c) = c_config c" "c_reconnectTimer (reconnected c) = c_reconnectTimer c"
  "c_reconnectAttempt (reconnected c) = 0"
  by (simp_all add: reconnected_def drainWAL_def drainHead_def drainDone_def add_task_def split: option.splits)

text \<open>
  C14. Exponential backoff: however many attempts came before, once a reconnect has succeeded and the stream then fails
  again, the next attempt waits the initial delay, and after \<open>n\<close> further failed rounds it waits
  \<open>min (initial * 2 ^ n) cap\<close> milliseconds, so never more than the cap. (The error must not be one that ends the session of a
  remote-controlled client, which then stops reconnecting.)
\<close>

theorem reconnect_backoff:
  assumes "c_session c = Some h" "\<not> c_shuttingDown c" "c_reconnectTimer c = None"
    and "\<not> (is_remote c \<and> isSessionGoneError (Some err))"
  shows "c_reconnectTimer ((reconnect_round err ^^ n) (onStreamError s err (reconnected c))) =
    Some (min ((case cfg_initialBackoffMs (c_config c) of None \<Rightarrow> 500 | Some i \<Rightarrow> i) * 2 ^ n)
              (case cfg_maxBackoffMs (c_config c) of None \<Rightarrow> 30000 | Some m \<Rightarrow> m))"
proof -
  let ?c = "onStreamError s err (reconnected c)"
  have "c_session ?c = Some h \<and> \<not> c_shuttingDown ?c \<and> c_reconnectAttempt ?c = 0 \<and> c_config ?c = c_config c \<and>
      c_reconnectTimer ?c = Some (backoff_delay (c_config c) 0)"
    using assms by (simp add: onStreamError_def markStreamFailed_def scheduleReconnect_def Let_def del: de_Morgan_conj)
  then show ?thesis using reconnect_rounds [of ?c h err n] assms(4) by (simp add: backoff_delay_def)
qed

text \<open>
  The control stream's delay never grows: opening the stream resets the attempt counter before
  the connection is known to work, so every round of an engine outage waits the initial delay.
\<close>

theorem control_backoff_never_grows:
  assumes "\<not> c_shuttingDown c" "is_remote c" "c_controlStream c = None" "0 < n"
  shows "c_controlReconnectTimer ((control_round ^^ n) c) =
    Some (min (case cfg_initialBackoffMs (c_config c) of None \<Rightarrow> 500 | Some i \<Rightarrow> i)
              (case cfg_maxBackoffMs (c_config c) of None \<Rightarrow> 30000 | Some m \<Rightarrow> m))"
proof -
  have step: "\<not> c_shuttingDown (control_round c) \<and> c_config (control_round c) = c_config c \<and>
      c_controlStream (control_round c) = None \<and>
      c_controlReconnectTimer (control_round c) = Some (backoff_delay (c_config c) 0)"
    if "\<not> c_shuttingDown c" "is_remote c" "c_controlStream c = None" for c :: "'a client"
    using that by (auto simp: control_round_def controlTimerFires_def openControlStream_def
        controlStreamLost_def scheduleControlReconnect_def)
  let ?r = "\<lambda>n. (control_round ^^ n) c"
  have inv: "\<not> c_shuttingDown (?r n) \<and> c_config (?r n) = c_config c \<and> c_controlStream (?r n) = None" for n
  proof (induction n)
    case (Suc n)
    then show ?case using step [of "?r n"] assms(2) by simp
  qed (use assms in simp)
  obtain m where n: "n = Suc m" using assms(4) gr0_conv_Suc by blast
  show ?thesis using step [of "?r m"] inv [of m] assms(2) by (simp add: n backoff_delay_def)
qed

subsection \<open>Session and streams\<close>

text \<open>
  When the engine says the session is gone, a remote client goes idle at once: no session, no
  stream, no timer; the batch that was in flight still goes to the log, and later batches are
  dropped instead of failing the caller.
\<close>

theorem session_gone_idles:
  assumes "is_remote c" "\<not> c_shuttingDown c" "isSessionGoneError (Some err)"
  shows "c_session (onStreamError s err c) = None \<and> c_stream (onStreamError s err c) = None \<and>
    c_reconnectTimer (onStreamError s err c) = None \<and>
    c_dropped (sendBatch evs (onStreamError s err c)) = Suc (c_dropped c) \<and>
    c_tasks (sendBatch evs (onStreamError s err c)) = map (reject_task s err) (c_tasks c) \<and>
    c_submitted (sendBatch evs (onStreamError s err c)) = c_submitted c"
  using assms
  by (auto simp: onStreamError_def Let_def markStreamFailed_def clearReconnect_def sendBatch_def)

text \<open>
  The error listener does not look at which stream failed: an error of any old stream takes
  the current, healthy stream out of service and arms the reconnect timer.
\<close>

theorem stale_error_fails_current_stream:
  assumes "c_stream c = Some cur" "s \<noteq> cur" "c_session c = Some h" "\<not> is_remote c"
    and "\<not> c_shuttingDown c" "c_reconnectTimer c = None"
  shows "c_stream (onStreamError s err c) = None \<and> \<not> c_streamHealthy (onStreamError s err c) \<and>
    c_reconnectTimer (onStreamError s err c) = Some (backoff_delay (c_config c) (c_reconnectAttempt c))"
  using assms
  by (auto simp: onStreamError_def Let_def markStreamFailed_def scheduleReconnect_def)

section \<open>A run of the client\<close>

text \<open>
  A client starts, its stream fails while a batch is in flight, the batch goes to the log, the
  stream reconnects and the log is drained; then the client is stopped.
\<close>

definition run_cfg :: client_config where
  "run_cfg = \<lparr>cfg_apiKey = ''key'', cfg_sessionName = ''load'', cfg_sessionLabels = None,
     cfg_remote = None, cfg_walDir = Some ''/w'', cfg_walMaxBytes = Some 9, cfg_walDisabled = False,
     cfg_initialBackoffMs = Some 5, cfg_maxBackoffMs = Some 40\<rparr>"

definition run_fs :: fs where
  "run_fs = \<lparr>fs_dirs = [], fs_files = []\<rparr>"

definition run_ack :: handshake_ack where
  "run_ack = \<lparr>ack_maxBatchSize = 100, ack_maxEventsPerSecond = 0, ack_recommendedFlushIntervalMs = 50\<rparr>"

definition run_err :: rpc_error where
  "run_err = \<lparr>err_code = Some (CodeNum 14), err_message = Some ''unavailable''\<rparr>"

abbreviation run_take :: "unit client \<Rightarrow> unit client" where
  "run_take c \<equiv> c\<lparr>c_tasks := tl (c_tasks c)\<rparr>"

definition run1 :: "unit client" where "run1 = start_client (new_client run_cfg run_fs)"
definition run2 :: "unit client" where "run2 = sessionStarted ''/t'' ''s1'' OpenForStart (run_take run1)"
definition run3 :: "unit client" where "run3 = walInit sample_dec DiskOk 0 ''s1'' OpenForStart (run_take run2)"
definition run4 :: "unit client" where "run4 = sessionOpened run_ack ''s1'' OpenForStart (run_take run3)"
definition run5 :: "unit client" where "run5 = sendBatch [()] run4"
definition run6 :: "unit client" where "run6 = onStreamError 0 run_err run5"
definition run7 :: "unit client" where "run7 = sendRejected run_err 1 [()] (run_take run6)"
definition run8 :: "unit client" where "run8 = persistToWAL sample_enc sample_dec DiskOk (Some 0) 1 [()] (run_take run7)"
definition run9 :: "unit client" where "run9 = persistWritten DiskOk 0 1 (sample_enc [()] 1) (run_take run8)"
definition run10 :: "unit client" where "run10 = reconnectTimerFires run9"
definition run11 :: "unit client" where "run11 = reconnected (run_take run10)"
definition run12 :: "unit client" where "run12 = drainListed sample_dec 0 (run_take run11)"
definition run13 :: "unit client" where "run13 = stop_client None run12"

abbreviation run_reachable :: "unit client \<Rightarrow> bool" where
  "run_reachable c \<equiv> reachable sample_enc sample_dec ''/t'' run_cfg run_fs c"

lemma run_reachable4: "run_reachable run4"
proof -
  have t: "c_tasks run1 = [] @ StartRpc \<lparr>open_name = ''load'', open_labels = [], open_preferredId = []\<rparr> OpenForStart # []"
    "c_tasks run2 = [] @ WalInit 0 ''s1'' OpenForStart # []"
    "c_tasks run3 = [] @ OpenHandshake 0 ''s1'' OpenForStart # []"
    by code_simp+
  have "run_reachable run1" unfolding run1_def by (rule reach_step [OF reach_init call_start])
  from reach_step [OF this run_StartRpc [OF t(1), where sid = "''s1''"]] t(1)
  have "run_reachable run2" by (simp add: run2_def)
  from reach_step [OF this run_WalInit [OF t(2), where disk = DiskOk]] t(2)
  have "run_reachable run3" by (simp add: run3_def)
  from reach_step [OF this run_OpenHandshake [OF t(3), where a = run_ack]] t(3)
  show ?thesis by (simp add: run4_def)
qed

lemma run_reachable8: "run_reachable run8"
proof -
  have t: "c_streams run5 = 1" "c_tasks run6 = [] @ SendRejected run_err 1 [()] # []"
    "c_tasks run7 = [] @ PersistStart (Some 0) 1 [()] # []"
    by code_simp+
  have "run_reachable run5" unfolding run5_def by (rule reach_step [OF run_reachable4 call_sendBatch])
  from reach_step [OF this stream_error [of 0 _ _ _ _ run_err]] t(1)
  have "run_reachable run6" by (simp add: run6_def)
  from reach_step [OF this run_SendRejected [OF t(2)]] t(2)
  have "run_reachable run7" by (simp add: run7_def)
  from reach_step [OF this run_PersistStart [OF t(3), where disk = DiskOk]] t(3)
  show ?thesis by (simp add: run8_def)
qed

lemma run_reachable9: "run_reachable run9"
proof -
  have t: "c_tasks run8 = [] @ PersistWriting 0 1 [()] (sample_enc [()] 1) # []" by code_simp
  from reach_step [OF run_reachable8 run_PersistWriting [OF t, where disk = DiskOk]] t
  show ?thesis by (simp add: run9_def)
qed

lemma run_reachable12: "run_reachable run12"
proof -
  have t: "c_reconnectTimer run9 = Some 5" "c_tasks run10 = [] @ ReconnectHandshake 1 # []"
    "c_tasks run11 = [] @ DrainList 0 # []"
    by code_simp+
  from reach_step [OF run_reachable9 reconnect_timer [OF t(1)]]
  have "run_reachable run10" by (simp add: run10_def)
  from reach_step [OF this run_ReconnectHandshake [OF t(2)]] t(2)
  have "run_reachable run11" by (simp add: run11_def)
  from reach_step [OF this run_DrainList [OF t(3)]] t(3)
  show ?thesis by (simp add: run12_def)
qed

lemma run_reachable13: "run_reachable run13"
  unfolding run13_def by (rule reach_step [OF run_reachable12 call_stop])

theorem resolved_is_durable_witness:
  "\<exists>evs. (1, evs) \<in> set (c_submitted run9) \<and>
    ((1, evs) \<in> set (c_acked run9) \<or>
     (\<exists>d. dict_get (fs_files (c_fs run9)) (batch_path d 1) = Some (sample_enc evs 1)))"
proof (rule resolved_is_durable [OF sample_codec_ok run_reachable9])
  show "1 \<notin> log_ids run_fs" by (simp add: run_fs_def log_ids_def)
  show "(1, Resolved) \<in> set (c_results run9)" by code_simp
qed

theorem batch_accounting_witness:
  "count (mset (concat (map task_batch (c_tasks run8)))) 1 = 1 \<and> 1 \<notin> fst ` set (c_results run8) \<and>
   count (mset (concat (map task_batch (c_tasks run9)))) 1 = 0 \<and>
   filter (\<lambda>x. fst x = 1) (c_results run9) = [(1, Resolved)] \<and> on_disk sample_enc (c_fs run9) 1 [()]"
proof -
  have sub: "(1, [()]) \<in> set (c_submitted run8)" "(1, [()]) \<in> set (c_submitted run9)"
    and res: "c_results run8 = []" "c_results run9 = [(1, Resolved)]" "c_acked run9 = []" by code_simp+
  have "1 \<notin> log_ids run_fs" by (simp add: run_fs_def log_ids_def)
  with batch_accounting [OF sample_codec_ok run_reachable8 sub(1)] batch_accounting [OF sample_codec_ok run_reachable9 sub(2)] res
  show ?thesis by auto
qed


theorem one_drain_at_a_time_witness:
  "c_draining run12 \<and> length (filter is_drain (c_tasks run12)) = 1"
proof -
  have "c_draining run12" by code_simp
  with one_drain_at_a_time [OF run_reachable12] show ?thesis by simp
qed

theorem reconnect_backoff_witness:
  "c_reconnectTimer ((reconnect_round run_err ^^ 0) (onStreamError 1 run_err run11)) = Some 5 \<and>
   c_reconnectTimer ((reconnect_round run_err ^^ 7) (onStreamError 1 run_err run11)) = Some 40"
proof -
  have c: "c_session (run_take run10) = Some \<lparr>session_id = ''s1'', maxBatchSize = 100, maxEventsPerSecond = 0,
      recommendedFlushIntervalMs = 50\<rparr>" "\<not> c_shuttingDown (run_take run10)" "c_reconnectTimer (run_take run10) = None"
    "c_config (run_take run10) = run_cfg" "c_reconnectAttempt (run_take run10) = 1"
    by code_simp+
  from reconnect_backoff [OF c(1-3), of run_err 0 1] reconnect_backoff [OF c(1-3), of run_err 7 1] c(4) show ?thesis
    by (simp add: run_cfg_def run11_def)
qed

lemma new_client_sel:
  "c_config (new_client cfg f) = cfg" "\<not> c_shuttingDown (new_client cfg f)"
  "c_controlStream (new_client cfg f) = None"
  by (simp_all add: new_client_def)

definition remote_cfg :: client_config where
  "remote_cfg = run_cfg\<lparr>cfg_remote := Some \<lparr>remote_clientName = ''api'', remote_displayName = None,
     remote_labels = None, remote_sdkLanguage = None, remote_instanceId = None\<rparr>\<rparr>"

theorem control_backoff_never_grows_witness:
  "c_controlReconnectTimer ((control_round ^^ 7) (new_client remote_cfg run_fs :: unit client)) = Some 5"
  using control_backoff_never_grows [of "new_client remote_cfg run_fs :: unit client" 7]
  by (simp add: remote_cfg_def run_cfg_def new_client_sel)

theorem session_gone_idles_witness:
  "c_session (onStreamError 0 \<lparr>err_code = Some (CodeNum 9), err_message = None\<rparr>
     (new_client remote_cfg run_fs :: unit client)) = None"
  using session_gone_idles [of "new_client remote_cfg run_fs :: unit client" "\<lparr>err_code = Some (CodeNum 9), err_message = None\<rparr>"]
  by (simp add: remote_cfg_def isSessionGoneError_def new_client_sel)

theorem stale_error_fails_current_stream_witness:
  "c_stream run11 = Some 1 \<and> c_stream (onStreamError 0 run_err run11) = None"
proof -
  have c: "c_stream run11 = Some 1" "c_session run11 = Some \<lparr>session_id = ''s1'', maxBatchSize = 100,
      maxEventsPerSecond = 0, recommendedFlushIntervalMs = 50\<rparr>"
    "\<not> is_remote run11" "\<not> c_shuttingDown run11" "c_reconnectTimer run11 = None"
    by code_simp+
  with stale_error_fails_current_stream [OF c(1) _ c(2-5), of 0 run_err] show ?thesis by simp
qed

end
