(* ===== verification/Delivery.thy ===== *)
theory Delivery
  imports Client_Props
begin

text \<open>
  What the client promises about batches, as a specification of four moves, and the proof that the
  client of \<open>client.ts\<close> with its streams, timers, tasks and log files implements it: each of its
  steps is a run of the specification.
\<close>

section \<open>The specification\<close>

text \<open>
  The batches that were accepted, the promises that settled (with success or not), and the batches
  that are safe. A batch gets a new id; only an accepted batch becomes safe, and a safe batch stays so; a
  promise settles once, and with success only if the batch is safe.
\<close>

record 'e delivery =
  dl_accepted :: "(nat \<times> 'e list) list"
  dl_outcomes :: "(nat \<times> bool) list"
  dl_safe :: "(nat \<times> 'e list) set"

definition delivery_new :: "'e delivery" where
  "delivery_new = \<lparr>dl_accepted = [], dl_outcomes = [], dl_safe = {}\<rparr>"

inductive delivery_step :: "'e delivery \<Rightarrow> 'e delivery \<Rightarrow> bool" where
  accept: "b \<notin> fst ` set (dl_accepted d) \<Longrightarrow> delivery_step d (d\<lparr>dl_accepted := dl_accepted d @ [(b, evs)]\<rparr>)"
| secure: "x \<in> set (dl_accepted d) \<Longrightarrow> delivery_step d (d\<lparr>dl_safe := insert x (dl_safe d)\<rparr>)"
| resolve: "(b, evs) \<in> dl_safe d \<Longrightarrow> b \<notin> fst ` set (dl_outcomes d) \<Longrightarrow>
    delivery_step d (d\<lparr>dl_outcomes := dl_outcomes d @ [(b, True)]\<rparr>)"
| reject: "b \<in> fst ` set (dl_accepted d) \<Longrightarrow> b \<notin> fst ` set (dl_outcomes d) \<Longrightarrow>
    delivery_step d (d\<lparr>dl_outcomes := dl_outcomes d @ [(b, False)]\<rparr>)"

inductive_cases delivery_stepE: "delivery_step d d'"

definition delivery_ok :: "'e delivery \<Rightarrow> bool" where
  "delivery_ok d \<longleftrightarrow> distinct (map fst (dl_accepted d)) \<and> distinct (map fst (dl_outcomes d)) \<and>
     dl_safe d \<subseteq> set (dl_accepted d) \<and> fst ` set (dl_outcomes d) \<subseteq> fst ` set (dl_accepted d) \<and>
     (\<forall>b. (b, True) \<in> set (dl_outcomes d) \<longrightarrow> b \<in> fst ` dl_safe d)"

lemma delivery_ok_new: "delivery_ok delivery_new"
  by (simp add: delivery_ok_def delivery_new_def)

lemma delivery_ok_step: "delivery_ok d \<Longrightarrow> delivery_step d d' \<Longrightarrow> delivery_ok d'"
  by (erule delivery_stepE) (auto simp: delivery_ok_def rev_image_eqI)

text \<open>Nothing that was accepted, settled or made safe is taken back.\<close>

definition extends :: "'e delivery \<Rightarrow> 'e delivery \<Rightarrow> bool" where
  "extends d d' \<longleftrightarrow> set (dl_accepted d) \<subseteq> set (dl_accepted d') \<and> set (dl_outcomes d) \<subseteq> set (dl_outcomes d') \<and> dl_safe d \<subseteq> dl_safe d'"

lemma delivery_extends: "delivery_step\<^sup>*\<^sup>* d d' \<Longrightarrow> extends d d'"
proof (induction rule: rtranclp_induct)
  case (step d' d'')
  from step.hyps(2) have "extends d' d''" by cases (auto simp: extends_def)
  with step.IH show ?case unfolding extends_def by blast
qed (simp add: extends_def)

text \<open>Many moves of one kind.\<close>

lemma accept_many:
  "distinct (map fst (dl_accepted d @ xs)) \<Longrightarrow> delivery_step\<^sup>*\<^sup>* d (d\<lparr>dl_accepted := dl_accepted d @ xs\<rparr>)"
proof (induction xs rule: rev_induct)
  case (snoc x xs)
  let ?d = "d\<lparr>dl_accepted := dl_accepted d @ xs\<rparr>"
  have "fst x \<notin> fst ` set (dl_accepted ?d)" using snoc.prems by auto
  from accept [OF this, of "snd x"] have "delivery_step ?d (d\<lparr>dl_accepted := dl_accepted d @ xs @ [x]\<rparr>)" by simp
  with snoc show ?case by (simp add: rtranclp.rtrancl_into_rtrancl)
qed simp

lemma secure_many:
  assumes "finite T" "T \<subseteq> set (dl_accepted d)"
  shows "delivery_step\<^sup>*\<^sup>* d (d\<lparr>dl_safe := dl_safe d \<union> T\<rparr>)"
  using assms
proof (induction rule: finite_induct)
  case (insert x T)
  have "delivery_step (d\<lparr>dl_safe := dl_safe d \<union> T\<rparr>) (d\<lparr>dl_safe := dl_safe d \<union> insert x T\<rparr>)"
    using secure [of x "d\<lparr>dl_safe := dl_safe d \<union> T\<rparr>"] insert.prems by simp
  with insert show ?case by (simp add: rtranclp.rtrancl_into_rtrancl)
qed simp

lemma settle_many:
  assumes "distinct (map fst (dl_outcomes d @ rs))" "fst ` set rs \<subseteq> fst ` set (dl_accepted d)"
    and "\<And>b. (b, True) \<in> set rs \<Longrightarrow> b \<in> fst ` dl_safe d"
  shows "delivery_step\<^sup>*\<^sup>* d (d\<lparr>dl_outcomes := dl_outcomes d @ rs\<rparr>)"
  using assms
proof (induction rs rule: rev_induct)
  case (snoc r rs)
  let ?d = "d\<lparr>dl_outcomes := dl_outcomes d @ rs\<rparr>"
  obtain b ok where r: "r = (b, ok)" by (cases r)
  have new: "b \<notin> fst ` set (dl_outcomes ?d)" using snoc.prems(1) r by auto
  have "delivery_step ?d (d\<lparr>dl_outcomes := dl_outcomes d @ rs @ [r]\<rparr>)"
  proof (cases ok)
    case True
    with snoc.prems(3) [of b] r obtain evs where "(b, evs) \<in> dl_safe ?d" by auto
    from resolve [OF this new] True r show ?thesis by simp
  next
    case False
    have "b \<in> fst ` set (dl_accepted ?d)" using snoc.prems(2) r by simp
    from reject [OF this new] False r show ?thesis by simp
  qed
  moreover have "delivery_step\<^sup>*\<^sup>* d ?d" using snoc by simp
  ultimately show ?case by (simp add: rtranclp.rtrancl_into_rtrancl)
qed simp

section \<open>What the specification sees of the client\<close>

text \<open>
  Of the client's books the specification sees the batches with new ids: those that no log file found at the start was
  named after (\<open>old\<close> are the others).
\<close>

definition safe_batches :: "'e encoder \<Rightarrow> nat set \<Rightarrow> 'e client \<Rightarrow> (nat \<times> 'e list) set" where
  "safe_batches enc old c =
     {(b, evs) \<in> set (c_submitted c). b \<notin> old \<and> ((b, evs) \<in> set (c_acked c) \<or> on_disk enc (c_fs c) b evs)}"

abbreviation new_ids :: "nat set \<Rightarrow> (nat \<times> 'a) list \<Rightarrow> (nat \<times> 'a) list" where
  "new_ids old xs \<equiv> filter (\<lambda>x. fst x \<notin> old) xs"

definition delivery_of :: "'e encoder \<Rightarrow> nat set \<Rightarrow> 'e client \<Rightarrow> 'e delivery" where
  "delivery_of enc old c =
     \<lparr>dl_accepted = new_ids old (c_submitted c), dl_outcomes = map (\<lambda>(b, r). (b, r = Resolved)) (new_ids old (c_results c)),
      dl_safe = safe_batches enc old c\<rparr>"

text \<open>A step of the client only adds to its books: batches, results, safe batches.\<close>

definition grows :: "'e encoder \<Rightarrow> nat set \<Rightarrow> 'e client \<Rightarrow> 'e client \<Rightarrow> bool" where
  "grows enc old c c' \<longleftrightarrow> (\<exists>news. c_submitted c' = c_submitted c @ news) \<and> (\<exists>rs. c_results c' = c_results c @ rs) \<and>
     safe_batches enc old c \<subseteq> safe_batches enc old c'"

lemma result_ids:
  assumes "batches_ok enc old [] c"
  shows "distinct (map fst (c_results c))" "fst ` set (c_results c) \<subseteq> fst ` set (c_submitted c)"
proof -
  have d: "distinct (map fst (c_submitted c))" and sub: "mset (map fst (c_results c)) \<subseteq># mset (map fst (c_submitted c))"
    using assms by (auto simp: batches_ok_def) (metis mset_subset_eq_add_right)
  show "distinct (map fst (c_results c))"
    using d mset_subset_eq_count [OF sub] by (metis distinct_count_atmost_1 le_antisym less_one linorder_not_less not_in_iff set_mset_mset zero_le)
  show "fst ` set (c_results c) \<subseteq> fst ` set (c_submitted c)"
    using set_mset_mono [OF sub] by simp
qed

lemma grows_simulated:
  assumes ok: "batches_ok enc old [] c'" and "grows enc old c c'"
  shows "delivery_step\<^sup>*\<^sup>* (delivery_of enc old c) (delivery_of enc old c')"
proof -
  let ?out = "map (\<lambda>(b, r). (b, r = Resolved))"
  obtain news rs where g: "c_submitted c' = c_submitted c @ news" "c_results c' = c_results c @ rs"
    "safe_batches enc old c \<subseteq> safe_batches enc old c'"
    using assms(2) by (auto simp: grows_def)
  define d1 where "d1 = (delivery_of enc old c)\<lparr>dl_accepted := new_ids old (c_submitted c')\<rparr>"
  define d2 where "d2 = d1\<lparr>dl_safe := safe_batches enc old c'\<rparr>"
  have "delivery_step\<^sup>*\<^sup>* (delivery_of enc old c) d1"
    using accept_many [of "delivery_of enc old c" "new_ids old news"] distinct_map_filter [of fst "c_submitted c'"] ok g(1)
    by (simp add: d1_def delivery_of_def batches_ok_def)
  moreover have "delivery_step\<^sup>*\<^sup>* d1 d2"
  proof -
    have "safe_batches enc old c' \<subseteq> set (dl_accepted d1)" by (auto simp: d1_def safe_batches_def)
    moreover from this have "finite (safe_batches enc old c')" by (rule finite_subset) simp
    moreover have "dl_safe d1 \<union> safe_batches enc old c' = safe_batches enc old c'" using g(3) by (auto simp: d1_def delivery_of_def)
    ultimately show ?thesis using secure_many [of "safe_batches enc old c'" d1] by (simp add: d2_def)
  qed
  moreover have "delivery_step\<^sup>*\<^sup>* d2 (d2\<lparr>dl_outcomes := dl_outcomes d2 @ ?out (new_ids old rs)\<rparr>)"
  proof (rule settle_many)
    have out: "dl_outcomes d2 @ ?out (new_ids old rs) = ?out (new_ids old (c_results c'))" by (simp add: d2_def d1_def delivery_of_def g(2))
    have ids: "map fst (?out xs) = map fst xs" for xs :: "(nat \<times> outcome) list" by (induction xs) auto
    show "distinct (map fst (dl_outcomes d2 @ ?out (new_ids old rs)))"
      unfolding out ids by (rule distinct_map_filter [OF result_ids(1) [OF ok]])
    show "fst ` set (?out (new_ids old rs)) \<subseteq> fst ` set (dl_accepted d2)"
      using result_ids(2) [OF ok] g(2) by (force simp: d2_def d1_def)
    show "b \<in> fst ` dl_safe d2" if "(b, True) \<in> set (?out (new_ids old rs))" for b
    proof -
      have "(b, Resolved) \<in> set (c_results c')" "b \<notin> old" using that g(2) by auto
      with ok have "safe_batch enc c' b" by (simp add: batches_ok_def)
      with \<open>b \<notin> old\<close> obtain evs where "(b, evs) \<in> safe_batches enc old c'" by (auto simp: safe_batch_def safe_batches_def)
      then show ?thesis by (force simp: d2_def)
    qed
  qed
  moreover have "d2\<lparr>dl_outcomes := dl_outcomes d2 @ ?out (new_ids old rs)\<rparr> = delivery_of enc old c'"
    by (simp add: d2_def d1_def delivery_of_def g(2))
  ultimately show ?thesis by (metis rtranclp_trans)
qed

section \<open>Every step grows\<close>

text \<open>The books: what \<open>delivery_of\<close> reads. Most of the client does not write in them.\<close>

definition books :: "'e client \<Rightarrow> _" where
  "books c = (c_submitted c, c_results c, c_acked c, fs_files (c_fs c))"

named_theorems books_frame \<open>functions that do not write in the books\<close>

lemma grows_books: "books c' = books c \<Longrightarrow> grows enc old c c'"
  by (simp add: books_def grows_def safe_batches_def on_disk_def)

lemma books_core: "core c' = core c \<Longrightarrow> books c' = books c"
  by (simp add: core_def books_def)

lemmas books_of_core [books_frame] = core_frame [THEN books_core]

lemma books_add [books_frame]: "books (add_task t c) = books c"
  by (simp add: books_def add_task_def)

lemma books_fields [books_frame]:
  "books (c\<lparr>c_tasks := a0\<rparr>) = books c"
  "books (c\<lparr>c_streamHealthy := a1\<rparr>) = books c"
  "books (c\<lparr>c_stream := a2\<rparr>) = books c"
  "books (c\<lparr>c_session := a3\<rparr>) = books c"
  "books (c\<lparr>c_streams := a4\<rparr>) = books c"
  "books (c\<lparr>c_reconnectAttempt := a6\<rparr>) = books c"
  "books (c\<lparr>c_inflight := a7\<rparr>) = books c"
  "books (c\<lparr>c_nextBatchId := a8\<rparr>) = books c"
  "books (c\<lparr>c_wals := a13\<rparr>) = books c"
  "books (c\<lparr>c_starts := a14\<rparr>) = books c"
  "books (c\<lparr>c_stops := a15\<rparr>) = books c"
  "books (c\<lparr>c_dropped := a17\<rparr>) = books c"
  "books (c\<lparr>c_notStarted := a18\<rparr>) = books c"
  "books (c\<lparr>c_loggedDropWhileIdle := a19\<rparr>) = books c"
  "books (c\<lparr>c_closed := a20\<rparr>) = books c"
  "books (c\<lparr>c_ended := a21\<rparr>) = books c"
  "books (c\<lparr>c_reconnectTimer := a22\<rparr>) = books c"
  "books (c\<lparr>c_controlReconnectTimer := a23\<rparr>) = books c"
  "books (c\<lparr>c_controlStream := a24\<rparr>) = books c"
  "books (c\<lparr>c_shuttingDown := a25\<rparr>) = books c"
  "books (c\<lparr>c_wal := a26\<rparr>) = books c"
  "books (c\<lparr>c_draining := a27\<rparr>) = books c"
  "books (c\<lparr>c_unhandled := a28\<rparr>) = books c"
  by (simp_all add: books_def)

lemma books_same_files: "fs_files f = fs_files (c_fs c) \<Longrightarrow> books (c\<lparr>c_wals := ws, c_fs := f\<rparr>) = books c"
  by (simp add: books_def)

lemma books_openStream [books_frame]: "books (openStream sid k c) = books c"
  by (simp add: openStream_def Let_def books_frame)

lemma books_sendOverStream [books_frame]: "books (sendOverStream s b evs t c) = books c"
  by (simp add: sendOverStream_def books_frame)

lemma books_drainHead [books_frame]: "books (drainHead c) = books c"
  by (simp add: drainHead_def books_frame split: option.splits)

lemma books_drainEntries [books_frame]: "books (drainEntries es c) = books c"
  by (simp add: drainEntries_def books_frame split: list.splits option.splits bool.splits)

lemma books_drain [books_frame]:
  "books (drainWAL c) = books c" "books (drainRejected err c) = books c" "books (drainListed dec i c) = books c"
  by (simp_all add: drainWAL_def drainRejected_def drainListed_def books_frame split: option.splits sum.splits list.splits)

lemma books_reconnected [books_frame]: "books (reconnected c) = books c"
  by (simp add: reconnected_def books_frame)

lemma books_walInit [books_frame]: "books (walInit dec disk i sid k c) = books c"
proof -
  obtain r w f where init: "wal_init dec disk (c_wals c ! i, c_fs c) = (r, w, f)" by (metis prod_cases3)
  with wal_init_files [OF init] show ?thesis
    by (simp add: walInit_def Let_def books_frame books_same_files split: sum.splits)
qed

lemma books_close [books_frame]:
  "books (closeReturns r k c) = books c" "books (closeStreams sid k c) = books c" "books (closeSession t k c) = books c"
  by (simp_all add: closeReturns_def openForCommand_def openSession_def closeStreams_def closeSession_def Let_def books_frame
      split: after_close.splits sum.splits option.splits)

lemma books_api [books_frame]:
  "books (start_client c) = books c" "books (stop_client t c) = books c" "books (reconnectTimerFires c) = books c"
  "books (handleSubscribeResponse cmd c) = books c" "books (sendRejected err b evs c) = books c"
  "books (sessionStarted tmp sid ko c) = books c" "books (stopReturned resp kc c) = books c"
  "books (onStreamError s err c) = books c"
  by (simp_all add: start_client_def stop_client_def reconnectTimerFires_def tryReconnect_def onStreamError_def
      handleSubscribeResponse_def sendRejected_def sessionStarted_def stopReturned_def openForCommand_def openSession_def
      closeControlStream_def clearControlReconnect_def Let_def books_frame
      split: option.splits bool.splits command.splits sum.splits)

text \<open>The steps that do write: submit, settle, acknowledge, and the three that touch the disk.\<close>

lemma grows_trans: "grows enc old c c' \<Longrightarrow> grows enc old c' c'' \<Longrightarrow> grows enc old c c''"
  unfolding grows_def by (metis append.assoc order_trans)

lemma grows_sendBatch: "grows enc old c (sendBatch evs c)"
proof (cases "c_session c")
  case None
  then have "books (sendBatch evs c) = books c" by (simp add: sendBatch_def books_frame)
  then show ?thesis by (rule grows_books)
next
  case (Some sid)
  let ?c = "c\<lparr>c_nextBatchId := c_nextBatchId c + 1, c_submitted := c_submitted c @ [(c_nextBatchId c, evs)]\<rparr>"
  have "grows enc old c ?c" by (auto simp: grows_def safe_batches_def)
  moreover have "books (sendBatch evs c) = books ?c"
    using Some by (simp add: sendBatch_def Let_def books_frame split: bool.splits option.splits)
  ultimately show ?thesis by (blast intro: grows_trans grows_books)
qed

lemma grows_settle: "grows enc old c (settle b r c)"
  by (simp add: grows_def safe_batches_def settle_def)

lemma grows_persistToWAL: "grows enc old c (persistToWAL enc dec disk wal b evs c)"
proof (cases wal)
  case (Some i)
  obtain r w f where chk: "append_check enc dec disk b evs (c_wals c ! i, c_fs c) = (r, w, f)" by (metis prod_cases3)
  let ?c = "c\<lparr>c_wals := (c_wals c)[i := w], c_fs := f\<rparr>"
  have c: "grows enc old c ?c" by (rule grows_books [OF books_same_files]) (use append_check_files [OF chk] in simp)
  have "grows enc old ?c (persistToWAL enc dec disk wal b evs c)"
    using Some chk by (simp add: persistToWAL_def Let_def grows_settle grows_books books_frame split: sum.splits option.splits)
  with c show ?thesis by (rule grows_trans)
qed (simp add: persistToWAL_def grows_settle)

lemma grows_fs:
  assumes "\<And>b evs. b \<notin> old \<Longrightarrow> (b, evs) \<in> set (c_submitted c) \<Longrightarrow> on_disk enc (c_fs c) b evs \<Longrightarrow>
      (b, evs) \<in> set (c_acked c) \<or> on_disk enc f b evs"
  shows "grows enc old c (c\<lparr>c_wals := ws, c_fs := f\<rparr>)"
  using assms by (auto simp: grows_def safe_batches_def)

lemma grows_onBatchAck: "grows enc old c (onBatchAck s b c)"
  by (auto simp: grows_def safe_batches_def onBatchAck_def Let_def)

lemma grows_persistWritten:
  assumes ok: "batches_ok enc old h c" and b: "(b, evs) \<in> set (c_submitted c)" "bs = enc evs b"
  shows "grows enc old c (persistWritten disk i b bs c)"
proof -
  obtain r w f where com: "append_commit disk b bs (c_wals c ! i, c_fs c) = (r, w, f)" by (metis prod_cases3)
  let ?c = "c\<lparr>c_wals := (c_wals c)[i := w], c_fs := f\<rparr>"
  have "grows enc old c ?c"
  proof (rule grows_fs)
    show "(b', x) \<in> set (c_acked c) \<or> on_disk enc f b' x"
      if "b' \<notin> old" "(b', x) \<in> set (c_submitted c)" "on_disk enc (c_fs c) b' x" for b' x
      using com
    proof (cases rule: append_commit_cases)
      case (1 part e)
      then show ?thesis using on_disk_write_tmp [OF that(3)] by simp
    next
      case (2 y)
      then show ?thesis using on_disk_fs_put [OF ok b(1) that(2,3)] b(2) by simp
    qed
  qed
  moreover have "grows enc old ?c (persistWritten disk i b bs c)"
  proof -
    have "books (scheduleReconnect c') = books c'" for c' :: "'a client" by (simp add: books_frame)
    then have "grows enc old ?c (scheduleReconnect (settle b Resolved ?c))" by (blast intro: grows_trans grows_settle grows_books)
    then show ?thesis using com by (simp add: persistWritten_def Let_def grows_settle split: sum.splits)
  qed
  ultimately show ?thesis by (rule grows_trans)
qed

lemma grows_drainRemove:
  assumes "batches_ok enc old h c" "entry_ok old (c_submitted c) e" "(entry_batchId e, entry_events e) \<in> set (c_acked c)"
  shows "grows enc old c (drainRemove fault e rest c)"
proof (cases "c_wal c")
  case (Some i)
  obtain r w f where rm: "wal_remove fault e (c_wals c ! i, c_fs c) = (r, w, f)" by (metis prod_cases3)
  then have "f = c_fs c \<or> fs_unlink (entry_filePath e) (c_fs c) = Inr f"
    by (auto simp: wal_remove_def split: option.splits sum.splits io_error.splits)
  then have "grows enc old c (c\<lparr>c_wals := (c_wals c)[i := w], c_fs := f\<rparr>)" (is "grows enc old c ?c")
    by (intro grows_fs on_disk_unlink [OF assms])
  moreover have "books (drainRemove fault e rest c) = books ?c"
    using Some rm by (simp add: drainRemove_def Let_def books_frame split: sum.splits)
  ultimately show ?thesis by (blast intro: grows_trans grows_books)
qed (simp add: drainRemove_def grows_books books_frame)

lemma grows_without: "grows enc old c (without xs ys c)"
  by (rule grows_books) (simp add: books_frame)

lemma grows_step:
  assumes "client_step enc dec tmp c c'" and ok: "batches_ok enc old [] c"
  shows "grows enc old c c'"
  using assms(1)
proof cases
  case (run_PersistStart xs wal b evs ys disk)
  then show ?thesis using grows_trans [OF grows_without grows_persistToWAL] by simp
next
  case (run_PersistWriting xs i b evs bs ys disk)
  note t = batches_ok_take [OF ok run_PersistWriting(2)]
  have "grows enc old (without xs ys c) c'"
    unfolding run_PersistWriting(1) by (rule grows_persistWritten [OF t(1)]) (use t(2) in simp_all)
  then show ?thesis by (rule grows_trans [OF grows_without])
next
  case (run_DrainRemoving xs e rest ys fault)
  note t = batches_ok_take [OF ok run_DrainRemoving(2)]
  have "grows enc old (without xs ys c) c'"
    unfolding run_DrainRemoving(1) by (rule grows_drainRemove [OF t(1)]) (use t(2) in simp_all)
  then show ?thesis by (rule grows_trans [OF grows_without])
qed (simp_all add: grows_sendBatch grows_onBatchAck grows_books books_frame)

interpretation dlv: forward_simulation "\<lambda>c. c = new_client cfg f \<and> codec_ok enc dec" "client_step enc dec tmp"
    "\<lambda>c. codec_ok enc dec \<and> batches_ok enc (log_ids f) [] c" "delivery_of enc (log_ids f)" delivery_new delivery_step
  for cfg f enc dec tmp
proof
  show "codec_ok enc dec \<and> batches_ok enc (log_ids f) [] s" if "s = new_client cfg f \<and> codec_ok enc dec" for s
    using that batches_ok_new by blast
  show "codec_ok enc dec \<and> batches_ok enc (log_ids f) [] t"
    if "codec_ok enc dec \<and> batches_ok enc (log_ids f) [] s" "client_step enc dec tmp s t" for s t
    using that batches_ok_step by blast
  show "delivery_of enc (log_ids f) s = delivery_new" if "s = new_client cfg f \<and> codec_ok enc dec" for s
    using that by (simp add: delivery_of_def delivery_new_def safe_batches_def new_client_def)
  show "delivery_step\<^sup>*\<^sup>* (delivery_of enc (log_ids f) s) (delivery_of enc (log_ids f) t)"
    if "codec_ok enc dec \<and> batches_ok enc (log_ids f) [] s" "client_step enc dec tmp s t" for s t
    using that grows_simulated [OF batches_ok_step grows_step] by blast
qed

text \<open>
  C2. The client implements the delivery specification, whatever its disk holds at the start: whatever happens (calls,
  acknowledgements, stream errors, timers, disk faults, a drain), what a run of the client does to its batches, promises and
  log is a run of the specification, which sees the batches whose ids no log file had at the start. So these ids are
  unique, every promise settles at most once, with success only when the batch is acknowledged or complete on disk, and a
  batch that is safe stays safe: it leaves the disk only after it was acknowledged.
\<close>

theorem client_refines_delivery:
  assumes "codec_ok enc dec" "reachable enc dec tmp cfg f c" "(client_step enc dec tmp)\<^sup>*\<^sup>* c c'"
  shows "delivery_step\<^sup>*\<^sup>* delivery_new (delivery_of enc (log_ids f) c) \<and>
    delivery_step\<^sup>*\<^sup>* (delivery_of enc (log_ids f) c) (delivery_of enc (log_ids f) c') \<and>
    delivery_ok (delivery_of enc (log_ids f) c') \<and> extends (delivery_of enc (log_ids f) c) (delivery_of enc (log_ids f) c')"
proof -
  have run: "(client_step enc dec tmp)\<^sup>*\<^sup>* (new_client cfg f) c" by (rule reachable_steps [OF assms(2)])
  have start: "new_client cfg f = new_client cfg f \<and> codec_ok enc dec" using assms(1) by simp
  have "codec_ok enc dec \<and> batches_ok enc (log_ids f) [] c" by (rule dlv.inv_reached [OF start run])
  from dlv.abs_steps [OF assms(3) this]
  have steps: "delivery_step\<^sup>*\<^sup>* (delivery_of enc (log_ids f) c) (delivery_of enc (log_ids f) c')" .
  moreover have "delivery_ok (delivery_of enc (log_ids f) c')"
    by (rule dlv.spec_transfer [where P = delivery_ok, OF delivery_ok_new delivery_ok_step start rtranclp_trans [OF run assms(3)]])
  ultimately show ?thesis using dlv.abs_reached [OF start run] delivery_extends by blast
qed

text \<open>The run of theory \<open>Client_Props\<close>: batch 1 was written to the log, and its promise resolved, before the client is stopped.\<close>

theorem client_refines_delivery_witness:
  "(1, True) \<in> set (dl_outcomes (delivery_of sample_enc (log_ids run_fs) run12)) \<and>
   delivery_step\<^sup>*\<^sup>* (delivery_of sample_enc (log_ids run_fs) run12) (delivery_of sample_enc (log_ids run_fs) run13) \<and>
   delivery_ok (delivery_of sample_enc (log_ids run_fs) run13) \<and>
   (\<exists>evs. (1, evs) \<in> dl_safe (delivery_of sample_enc (log_ids run_fs) run13))"
proof -
  let ?d = "delivery_of sample_enc (log_ids run_fs)"
  have "(client_step sample_enc sample_dec ''/t'')\<^sup>*\<^sup>* run12 run13"
    unfolding run13_def by (intro r_into_rtranclp call_stop)
  then have ref: "delivery_step\<^sup>*\<^sup>* (?d run12) (?d run13)" "delivery_ok (?d run13)" "extends (?d run12) (?d run13)"
    using client_refines_delivery [OF sample_codec_ok run_reachable12] by blast+
  have "(1, Resolved) \<in> set (c_results run12)" by code_simp
  then have out: "(1, True) \<in> set (dl_outcomes (?d run12))" by (force simp: delivery_of_def log_ids_def run_fs_def)
  with ref(3) have "(1, True) \<in> set (dl_outcomes (?d run13))" by (auto simp: extends_def)
  with ref(2) have "1 \<in> fst ` dl_safe (?d run13)" by (simp add: delivery_ok_def)
  with out ref show ?thesis by force
qed

end
