(* ===== verification/Drain.thy ===== *)
theory Drain
  imports Client_Steps
begin

text \<open>
  Liveness of the drain (\<open>drainWAL\<close> of \<open>sdk-node/src/client.ts\<close>): once a stream is healthy, a log
  whose batches the engine acknowledges and whose files can be deleted is emptied, oldest batch
  first, and the drain then ends. The log enters through the contract \<open>batch_log\<close> of theory \<open>Wal\<close>.
\<close>

definition log_of :: "nat \<Rightarrow> 'e client \<Rightarrow> wal \<times> fs" where
  "log_of i c = (c_wals c ! i, c_fs c)"

definition drain_ready :: "nat \<Rightarrow> nat \<Rightarrow> 'e client \<Rightarrow> bool" where
  "drain_ready i s c \<longleftrightarrow> c_wal c = Some i \<and> i < length (c_wals c) \<and> c_streamHealthy c \<and> c_stream c = Some s"

text \<open>The work that an acknowledgement on a stream could wake.\<close>

fun waits_on :: "nat \<Rightarrow> 'e task \<Rightarrow> bool" where
  "waits_on s (SendWaiting s' b evs) \<longleftrightarrow> s' = s"
| "waits_on s (DrainSending s' e rest) \<longleftrightarrow> s' = s"
| "waits_on s t \<longleftrightarrow> False"

lemma not_waiting:
  assumes "\<not> waits_on s t"
  shows "ack_task s b t = [t]" "acked_by s b t = []" "resolved_by s b t = []"
  using assms by (cases t; simp)+

lemma none_waiting:
  assumes "\<forall>t \<in> set ts. \<not> waits_on s t"
  shows "concat (map (ack_task s b) ts) = ts" "concat (map (acked_by s b) ts) = []"
    "concat (map (resolved_by s b) ts) = []"
  using assms by (induction ts) (simp_all add: not_waiting)

text \<open>What a drain of the entries \<open>es\<close> on stream \<open>s\<close> leaves behind.\<close>

definition drained :: "nat \<Rightarrow> nat \<Rightarrow> 'e wal_entry list \<Rightarrow> wal \<Rightarrow> fs \<Rightarrow> 'e client \<Rightarrow> 'e client" where
  "drained i s es w f c =
     c\<lparr>c_written := c_written c @ map (\<lambda>e. (s, Batch (entry_batchId e) (entry_events e))) es,
       c_acked := c_acked c @ map (\<lambda>e. (entry_batchId e, entry_events e)) es,
       c_wals := (c_wals c)[i := w], c_fs := f\<rparr>"

lemma drained_ready:
  assumes "drain_ready i s c"
  shows "drain_ready i s (drained i s es w f c)" "log_of i (drained i s es w f c) = (w, f)"
    "c_tasks (drained i s es w f c) = c_tasks c"
  using assms by (simp_all add: drain_ready_def drained_def log_of_def)

text \<open>One entry: it is written, acknowledged and removed, and the loop goes on with the rest.\<close>

lemma drain_one:
  assumes ready: "drain_ready i s c" and idle: "\<forall>t \<in> set (c_tasks c). \<not> waits_on s t"
    and rm: "log_rm e (log_of i c) = Some (w, f)"
  shows "(client_step enc dec tmp)\<^sup>*\<^sup>* (drainEntries (e # es) c) (drainEntries es (drained i s [e] w f c))"
proof -
  let ?b = "entry_batchId e" and ?evs = "entry_events e" and ?ts = "c_tasks c"
  define c1 where "c1 = c\<lparr>c_written := c_written c @ [(s, Batch ?b ?evs)], c_tasks := ?ts @ [DrainSending s e es]\<rparr>"
  define c2 where "c2 = c1\<lparr>c_tasks := ?ts @ [DrainRemoving e es], c_acked := c_acked c @ [(?b, ?evs)]\<rparr>"
  have start: "drainEntries (e # es) c = c1"
    using ready by (simp add: drainEntries_def drain_ready_def sendOverStream_def add_task_def write_stream_def c1_def)
  have "onBatchAck s ?b c1 = c2"
    using none_waiting [OF idle, of ?b] by (simp add: onBatchAck_def c1_def c2_def)
  moreover have "(s, Batch ?b ?evs) \<in> set (c_written c1)" by (simp add: c1_def)
  ultimately have ack: "client_step enc dec tmp c1 c2" by (metis client_step.batch_ack)
  have "wal_remove None e (c_wals c ! i, c_fs c) = (Inr (), w, f)"
    using rm by (auto simp: log_rm_def log_of_def split: prod.splits sum.splits)
  then have "drainRemove None e es (without ?ts [] c2) = drainEntries es (drained i s [e] w f c)"
    using ready by (simp add: drainRemove_def c2_def c1_def drained_def drain_ready_def Let_def)
  moreover have "c_tasks c2 = ?ts @ DrainRemoving e es # []" by (simp add: c2_def)
  ultimately have "client_step enc dec tmp c2 (drainEntries es (drained i s [e] w f c))"
    by (metis client_step.run_DrainRemoving option.distinct(1))
  with ack start show ?thesis by simp
qed

lemma drained_append:
  assumes "drain_ready i s c"
  shows "drained i s es w' f' (drained i s [e] w f c) = drained i s (e # es) w' f' c"
  using assms by (simp add: drained_def drain_ready_def)

lemma drain_all:
  assumes "drain_ready i s c" "\<forall>t \<in> set (c_tasks c). \<not> waits_on s t"
    and "wal_inv enc dec (log_of i c)" "log_lst dec (log_of i c) = Some es"
  shows "\<exists>w f. (client_step enc dec tmp)\<^sup>*\<^sup>* (drainEntries es c) (add_task (DrainList i) (drained i s es w f c)) \<and>
    wal_inv enc dec (w, f) \<and> log_lst dec (w, f) = Some []"
  using assms
proof (induction es arbitrary: c)
  case Nil
  have "drainEntries [] c = add_task (DrainList i) (drained i s [] (c_wals c ! i) (c_fs c) c)"
    using Nil.prems(1) by (simp add: drainEntries_def drainHead_def drain_ready_def drained_def)
  with Nil.prems(3,4) show ?case by (metis log_of_def rtranclp.rtrancl_refl)
next
  case (Cons e es)
  obtain w1 f1 where one: "log_rm e (log_of i c) = Some (w1, f1)" "wal_inv enc dec (w1, f1)"
    "log_lst dec (w1, f1) = Some es"
    using wl.rm_head [OF Cons.prems(3,4)] by auto
  let ?c = "drained i s [e] w1 f1 c"
  note r = drained_ready [OF Cons.prems(1), of "[e]" w1 f1]
  have idle: "\<forall>t \<in> set (c_tasks ?c). \<not> waits_on s t" using Cons.prems(2) by (simp add: r(3))
  obtain w f where rest: "(client_step enc dec tmp)\<^sup>*\<^sup>* (drainEntries es ?c) (add_task (DrainList i) (drained i s es w f ?c))"
    "wal_inv enc dec (w, f)" "log_lst dec (w, f) = Some []"
    using Cons.IH [OF r(1) idle] one(2,3) unfolding r(2) by blast
  show ?case
    using rtranclp_trans [OF drain_one [OF Cons.prems(1,2) one(1)] rest(1)] rest(2,3)
    unfolding drained_append [OF Cons.prems(1)] by blast
qed

lemma drainListed_empty:
  assumes "drain_ready i s c" "log_lst dec (log_of i c) = Some []"
  shows "drainListed dec i c = drainDone c"
  using assms by (simp add: drainListed_def drain_ready_def log_of_def log_lst_def split: sum.splits)

lemma drain_listed:
  assumes ready: "drain_ready i s c" and idle: "\<forall>t \<in> set (c_tasks c). \<not> waits_on s t"
    and inv: "wal_inv enc dec (log_of i c)" and lst: "log_lst dec (log_of i c) = Some es"
  shows "\<exists>w f. (client_step enc dec tmp)\<^sup>*\<^sup>* (drainListed dec i c) (drainDone (drained i s es w f c)) \<and>
    wal_inv enc dec (w, f) \<and> log_lst dec (w, f) = Some []"
proof (cases es)
  case Nil
  have "c = drained i s [] (c_wals c ! i) (c_fs c) c" by (simp add: drained_def)
  with drainListed_empty [OF ready] lst inv Nil show ?thesis
    by (metis log_of_def rtranclp.rtrancl_refl)
next
  case (Cons e rest)
  then have "drainListed dec i c = drainEntries es c"
    using ready lst by (simp add: drainListed_def drain_ready_def log_lst_def log_of_def split: sum.splits)
  then obtain w f where run: "(client_step enc dec tmp)\<^sup>*\<^sup>* (drainListed dec i c) (add_task (DrainList i) (drained i s es w f c))"
    and log: "wal_inv enc dec (w, f)" "log_lst dec (w, f) = Some []"
    using drain_all [OF assms] by metis
  let ?last = "drained i s es w f c"
  have "client_step enc dec tmp (add_task (DrainList i) ?last) (drainListed dec i (without (c_tasks c) [] (add_task (DrainList i) ?last)))"
    by (rule client_step.run_DrainList) (simp add: add_task_def drained_ready(3) [OF ready])
  moreover have "without (c_tasks c) [] (add_task (DrainList i) ?last) = ?last"
    by (simp add: add_task_def drained_def)
  moreover have "drainListed dec i ?last = drainDone ?last"
    using drainListed_empty [OF drained_ready(1) [OF ready]] drained_ready(2) [OF ready] log(2) by metis
  ultimately have "client_step enc dec tmp (add_task (DrainList i) ?last) (drainDone ?last)" by metis
  with run log show ?thesis by (meson rtranclp.rtrancl_into_rtrancl)
qed

text \<open>
  C3. The drain empties the log: from any state in which a drain is about to list a well-formed log
  over a healthy stream, acknowledgements of the batches it writes and deletions that work lead to
  a state where the log is empty and no drain runs; every batch of the log was written to that
  stream once, in ascending order, and acknowledged, and nothing else has changed.
\<close>

theorem drain_empties_log:
  assumes "drain_ready i s c" "wal_inv enc dec (log_of i c)" "c_tasks c = xs @ DrainList i # ys"
    and "\<forall>t \<in> set (xs @ ys). \<not> waits_on s t"
  shows "\<exists>es w f. wal_list dec (c_wals c ! i) (c_fs c) = Inr es \<and> sorted_wrt (<) (map entry_batchId es) \<and>
    (client_step enc dec tmp)\<^sup>*\<^sup>* c
      (c\<lparr>c_tasks := xs @ ys, c_draining := False, c_wals := (c_wals c)[i := w], c_fs := f,
         c_written := c_written c @ map (\<lambda>e. (s, Batch (entry_batchId e) (entry_events e))) es,
         c_acked := c_acked c @ map (\<lambda>e. (entry_batchId e, entry_events e)) es\<rparr>) \<and>
    wal_inv enc dec (w, f) \<and> wal_list dec w f = Inr []"
proof -
  let ?c = "without xs ys c"
  have ready: "drain_ready i s ?c" and log: "log_of i ?c = log_of i c"
    using assms(1) by (simp_all add: drain_ready_def log_of_def)
  obtain es where es: "log_lst dec (log_of i ?c) = Some es" "sorted_wrt (<) (map entry_batchId es)"
    using wl.lst_sorted [OF assms(2)] log by metis
  obtain w f where run: "(client_step enc dec tmp)\<^sup>*\<^sup>* (drainListed dec i ?c) (drainDone (drained i s es w f ?c))"
    and fin: "wal_inv enc dec (w, f)" "log_lst dec (w, f) = Some []"
    using drain_listed [OF ready, of enc dec es tmp] assms(2,4) es(1) log by auto
  have "client_step enc dec tmp c (drainListed dec i ?c)" by (rule client_step.run_DrainList [OF assms(3)])
  with run have "(client_step enc dec tmp)\<^sup>*\<^sup>* c (drainDone (drained i s es w f ?c))" by simp
  also have "drainDone (drained i s es w f ?c) =
      c\<lparr>c_tasks := xs @ ys, c_draining := False, c_wals := (c_wals c)[i := w], c_fs := f,
         c_written := c_written c @ map (\<lambda>e. (s, Batch (entry_batchId e) (entry_events e))) es,
         c_acked := c_acked c @ map (\<lambda>e. (entry_batchId e, entry_events e)) es\<rparr>"
    by (simp add: drainDone_def drained_def)
  finally have steps: "(client_step enc dec tmp)\<^sup>*\<^sup>* c \<dots>" .
  have "wal_list dec (c_wals c ! i) (c_fs c) = Inr es" "wal_list dec w f = Inr []"
    using es(1) fin(2) log by (simp_all add: log_lst_def log_of_def split: sum.splits)
  with steps es(2) fin(1) show ?thesis by blast
qed

definition drain_cfg :: client_config where
  "drain_cfg = \<lparr>cfg_apiKey = ''k'', cfg_sessionName = ''s'', cfg_sessionLabels = None, cfg_remote = None,
     cfg_walDir = Some ''/w'', cfg_walMaxBytes = None, cfg_walDisabled = False, cfg_initialBackoffMs = None,
     cfg_maxBackoffMs = None\<rparr>"

definition drain_client :: "unit client" where
  "drain_client = (new_client drain_cfg sample_fs)\<lparr>c_wal := Some 0, c_wals := [sample_wal], c_streams := 1,
     c_stream := Some 0, c_streamHealthy := True, c_draining := True, c_tasks := [DrainList 0]\<rparr>"

theorem drain_empties_log_witness:
  "\<exists>c'. (client_step sample_enc sample_dec [])\<^sup>*\<^sup>* drain_client c' \<and> \<not> c_draining c' \<and> c_tasks c' = [] \<and>
     wal_list sample_dec (c_wals c' ! 0) (c_fs c') = Inr []"
proof -
  have ready: "drain_ready 0 0 drain_client" and tasks: "c_tasks drain_client = [] @ DrainList 0 # []"
    and inv: "wal_inv sample_enc sample_dec (log_of 0 drain_client)"
    using sample_inv by (simp_all add: drain_ready_def drain_client_def log_of_def new_client_def)
  have "\<forall>t \<in> set ([] @ []). \<not> waits_on 0 (t :: unit task)" by simp
  from drain_empties_log [OF ready inv tasks this, of "[]"] obtain w f c' where
    "(client_step sample_enc sample_dec [])\<^sup>*\<^sup>* drain_client c'" "wal_list sample_dec w f = Inr []"
    "\<not> c_draining c'" "c_tasks c' = []" "c_wals c' = (c_wals drain_client)[0 := w]" "c_fs c' = f"
    by (elim exE conjE) fastforce
  then show ?thesis by (intro exI [of _ c']) (simp add: drain_client_def)
qed

end
