(* ===== verification/Drain_Ends.thy ===== *)
theory Drain_Ends
  imports Client_Props
begin

text \<open>
  The drain comes to an end (\<open>drainWAL\<close> of \<open>sdk-node/src/client.ts\<close>). Its outer loop lists the log
  until a listing is empty, and nothing in the source bounds the number of rounds. Theory \<open>Drain\<close>
  shows that the drain can empty the log; here every run of the client is considered, with any
  answers, stream errors and refusals of the disk: a drain can go on forever only if batches keep
  being written to the log, or drains keep being started.
\<close>

section \<open>A measure of what a drain has left to do\<close>

abbreviation fs_paths :: "fs \<Rightarrow> string set" where
  "fs_paths f \<equiv> fst ` set (fs_files f)"

text \<open>The files a drain task still has in its hands.\<close>

fun todo :: "'e task \<Rightarrow> string set" where
  "todo (DrainSending s e rest) = entry_filePath ` set (e # rest)"
| "todo (DrainRemoving e rest) = entry_filePath ` set (e # rest)"
| "todo t = {}"

text \<open>How many files a later listing can return, and the steps until that listing.\<close>

definition later_files :: "string set \<Rightarrow> 'e task \<Rightarrow> nat" where
  "later_files F t = (case t of DrainRejected err \<Rightarrow> 0 | _ \<Rightarrow> if is_drain t then card (F - todo t) else 0)"

fun steps_left :: "'e task \<Rightarrow> nat" where
  "steps_left (DrainList i) = 1"
| "steps_left (DrainSending s e rest) = 3 + 2 * length rest"
| "steps_left (DrainRemoving e rest) = 2 + 2 * length rest"
| "steps_left (DrainRejected err) = 1"
| "steps_left t = 0"

definition drain_measure :: "string set \<Rightarrow> 'e task list \<Rightarrow> nat \<times> nat" where
  "drain_measure F ts = (sum_list (map (later_files F) ts), sum_list (map steps_left ts))"

abbreviation lex_less :: "nat \<times> nat \<Rightarrow> nat \<times> nat \<Rightarrow> bool" where
  "lex_less a b \<equiv> fst a < fst b \<or> fst a \<le> fst b \<and> snd a < snd b"

lemma wf_lex_less: "wf {(a, b). lex_less a b}"
proof (rule wf_subset [OF wf_lex_prod [OF wf_less_than wf_less_than]])
  show "{(a, b). lex_less a b} \<subseteq> less_than <*lex*> less_than" by auto
qed

lemma not_drain_measure [simp]: "\<not> is_drain t \<Longrightarrow> later_files F t = 0" "\<not> is_drain t \<Longrightarrow> steps_left t = 0"
  by (cases t; simp add: later_files_def)+

lemma drain_steps_pos: "is_drain t \<Longrightarrow> 0 < steps_left t"
  by (cases t) simp_all

text \<open>Only the drain tasks count.\<close>

lemma drain_measure_filter: "drain_measure F (filter is_drain ts) = drain_measure F ts"
  by (induction ts) (auto simp: drain_measure_def)

lemma later_files_mono:
  assumes "finite F" "F' \<subseteq> F"
  shows "later_files F' t \<le> later_files F t"
proof -
  have "card (F' - todo t) \<le> card (F - todo t)" using assms by (intro card_mono) auto
  moreover have "card F' \<le> card F" using assms by (intro card_mono)
  ultimately show ?thesis by (cases t) (simp_all add: later_files_def)
qed

lemma sum_later_files_mono:
  "finite F \<Longrightarrow> F' \<subseteq> F \<Longrightarrow> sum_list (map (later_files F') ts) \<le> sum_list (map (later_files F) ts)"
  by (intro sum_list_mono later_files_mono)

text \<open>
  Replacing one task by at most one other decreases the measure when it decreases for that task,
  whatever else is pending.
\<close>

definition task_less :: "string set \<Rightarrow> 'e task list \<Rightarrow> string set \<Rightarrow> 'e task \<Rightarrow> bool" where
  "task_less F' us F t \<longleftrightarrow> F' \<subseteq> F \<and> lex_less (drain_measure F' us) (later_files F t, steps_left t)"

lemma measure_replace:
  assumes "finite F" "task_less F' us F t"
  shows "lex_less (drain_measure F' (xs @ ys @ us)) (drain_measure F (xs @ t # ys))"
  using assms sum_later_files_mono [of F F' xs] sum_later_files_mono [of F F' ys]
  by (auto simp: task_less_def drain_measure_def)

section \<open>The steps of a drain\<close>

lemma wal_list_on_disk:
  assumes "wal_list dec w f = Inr es" "e \<in> set es"
  shows "entry_filePath e \<in> fs_paths f"
proof -
  from assms obtain xs where "read_entries dec (wal_sessionDir w) f xs = Inr es"
    by (auto simp: wal_list_def split: sum.splits io_error.splits)
  from read_entries_mem [OF this assms(2)] show ?thesis by (metis map_of_SomeD fst_conv image_eqI)
qed

lemma finite_paths [simp]: "finite (fs_paths f)"
  by simp

lemma paths_delete: "fst ` set (dict_del p d) = fst ` set d - {p}"
proof -
  have "set (map fst (dict_del p d)) = set (map fst d) - {p}" unfolding delete_keys by simp
  then show ?thesis by simp
qed

text \<open>What a continuation of the drain leaves in its place.\<close>

lemma drainEntries_tasks:
  obtains us where "c_tasks (drainEntries es c) = c_tasks c @ us" "c_fs (drainEntries es c) = c_fs c"
    "us = [] \<or> es = [] \<and> (\<exists>i. us = [DrainList i]) \<or> (\<exists>s e rest. es = e # rest \<and> us = [DrainSending s e rest])"
proof -
  have "\<exists>us. c_tasks (drainEntries es c) = c_tasks c @ us \<and> c_fs (drainEntries es c) = c_fs c \<and>
    (us = [] \<or> es = [] \<and> (\<exists>i. us = [DrainList i]) \<or> (\<exists>s e rest. es = e # rest \<and> us = [DrainSending s e rest]))"
    by (auto simp: drainEntries_def drainHead_def drainDone_def add_task_def sendOverStream_def write_stream_def
        split: list.splits option.splits bool.splits)
  then show ?thesis using that by blast
qed

lemma drainListed_tasks:
  fixes c :: "'e client"
  defines "F \<equiv> fs_paths (c_fs c)"
  obtains us where "c_tasks (drainListed dec i c) = c_tasks c @ us" "fs_paths (c_fs (drainListed dec i c)) = F"
    "task_less F us F (DrainList i :: 'e task)"
proof -
  have none: "task_less F [] F (DrainList i :: 'e task)" by (simp add: task_less_def drain_measure_def)
  show ?thesis
  proof (cases "\<exists>e rest. wal_list dec (c_wals c ! i) (c_fs c) = Inr (e # rest)")
    case True
    then obtain e rest where l: "wal_list dec (c_wals c ! i) (c_fs c) = Inr (e # rest)" by blast
    then have run: "drainListed dec i c = drainEntries (e # rest) c" by (simp add: drainListed_def)
    have "entry_filePath e \<in> F" using wal_list_on_disk [OF l] by (simp add: F_def)
    then have "card (F - entry_filePath ` set (e # rest)) < card F"
      by (intro psubset_card_mono) (auto simp: F_def)
    then have some: "task_less F [DrainSending s e rest] F (DrainList i :: 'e task)" for s
      by (simp add: task_less_def drain_measure_def later_files_def)
    obtain us where "c_tasks (drainEntries (e # rest) c) = c_tasks c @ us"
      "c_fs (drainEntries (e # rest) c) = c_fs c" "us = [] \<or> (\<exists>s. us = [DrainSending s e rest])"
      by (rule drainEntries_tasks [of "e # rest" c]) auto
    with none some that run show ?thesis by (metis F_def)
  next
    case False
    then have "c_tasks (drainListed dec i c) = c_tasks c @ [] \<and> c_fs (drainListed dec i c) = c_fs c"
      by (auto simp: drainListed_def drainDone_def split: sum.splits list.splits)
    with none that show ?thesis by (metis F_def)
  qed
qed

lemma drainRemove_tasks:
  fixes c :: "'e client"
  defines "F \<equiv> fs_paths (c_fs c)"
  assumes "fault \<noteq> Some ENOENT"
  obtains us where "c_tasks (drainRemove fault e rest c) = c_tasks c @ us"
    "task_less (fs_paths (c_fs (drainRemove fault e rest c))) us F (DrainRemoving e rest :: 'e task)"
proof -
  let ?t = "DrainRemoving e rest :: 'e task"
  have none: "task_less F [] F ?t" by (simp add: task_less_def drain_measure_def)
  show ?thesis
  proof (cases "c_wal c")
    case None
    with none that [of "[]"] show ?thesis by (simp add: drainRemove_def drainDone_def F_def)
  next
    case (Some i)
    obtain r w f where rm: "wal_remove fault e (c_wals c ! i, c_fs c) = (r, w, f)" by (metis prod_cases3)
    show ?thesis
    proof (cases r)
      case (Inl err)
      with rm have "f = c_fs c" by (auto simp: wal_remove_def split: option.splits sum.splits io_error.splits)
      with Inl Some rm have "c_tasks (drainRemove fault e rest c) = c_tasks c @ []"
        "c_fs (drainRemove fault e rest c) = c_fs c"
        using core_markStreamFailed [of "wal_rpc_error err" "c\<lparr>c_wals := (c_wals c)[i := w], c_fs := f\<rparr>"]
        by (simp_all add: drainRemove_def drainDone_def core_def)
      with none that show ?thesis by (metis F_def)
    next
      case (Inr u)
      then have "f = (c_fs c)\<lparr>fs_files := dict_del (entry_filePath e) (fs_files (c_fs c))\<rparr> \<or>
          f = c_fs c \<and> dict_get (fs_files (c_fs c)) (entry_filePath e) = None"
        using rm assms(2) by (auto simp: wal_remove_def fs_unlink_def split: option.splits sum.splits io_error.splits)
      then have gone: "fs_paths f = F - {entry_filePath e}"
      proof
        assume "f = c_fs c \<and> dict_get (fs_files (c_fs c)) (entry_filePath e) = None"
        then show ?thesis unfolding F_def map_of_eq_None_iff by blast
      qed (simp add: F_def paths_delete)
      let ?c = "c\<lparr>c_wals := (c_wals c)[i := w], c_fs := f\<rparr>"
      have run: "drainRemove fault e rest c = drainEntries rest ?c"
        using Some rm Inr by (simp add: drainRemove_def)
      obtain us where us: "c_tasks (drainEntries rest ?c) = c_tasks c @ us" "c_fs (drainEntries rest ?c) = f"
        "us = [] \<or> rest = [] \<and> (\<exists>i. us = [DrainList i]) \<or> (\<exists>s e rest'. rest = e # rest' \<and> us = [DrainSending s e rest'])"
        by (rule drainEntries_tasks [of rest ?c]) simp
      have "F - {entry_filePath e} - entry_filePath ` set rest = F - entry_filePath ` set (e # rest)" by auto
      with us(3) gone have "task_less (fs_paths f) us F ?t"
        by (auto simp: task_less_def drain_measure_def later_files_def)
      with us that run show ?thesis by metis
    qed
  qed
qed

section \<open>Acknowledgements and errors\<close>

lemma drain_measure_append:
  "drain_measure F (xs @ ys) =
     (fst (drain_measure F xs) + fst (drain_measure F ys), snd (drain_measure F xs) + snd (drain_measure F ys))"
  by (simp add: drain_measure_def)

definition drains_on :: "string set \<Rightarrow> 'e task list \<Rightarrow> 'e task list \<Rightarrow> bool" where
  "drains_on F us ts \<longleftrightarrow>
     filter is_drain us = filter is_drain ts \<or> lex_less (drain_measure F us) (drain_measure F ts)"

lemma drains_on_append:
  assumes "drains_on F us ts" "drains_on F us' ts'"
  shows "drains_on F (us @ us') (ts @ ts')"
proof -
  have eq: "filter is_drain a = filter is_drain b \<Longrightarrow> drain_measure F a = drain_measure F b" for a b :: "'a task list"
    by (metis drain_measure_filter)
  from assms show ?thesis
    unfolding drains_on_def by (elim disjE) (auto simp: drain_measure_append dest!: eq)
qed

lemma drains_on_map:
  "(\<And>t. drains_on F (g t) [t]) \<Longrightarrow> drains_on F (concat (map g ts)) ts"
proof (induction ts)
  case (Cons t ts)
  from drains_on_append [OF Cons.prems Cons.IH [OF Cons.prems], of t] show ?case by simp
qed (simp add: drains_on_def)

lemma ack_drains_on: "drains_on F (ack_task s b t) [t]"
  by (cases t) (auto simp: drains_on_def drain_measure_def later_files_def)

lemma reject_drains_on: "drains_on F (map (reject_task s err) ts) ts"
proof -
  have "drains_on F [reject_task s err t] [t]" for t :: "'a task"
    by (cases t) (auto simp: drains_on_def drain_measure_def later_files_def)
  from drains_on_map [of F "\<lambda>t. [reject_task s err t]", OF this] show ?thesis by (simp add: concat_map_singleton)
qed

section \<open>Everything else leaves the drain alone\<close>

definition drain_view :: "'e client \<Rightarrow> 'e task list \<times> string set" where
  "drain_view c = (filter is_drain (c_tasks c), fs_paths (c_fs c))"

named_theorems drain_frame \<open>functions that do not touch the drain or the files\<close>

lemma drain_view_core: "core c' = core c \<Longrightarrow> drain_view c' = drain_view c"
  by (simp add: core_def drain_view_def)

lemmas drain_view_frame [drain_frame] = core_frame [THEN drain_view_core]

lemma drain_view_add [drain_frame]: "\<not> is_drain t \<Longrightarrow> drain_view (add_task t c) = drain_view c"
  by (simp add: drain_view_def add_task_def)

lemma drain_view_fields [drain_frame]:
  "drain_view (c\<lparr>c_streamHealthy := a1\<rparr>) = drain_view c"
  "drain_view (c\<lparr>c_stream := a2\<rparr>) = drain_view c"
  "drain_view (c\<lparr>c_session := a3\<rparr>) = drain_view c"
  "drain_view (c\<lparr>c_streams := a4\<rparr>) = drain_view c"
  "drain_view (c\<lparr>c_reconnectAttempt := a6\<rparr>) = drain_view c"
  "drain_view (c\<lparr>c_inflight := a7\<rparr>) = drain_view c"
  "drain_view (c\<lparr>c_nextBatchId := a8\<rparr>) = drain_view c"
  "drain_view (c\<lparr>c_submitted := a9\<rparr>) = drain_view c"
  "drain_view (c\<lparr>c_results := a10\<rparr>) = drain_view c"
  "drain_view (c\<lparr>c_wals := a13\<rparr>) = drain_view c"
  "drain_view (c\<lparr>c_starts := a14\<rparr>) = drain_view c"
  "drain_view (c\<lparr>c_stops := a15\<rparr>) = drain_view c"
  "drain_view (c\<lparr>c_dropped := a17\<rparr>) = drain_view c"
  "drain_view (c\<lparr>c_notStarted := a18\<rparr>) = drain_view c"
  "drain_view (c\<lparr>c_loggedDropWhileIdle := a19\<rparr>) = drain_view c"
  "drain_view (c\<lparr>c_closed := a20\<rparr>) = drain_view c"
  "drain_view (c\<lparr>c_ended := a21\<rparr>) = drain_view c"
  "drain_view (c\<lparr>c_reconnectTimer := a22\<rparr>) = drain_view c"
  "drain_view (c\<lparr>c_controlReconnectTimer := a23\<rparr>) = drain_view c"
  "drain_view (c\<lparr>c_controlStream := a24\<rparr>) = drain_view c"
  "drain_view (c\<lparr>c_shuttingDown := a25\<rparr>) = drain_view c"
  "drain_view (c\<lparr>c_wal := a26\<rparr>) = drain_view c"
  "drain_view (c\<lparr>c_draining := a27\<rparr>) = drain_view c"
  by (simp_all add: drain_view_def)

lemma drain_view_take: "c_tasks c = xs @ t # ys \<Longrightarrow> \<not> is_drain t \<Longrightarrow> drain_view (without xs ys c) = drain_view c"
  by (simp add: drain_view_def)

lemma drain_view_settle [drain_frame]: "drain_view (settle b r c) = drain_view c"
  by (simp add: settle_def drain_frame)

lemma drain_view_openStream [drain_frame]:
  "(\<And>s. \<not> is_drain (k s)) \<Longrightarrow> drain_view (openStream sid k c) = drain_view c"
  by (simp add: openStream_def Let_def drain_frame)

lemma drain_view_same_files:
  "fs_files f = fs_files (c_fs c) \<Longrightarrow> drain_view (c\<lparr>c_wals := ws, c_fs := f\<rparr>) = drain_view c"
  by (simp add: drain_view_def)

lemma drain_view_persistToWAL [drain_frame]: "drain_view (persistToWAL enc dec disk wal b evs c) = drain_view c"
proof (cases wal)
  case (Some i)
  obtain r w f where chk: "append_check enc dec disk b evs (c_wals c ! i, c_fs c) = (r, w, f)" by (metis prod_cases3)
  with append_check_files [OF chk] Some show ?thesis
    by (simp add: persistToWAL_def Let_def drain_frame drain_view_same_files split: sum.splits option.splits)
qed (simp add: persistToWAL_def drain_frame)

lemma drain_view_walInit [drain_frame]: "drain_view (walInit dec disk i sid k c) = drain_view c"
proof -
  obtain r w f where init: "wal_init dec disk (c_wals c ! i, c_fs c) = (r, w, f)" by (metis prod_cases3)
  with wal_init_files [OF init] show ?thesis
    by (simp add: walInit_def Let_def drain_frame drain_view_same_files split: sum.splits)
qed

lemma drain_view_closeReturns [drain_frame]: "drain_view (closeReturns r k c) = drain_view c"
  by (simp add: closeReturns_def openForCommand_def openSession_def drain_frame split: after_close.splits sum.splits)

lemma drain_view_closeStreams [drain_frame]: "drain_view (closeStreams sid k c) = drain_view c"
  by (simp add: closeStreams_def Let_def drain_frame split: option.splits)

lemma drain_view_closeSession [drain_frame]: "drain_view (closeSession t k c) = drain_view c"
  by (simp add: closeSession_def drain_frame split: option.splits)

lemma drain_view_api [drain_frame]:
  "drain_view (start_client c) = drain_view c" "drain_view (sendBatch evs c) = drain_view c"
  "drain_view (stop_client t c) = drain_view c" "drain_view (reconnectTimerFires c) = drain_view c"
  "drain_view (handleSubscribeResponse cmd c) = drain_view c" "drain_view (sendRejected err b evs c) = drain_view c"
  "drain_view (sessionStarted tmp sid ko c) = drain_view c" "drain_view (stopReturned resp kc c) = drain_view c"
  by (simp_all add: start_client_def sendBatch_def stop_client_def reconnectTimerFires_def tryReconnect_def
      handleSubscribeResponse_def sendRejected_def sessionStarted_def stopReturned_def openForCommand_def openSession_def
      sendOverStream_def closeControlStream_def clearControlReconnect_def Let_def drain_frame
      split: option.splits bool.splits command.splits sum.splits)

lemma persistWritten_drain: "filter is_drain (c_tasks (persistWritten disk i b bs c)) = filter is_drain (c_tasks c)"
  by (simp add: persistWritten_def settle_def scheduleReconnect_def Let_def split: prod.splits sum.splits)

lemma reconnected_drain:
  "drain_view (reconnected c) = drain_view c \<or> \<not> c_draining c \<and> c_draining (reconnected c)"
  by (auto simp: reconnected_def drainWAL_def drainHead_def drain_frame add_task_def split: option.splits)

section \<open>Every step\<close>

abbreviation client_measure :: "'e client \<Rightarrow> nat \<times> nat" where
  "client_measure c \<equiv> drain_measure (fs_paths (c_fs c)) (c_tasks c)"

text \<open>A step feeds the drain if it creates a file or starts a drain.\<close>

definition feeds :: "'e client \<Rightarrow> 'e client \<Rightarrow> bool" where
  "feeds c c' \<longleftrightarrow> \<not> fs_paths (c_fs c') \<subseteq> fs_paths (c_fs c) \<or> \<not> c_draining c \<and> c_draining c'"

definition rests :: "'e client \<Rightarrow> 'e client \<Rightarrow> bool" where
  "rests c c' \<longleftrightarrow> filter is_drain (c_tasks c') = filter is_drain (c_tasks c) \<and> fs_paths (c_fs c') \<subseteq> fs_paths (c_fs c)"

lemma rests_view: "drain_view c' = drain_view c \<Longrightarrow> rests c c'"
  by (simp add: rests_def drain_view_def)

lemma rests_measure: "rests c c' \<Longrightarrow> fst (client_measure c') \<le> fst (client_measure c) \<and> snd (client_measure c') = snd (client_measure c)"
proof -
  assume r: "rests c c'"
  let ?ts = "filter is_drain (c_tasks c)"
  have "client_measure c' = drain_measure (fs_paths (c_fs c')) ?ts" "client_measure c = drain_measure (fs_paths (c_fs c)) ?ts"
    using r by (metis drain_measure_filter rests_def)+
  with r sum_later_files_mono [of "fs_paths (c_fs c)" "fs_paths (c_fs c')" ?ts] show ?thesis
    by (simp add: drain_measure_def rests_def)
qed

lemma drain_progress:
  assumes "client_step enc dec tmp c c'"
  shows "rests c c' \<or> lex_less (client_measure c') (client_measure c) \<or> feeds c c'"
  using assms
proof cases
  case (run_DrainList xs i ys)
  obtain us where us: "c_tasks c' = (xs @ ys) @ us" "fs_paths (c_fs c') = fs_paths (c_fs c)"
    "task_less (fs_paths (c_fs c)) us (fs_paths (c_fs c)) (DrainList i :: 'a task)"
    unfolding run_DrainList(1) by (rule drainListed_tasks [of dec i "without xs ys c"]) simp
  with measure_replace [OF _ us(3), of xs ys] run_DrainList(2) show ?thesis by simp
next
  case (run_DrainRemoving xs e rest ys fault)
  obtain us where us: "c_tasks c' = (xs @ ys) @ us"
    "task_less (fs_paths (c_fs c')) us (fs_paths (c_fs c)) (DrainRemoving e rest :: 'a task)"
    unfolding run_DrainRemoving(1) by (rule drainRemove_tasks [OF run_DrainRemoving(3), of e rest "without xs ys c"]) simp
  with measure_replace [OF _ us(2), of xs ys] run_DrainRemoving(2) show ?thesis by simp
next
  case (run_DrainRejected xs err ys)
  have "core c' = core (without xs ys c)" by (simp add: run_DrainRejected(1) drainRejected_def core_frame)
  then have "c_tasks c' = xs @ ys @ []" "c_fs c' = c_fs c" by (simp_all add: core_def)
  moreover have "task_less (fs_paths (c_fs c)) [] (fs_paths (c_fs c)) (DrainRejected err :: 'a task)"
    by (simp add: task_less_def drain_measure_def)
  from measure_replace [OF finite_paths this, of xs ys]
  have "lex_less (drain_measure (fs_paths (c_fs c)) (xs @ ys @ [])) (client_measure c)" by (simp only: run_DrainRejected(2))
  ultimately show ?thesis by simp
next
  case (batch_ack s b evs)
  then have "c_tasks c' = concat (map (ack_task s b) (c_tasks c))" "c_fs c' = c_fs c"
    by (simp_all add: onBatchAck_def)
  with drains_on_map [where g = "ack_task s b", OF ack_drains_on] show ?thesis by (auto simp: drains_on_def rests_def)
next
  case (stream_error s err)
  then have "c_tasks c' = map (reject_task s err) (c_tasks c)" "c_fs c' = c_fs c"
    using core_markStreamFailed [of err c] by (simp_all add: onStreamError_def Let_def core_def)
  with reject_drains_on [of "fs_paths (c_fs c)" s err "c_tasks c"] show ?thesis by (auto simp: drains_on_def rests_def)
next
  case (run_PersistWriting xs i b evs bs ys disk)
  then show ?thesis
    by (auto simp: rests_def feeds_def persistWritten_drain)
next
  case (run_ReconnectHandshake xs s ys)
  then have "drain_view (without xs ys c) = drain_view c" by (simp add: drain_view_take)
  with reconnected_drain [of "without xs ys c"] run_ReconnectHandshake show ?thesis
    by (auto simp: feeds_def rests_view)
qed (auto dest!: drain_view_take intro!: rests_view simp: drain_frame)


text \<open>
  C4. The drain ends. In any infinite run of the client, with any answers, errors and disk faults: if from some
  point on no step creates a file and none starts a drain, then from some point on no drain does
  anything any more. So the loop over the listings cannot spin: it goes on only as long as it is fed.
\<close>

theorem drain_ends:
  assumes "\<And>n. client_step enc dec tmp (run n) (run (Suc n))"
    and "\<And>n. n0 \<le> n \<Longrightarrow> fs_paths (c_fs (run (Suc n))) \<subseteq> fs_paths (c_fs (run n)) \<and>
      (c_draining (run (Suc n)) \<longrightarrow> c_draining (run n))"
  shows "\<exists>m. \<forall>n \<ge> m. filter is_drain (c_tasks (run n)) = filter is_drain (c_tasks (run m))"
proof -
  have drain_step: "rests (run n) (run (Suc n)) \<or> lex_less (client_measure (run (Suc n))) (client_measure (run n))"
    if "n0 \<le> n" for n
    using drain_progress [OF assms(1) [of n]] assms(2) [OF that] by (auto simp: feeds_def)
  let ?Q = "(\<lambda>n. client_measure (run n)) ` {n0..}"
  obtain z where z: "z \<in> ?Q" and least: "\<And>y. lex_less y z \<Longrightarrow> y \<notin> ?Q"
    using wfE_min [OF wf_lex_less, of "client_measure (run n0)" ?Q] by auto
  from z obtain m where m: "n0 \<le> m" "client_measure (run m) = z" by auto
  have "fst (client_measure (run n)) \<le> fst z \<and> snd (client_measure (run n)) = snd z \<and>
      filter is_drain (c_tasks (run n)) = filter is_drain (c_tasks (run m))" if "m \<le> n" for n
    using that
  proof (induction n rule: dec_induct)
    case (step n)
    have "client_measure (run (Suc n)) \<in> ?Q" using m(1) step.hyps by simp
    with least have "\<not> lex_less (client_measure (run (Suc n))) z" by blast
    with step.IH have "\<not> lex_less (client_measure (run (Suc n))) (client_measure (run n))" by linarith
    with drain_step m(1) step.hyps have r: "rests (run n) (run (Suc n))" by (meson le_trans)
    from rests_measure [OF r] r step.IH show ?case by (auto simp: rests_def)
  qed (use m in simp)
  then show ?thesis by blast
qed

text \<open>
  The run of theory \<open>Client_Props\<close> from the start of its drain: the listing is read, the batch is
  sent, and then nothing happens to the drain while tracked promises of others settle.
\<close>

definition drain_run :: "nat \<Rightarrow> unit client" where
  "drain_run n = (if n = 0 then run11 else run12)"

theorem drain_ends_witness:
  "\<exists>m. \<forall>n \<ge> m. filter is_drain (c_tasks (drain_run n)) = filter is_drain (c_tasks (drain_run m))"
proof (rule drain_ends [where run = drain_run and enc = sample_enc and dec = sample_dec and tmp = "''/t''" and ?n0.0 = 1])
  have t: "c_tasks run11 = [] @ DrainList 0 # []" "untrack (TrackedTask 0) run12 = run12" by code_simp+
  have "client_step sample_enc sample_dec ''/t'' run11 run12"
    using run_DrainList [OF t(1)] t(1) by (simp add: run12_def)
  moreover have "client_step sample_enc sample_dec ''/t'' run12 run12"
    using tracked_settles [of sample_enc sample_dec "''/t''" run12 0] t(2) by simp
  ultimately show "client_step sample_enc sample_dec ''/t'' (drain_run n) (drain_run (Suc n))" for n
    by (simp add: drain_run_def)
qed (simp add: drain_run_def)

end
