(* ===== verification/Client_Errors.thy ===== *)
theory Client_Errors
  imports Client_Props
begin

text \<open>
  What the client tells its callers when it cannot deliver (\<open>sdk-node/src/client.ts\<close>): the invariant
  that ties every rejection to its cause, and that a client whose log is disabled leaves the disk
  alone.
\<close>

section \<open>The log invariant\<close>

fun task_log :: "bool \<Rightarrow> bool \<Rightarrow> 'e task \<Rightarrow> bool" where
  "task_log dis open (PersistStart wal b evs) \<longleftrightarrow> (wal = None \<longleftrightarrow> dis)"
| "task_log dis open (PersistWriting i b evs bs) \<longleftrightarrow> \<not> dis"
| "task_log dis open (DrainList i) \<longleftrightarrow> \<not> dis"
| "task_log dis open (DrainSending s e rest) \<longleftrightarrow> \<not> dis"
| "task_log dis open (DrainRemoving e rest) \<longleftrightarrow> \<not> dis"
| "task_log dis open (WalInit i sid k) \<longleftrightarrow> \<not> dis \<and> open"
| "task_log dis open (OpenHandshake s sid k) \<longleftrightarrow> dis \<or> open"
| "task_log dis open (SendWaiting s b evs) \<longleftrightarrow> dis \<or> open"
| "task_log dis open (SendRejected err b evs) \<longleftrightarrow> dis \<or> open"
| "task_log dis open t \<longleftrightarrow> True"

fun outcome_log :: "bool \<Rightarrow> outcome \<Rightarrow> bool" where
  "outcome_log dis Resolved \<longleftrightarrow> True"
| "outcome_log dis RejectedWalDisabled \<longleftrightarrow> dis"
| "outcome_log dis RejectedWalFull \<longleftrightarrow> \<not> dis"
| "outcome_log dis (RejectedDisk e) \<longleftrightarrow> \<not> dis"

definition log_ok :: "client_config \<Rightarrow> fs \<Rightarrow> 'e client \<Rightarrow> bool" where
  "log_ok cfg f c \<longleftrightarrow> c_config c = cfg \<and>
     (cfg_walDisabled cfg \<longrightarrow> c_wal c = None \<and> c_fs c = f) \<and>
     (\<not> cfg_walDisabled cfg \<and> c_session c \<noteq> None \<longrightarrow> c_wal c \<noteq> None) \<and>
     (\<forall>t \<in> set (c_tasks c). task_log (cfg_walDisabled cfg) (c_wal c \<noteq> None) t) \<and>
     (\<forall>(b, r) \<in> set (c_results c). outcome_log (cfg_walDisabled cfg) r) \<and>
     (c_notStarted c \<noteq> 0 \<longrightarrow> cfg_remote cfg = None) \<and> (c_dropped c \<noteq> 0 \<longrightarrow> cfg_remote cfg \<noteq> None)"

lemma log_ok_config: "log_ok cfg f c \<Longrightarrow> c_config c = cfg"
  by (simp add: log_ok_def)

lemma log_ok_take:
  "log_ok cfg f c \<Longrightarrow> c_tasks c = xs @ t # ys \<Longrightarrow>
   log_ok cfg f (without xs ys c) \<and> task_log (cfg_walDisabled cfg) (c_wal c \<noteq> None) t"
  by (auto simp: log_ok_def)

lemma log_ok_add [simp]:
  "log_ok cfg f (add_task t c) \<longleftrightarrow> log_ok cfg f c \<and> task_log (cfg_walDisabled cfg) (c_wal c \<noteq> None) t"
  by (auto simp: log_ok_def add_task_def)

lemma log_ok_settle [simp]:
  "log_ok cfg f (settle b r c) \<longleftrightarrow> log_ok cfg f c \<and> outcome_log (cfg_walDisabled cfg) r"
  by (auto simp: log_ok_def settle_def)

named_theorems log_pres \<open>functions that keep the log invariant\<close>

lemma log_ok_fields [log_pres]:
  "log_ok cfg f c \<Longrightarrow> log_ok cfg f (c\<lparr>c_streamHealthy := a1\<rparr>)"
  "log_ok cfg f c \<Longrightarrow> log_ok cfg f (c\<lparr>c_stream := a2\<rparr>)"
  "log_ok cfg f c \<Longrightarrow> log_ok cfg f (c\<lparr>c_session := None\<rparr>)"
  "log_ok cfg f c \<Longrightarrow> log_ok cfg f (c\<lparr>c_streams := a4\<rparr>)"
  "log_ok cfg f c \<Longrightarrow> log_ok cfg f (c\<lparr>c_written := a5\<rparr>)"
  "log_ok cfg f c \<Longrightarrow> log_ok cfg f (c\<lparr>c_reconnectAttempt := a6\<rparr>)"
  "log_ok cfg f c \<Longrightarrow> log_ok cfg f (c\<lparr>c_inflight := a7\<rparr>)"
  "log_ok cfg f c \<Longrightarrow> log_ok cfg f (c\<lparr>c_nextBatchId := a8\<rparr>)"
  "log_ok cfg f c \<Longrightarrow> log_ok cfg f (c\<lparr>c_submitted := a9\<rparr>)"
  "log_ok cfg f c \<Longrightarrow> log_ok cfg f (c\<lparr>c_starts := a14\<rparr>)"
  "log_ok cfg f c \<Longrightarrow> log_ok cfg f (c\<lparr>c_stops := a15\<rparr>)"
  "log_ok cfg f c \<Longrightarrow> log_ok cfg f (c\<lparr>c_unhandled := a16\<rparr>)"
  "log_ok cfg f c \<Longrightarrow> log_ok cfg f (c\<lparr>c_loggedDropWhileIdle := a19\<rparr>)"
  "log_ok cfg f c \<Longrightarrow> log_ok cfg f (c\<lparr>c_closed := a20\<rparr>)"
  "log_ok cfg f c \<Longrightarrow> log_ok cfg f (c\<lparr>c_ended := a21\<rparr>)"
  "log_ok cfg f c \<Longrightarrow> log_ok cfg f (c\<lparr>c_reconnectTimer := a22\<rparr>)"
  "log_ok cfg f c \<Longrightarrow> log_ok cfg f (c\<lparr>c_controlReconnectTimer := a23\<rparr>)"
  "log_ok cfg f c \<Longrightarrow> log_ok cfg f (c\<lparr>c_controlReconnectAttempt := a24\<rparr>)"
  "log_ok cfg f c \<Longrightarrow> log_ok cfg f (c\<lparr>c_controlStream := a25\<rparr>)"
  "log_ok cfg f c \<Longrightarrow> log_ok cfg f (c\<lparr>c_controlStreams := a26\<rparr>)"
  "log_ok cfg f c \<Longrightarrow> log_ok cfg f (c\<lparr>c_shuttingDown := a27\<rparr>)"
  "log_ok cfg f c \<Longrightarrow> log_ok cfg f (c\<lparr>c_draining := a28\<rparr>)"
  "log_ok cfg f c \<Longrightarrow> \<not> cfg_walDisabled cfg \<Longrightarrow> log_ok cfg f (c\<lparr>c_wals := ws, c_fs := f'\<rparr>)"
  by (simp_all add: log_ok_def)

lemma log_ok_timers [log_pres]:
  "log_ok cfg f c \<Longrightarrow> log_ok cfg f (scheduleReconnect c)" "log_ok cfg f c \<Longrightarrow> log_ok cfg f (clearReconnect c)"
  "log_ok cfg f c \<Longrightarrow> log_ok cfg f (openControlStream c)" "log_ok cfg f c \<Longrightarrow> log_ok cfg f (scheduleControlReconnect c)"
  "log_ok cfg f c \<Longrightarrow> log_ok cfg f (drainDone c)"
  by (simp_all add: scheduleReconnect_def clearReconnect_def openControlStream_def scheduleControlReconnect_def
      drainDone_def log_pres)

lemma log_ok_streams [log_pres]:
  "log_ok cfg f c \<Longrightarrow> log_ok cfg f (markStreamFailed err c)" "log_ok cfg f c \<Longrightarrow> log_ok cfg f (reconnectFailed err c)"
  "log_ok cfg f c \<Longrightarrow> log_ok cfg f (controlStreamLost c)" "log_ok cfg f c \<Longrightarrow> log_ok cfg f (controlTimerFires c)"
  "log_ok cfg f c \<Longrightarrow> log_ok cfg f (write_stream s m c)"
  by (simp_all add: markStreamFailed_def reconnectFailed_def controlStreamLost_def controlTimerFires_def write_stream_def
      Let_def log_pres)

lemma log_ok_openStream [log_pres]:
  "log_ok cfg f c \<Longrightarrow> (\<And>s. task_log (cfg_walDisabled cfg) (c_wal c \<noteq> None) (k s)) \<Longrightarrow> log_ok cfg f (openStream sid k c)"
  by (simp add: openStream_def Let_def log_pres write_stream_def)

lemma log_ok_wal: "log_ok cfg f c \<Longrightarrow> cfg_walDisabled cfg \<Longrightarrow> c_wal c = None"
  "log_ok cfg f c \<Longrightarrow> c_wal c \<noteq> None \<Longrightarrow> \<not> cfg_walDisabled cfg"
  "log_ok cfg f c \<Longrightarrow> c_session c \<noteq> None \<Longrightarrow> c_wal c = None \<longleftrightarrow> cfg_walDisabled cfg"
  by (auto simp: log_ok_def)

section \<open>Every method keeps it\<close>

lemma log_ok_sendBatch [log_pres]:
  assumes "log_ok cfg f c"
  shows "log_ok cfg f (sendBatch evs c)"
proof (cases "c_session c")
  case None
  with assms show ?thesis by (auto simp: sendBatch_def log_ok_def)
next
  case (Some h)
  with log_ok_wal [OF assms] have "c_wal c = None \<longleftrightarrow> cfg_walDisabled cfg" by simp
  with Some assms show ?thesis
    by (auto simp: sendBatch_def Let_def sendOverStream_def log_pres write_stream_def split: bool.splits option.splits)
qed

lemma log_ok_sendRejected:
  assumes "log_ok cfg f c" "cfg_walDisabled cfg \<or> c_wal c \<noteq> None"
  shows "log_ok cfg f (sendRejected err b evs c)"
proof -
  have "c_wal (markStreamFailed err c) = c_wal c"
    by (simp add: markStreamFailed_def scheduleReconnect_def clearReconnect_def Let_def)
  with assms log_ok_wal [OF assms(1)] show ?thesis by (auto simp: sendRejected_def Let_def log_pres)
qed

lemma log_ok_persistToWAL:
  assumes "log_ok cfg f c" "wal = None \<longleftrightarrow> cfg_walDisabled cfg"
  shows "log_ok cfg f (persistToWAL enc dec disk wal b evs c)"
  using assms by (auto simp: persistToWAL_def Let_def log_pres split: option.splits prod.splits sum.splits)

lemma log_ok_persistWritten:
  "log_ok cfg f c \<Longrightarrow> \<not> cfg_walDisabled cfg \<Longrightarrow> log_ok cfg f (persistWritten disk i b bs c)"
  by (auto simp: persistWritten_def Let_def log_pres split: prod.splits sum.splits)

lemma log_ok_drainHead [log_pres]: "log_ok cfg f c \<Longrightarrow> log_ok cfg f (drainHead c)"
  using log_ok_wal(2) [of cfg f c] by (auto simp: drainHead_def log_pres split: option.splits)

lemma log_ok_drainEntries: "log_ok cfg f c \<Longrightarrow> \<not> cfg_walDisabled cfg \<Longrightarrow> log_ok cfg f (drainEntries es c)"
  by (auto simp: drainEntries_def sendOverStream_def log_pres split: list.splits bool.splits option.splits)

lemma log_ok_drain:
  "log_ok cfg f c \<Longrightarrow> \<not> cfg_walDisabled cfg \<Longrightarrow> log_ok cfg f (drainListed dec i c)"
  "log_ok cfg f c \<Longrightarrow> \<not> cfg_walDisabled cfg \<Longrightarrow> log_ok cfg f (drainRemove fault e rest c)"
  by (auto simp: drainListed_def drainRemove_def Let_def log_pres log_ok_drainEntries
      split: option.splits sum.splits prod.splits list.splits)

lemma log_ok_reconnected [log_pres]: "log_ok cfg f c \<Longrightarrow> log_ok cfg f (reconnected c)"
  by (auto simp: reconnected_def drainWAL_def log_pres)

lemma log_ok_openFailed [log_pres]: "log_ok cfg f c \<Longrightarrow> log_ok cfg f (openFailed err k c)"
  by (simp add: openFailed_def log_pres split: after_open.splits)

lemma log_ok_sessionStarted [log_pres]:
  assumes "log_ok cfg f c"
  shows "log_ok cfg f (sessionStarted tmp sid k c)"
proof (cases "cfg_walDisabled cfg")
  case True
  with assms show ?thesis by (simp add: sessionStarted_def log_ok_config log_pres)
next
  case False
  have "task_log d True t" if "task_log d p t" for d p and t :: "'a task" using that by (cases t) auto
  with False assms have "log_ok cfg f (c\<lparr>c_wals := ws, c_wal := Some i\<rparr>)" for ws i
    by (auto simp: log_ok_def)
  with False assms show ?thesis by (simp add: sessionStarted_def Let_def log_ok_config)
qed

lemma log_ok_walInit:
  "log_ok cfg f c \<Longrightarrow> \<not> cfg_walDisabled cfg \<Longrightarrow> c_wal c \<noteq> None \<Longrightarrow> log_ok cfg f (walInit dec disk i sid k c)"
  by (auto simp: walInit_def Let_def log_pres split: prod.splits sum.splits)

lemma log_ok_sessionOpened:
  assumes "log_ok cfg f c" "cfg_walDisabled cfg \<or> c_wal c \<noteq> None"
  shows "log_ok cfg f (sessionOpened a sid k c)"
  using assms by (auto simp: sessionOpened_def Let_def log_ok_def split: after_open.splits)

lemma log_ok_close [log_pres]:
  "log_ok cfg f c \<Longrightarrow> log_ok cfg f (closeStreams sid kc c)" "log_ok cfg f c \<Longrightarrow> log_ok cfg f (openForCommand cmd c)"
  "log_ok cfg f c \<Longrightarrow> log_ok cfg f (openSession p ko c)"
  by (simp_all add: closeStreams_def openForCommand_def openSession_def Let_def log_pres split: option.splits)

lemma log_ok_closeReturns [log_pres]: "log_ok cfg f c \<Longrightarrow> log_ok cfg f (closeReturns r k c)"
  by (simp add: closeReturns_def log_pres split: after_close.splits sum.splits)

lemma log_ok_closeSession [log_pres]: "log_ok cfg f c \<Longrightarrow> log_ok cfg f (closeSession t k c)"
  by (simp add: closeSession_def log_pres split: option.splits)

lemma log_ok_api [log_pres]:
  "log_ok cfg f c \<Longrightarrow> log_ok cfg f (stopReturned resp k c)" "log_ok cfg f c \<Longrightarrow> log_ok cfg f (handleSubscribeResponse cmd c)"
  "log_ok cfg f c \<Longrightarrow> log_ok cfg f (start_client c)" "log_ok cfg f c \<Longrightarrow> log_ok cfg f (stop_client t c)"
  "log_ok cfg f c \<Longrightarrow> log_ok cfg f (track p c)" "log_ok cfg f c \<Longrightarrow> log_ok cfg f (untrack p c)"
  "log_ok cfg f c \<Longrightarrow> log_ok cfg f (reconnectTimerFires c)"
  by (simp_all add: stopReturned_def handleSubscribeResponse_def start_client_def stop_client_def closeControlStream_def
      clearControlReconnect_def track_def untrack_def reconnectTimerFires_def tryReconnect_def Let_def log_pres
      split: sum.splits command.splits option.splits)

lemma task_log_ack: "task_log d p t \<Longrightarrow> t' \<in> set (ack_task s b t) \<Longrightarrow> task_log d p t'"
  by (cases t) (auto split: if_splits)

lemma task_log_reject: "task_log d p t \<Longrightarrow> task_log d p (reject_task s err t)"
  by (cases t) auto

lemma log_ok_onBatchAck [log_pres]: "log_ok cfg f c \<Longrightarrow> log_ok cfg f (onBatchAck s b c)"
  using task_log_ack by (fastforce simp: onBatchAck_def Let_def log_ok_def)

lemma log_ok_onStreamError [log_pres]:
  assumes "log_ok cfg f c"
  shows "log_ok cfg f (onStreamError s err c)"
  using log_ok_streams(1) [OF assms, of err] by (auto simp: onStreamError_def Let_def log_ok_def task_log_reject)

lemma log_ok_step:
  assumes "client_step enc dec tmp c c'" "log_ok cfg f c"
  shows "log_ok cfg f c'"
  using assms(1)
proof cases
  case (run_SendRejected xs err b evs ys)
  with log_ok_take [OF assms(2) run_SendRejected(2)] show ?thesis by (simp add: log_ok_sendRejected)
next
  case (run_PersistStart xs wal b evs ys disk)
  with log_ok_take [OF assms(2) run_PersistStart(2)] show ?thesis by (simp add: log_ok_persistToWAL)
next
  case (run_PersistWriting xs i b evs bs ys disk)
  with log_ok_take [OF assms(2) run_PersistWriting(2)] show ?thesis by (simp add: log_ok_persistWritten)
next
  case (run_DrainList xs i ys)
  with log_ok_take [OF assms(2) run_DrainList(2)] show ?thesis by (simp add: log_ok_drain)
next
  case (run_DrainRemoving xs e rest ys fault)
  with log_ok_take [OF assms(2) run_DrainRemoving(2)] show ?thesis by (simp add: log_ok_drain)
next
  case (run_WalInit xs i sid k ys disk)
  with log_ok_take [OF assms(2) run_WalInit(2)] show ?thesis by (simp add: log_ok_walInit)
next
  case (run_OpenHandshake xs s sid k ys a)
  with log_ok_take [OF assms(2) run_OpenHandshake(2)] show ?thesis by (simp add: log_ok_sessionOpened)
qed (use assms(2) log_ok_take [OF assms(2), THEN conjunct1] in \<open>simp_all add: log_pres drainRejected_def\<close>)

interpretation lgi: invariant_of "\<lambda>c. c = new_client cfg f" "client_step enc dec tmp" "log_ok cfg f" for enc dec tmp cfg f
proof unfold_locales
  show "log_ok cfg f c" if "c = new_client cfg f" for c using that by (simp add: log_ok_def new_client_def)
qed (rule log_ok_step)

lemma log_ok_reachable: "reachable enc dec tmp cfg f c \<Longrightarrow> log_ok cfg f c"
  by (rule lgi.inv_reached [OF refl reachable_steps])

section \<open>Every rejection has its cause\<close>

text \<open>
  C8. Errors tell the truth: a \<open>sendBatch\<close> promise is rejected with \<open>WAL disabled\<close> only if the
  configuration disabled the log, and with a full log or a disk error only if it did not; the
  error \<open>client not started\<close> is never raised by a remote-controlled client and a batch is dropped
  silently only by one; and a client whose log is disabled never touches the disk.
\<close>

theorem rejections_explained:
  assumes "reachable enc dec tmp cfg f c"
  shows "((b, RejectedWalDisabled) \<in> set (c_results c) \<longrightarrow> cfg_walDisabled cfg) \<and>
    ((b, RejectedWalFull) \<in> set (c_results c) \<or> (b, RejectedDisk e) \<in> set (c_results c) \<longrightarrow> \<not> cfg_walDisabled cfg) \<and>
    (0 < c_notStarted c \<longrightarrow> cfg_remote cfg = None) \<and> (0 < c_dropped c \<longrightarrow> cfg_remote cfg \<noteq> None) \<and>
    (cfg_walDisabled cfg \<longrightarrow> c_fs c = f)"
  using log_ok_reachable [OF assms] by (auto simp: log_ok_def)

text \<open>A client without a log: its stream fails while a batch is in flight, and the batch is rejected.\<close>

definition off_cfg :: client_config where
  "off_cfg = run_cfg\<lparr>cfg_walDisabled := True\<rparr>"

definition off1 :: "unit client" where "off1 = start_client (new_client off_cfg run_fs)"
definition off2 :: "unit client" where "off2 = sessionStarted [] ''s1'' OpenForStart (run_take off1)"
definition off3 :: "unit client" where "off3 = sendBatch [()] (sessionOpened run_ack ''s1'' OpenForStart (run_take off2))"
definition off4 :: "unit client" where "off4 = onStreamError 0 run_err off3"
definition off5 :: "unit client" where "off5 = sendRejected run_err 1 [()] (run_take off4)"
definition off6 :: "unit client" where "off6 = persistToWAL sample_enc sample_dec DiskOk None 1 [()] (run_take off5)"

lemma off_reachable: "reachable sample_enc sample_dec [] off_cfg run_fs off6"
proof -
  let ?r = "reachable sample_enc sample_dec [] off_cfg run_fs"
  have t: "c_tasks off1 = [] @ StartRpc \<lparr>open_name = ''load'', open_labels = [], open_preferredId = []\<rparr> OpenForStart # []"
    "c_tasks off2 = [] @ OpenHandshake 0 ''s1'' OpenForStart # []"
    "c_streams off3 = 1" "c_tasks off4 = [] @ SendRejected run_err 1 [()] # []" "c_tasks off5 = [] @ PersistStart None 1 [()] # []"
    by code_simp+
  have "?r off1" unfolding off1_def by (rule reach_step [OF reach_init call_start])
  from reach_step [OF this run_StartRpc [OF t(1), where sid = "''s1''"]] t(1)
  have "?r off2" by (simp add: off2_def)
  from reach_step [OF this run_OpenHandshake [OF t(2), where a = run_ack]] t(2)
  have "?r off3" unfolding off3_def by (intro reach_step [OF _ call_sendBatch]) simp
  from reach_step [OF this stream_error [of 0 _ _ _ _ run_err]] t(3)
  have "?r off4" by (simp add: off4_def)
  from reach_step [OF this run_SendRejected [OF t(4)]] t(4)
  have "?r off5" by (simp add: off5_def)
  from reach_step [OF this run_PersistStart [OF t(5), where disk = DiskOk]] t(5)
  show ?thesis by (simp add: off6_def)
qed

theorem rejections_explained_witness:
  "(1, RejectedWalDisabled) \<in> set (c_results off6) \<and> cfg_walDisabled off_cfg \<and> c_fs off6 = run_fs"
proof -
  have "(1, RejectedWalDisabled) \<in> set (c_results off6)" by code_simp
  with rejections_explained [OF off_reachable, of 1] show ?thesis by blast
qed

section \<open>Where the log is\<close>

text \<open>
  Without a configured directory, processes do not share a log: neither two that run side by side nor a process and the one that is
  started in its place.
\<close>

lemma default_log_per_process: "defaultWalDir tmpdir pid = defaultWalDir tmpdir pid' \<longleftrightarrow> pid = pid'"
proof
  assume "defaultWalDir tmpdir pid = defaultWalDir tmpdir pid'"
  then have "string_to_nat (nat_to_string pid) = string_to_nat (nat_to_string pid')"
    by (simp only: defaultWalDir_def same_append_eq)
  then show "pid = pid'" by simp
qed simp

end
