(* ===== verification/Events.thy ===== *)
theory Events
  imports Prelude
begin

text \<open>
  What every capture adapter shares: the event context (\<open>sdk-node/src/core/event-context.ts\<close>),
  header redaction (\<open>core/redaction.ts\<close>) and body capture (\<open>core/http-body.ts\<close>).

  The async-local storage is an explicit argument: a function that runs inside a scope gets the
  context that is installed there. Strings are sequences of 8-bit characters.
\<close>

section \<open>Event context\<close>

record event_context =
  ctx_eventId :: string
  ctx_replayId :: "string option"

type_synonym scope = "event_context option"

definition runWithEvent :: "event_context \<Rightarrow> (scope \<Rightarrow> 'a) \<Rightarrow> 'a" where
  "runWithEvent ctx fn = fn (Some ctx)"

definition runOutsideEvent :: "(scope \<Rightarrow> 'a) \<Rightarrow> 'a" where
  "runOutsideEvent fn = fn None"

definition currentEventId :: "scope \<Rightarrow> string option" where
  "currentEventId st = map_option ctx_eventId st"

definition currentReplayId :: "scope \<Rightarrow> string option" where
  "currentReplayId st = Option.bind st ctx_replayId"

definition REPLAY_ID_HEADER :: string where
  "REPLAY_ID_HEADER = ''x-clearvoiance-replay-id''"

text \<open>A header value of Node: one string, several, a number (its decimal text), or undefined.\<close>

datatype header_value = HStr string | HList "string list" | HNum string | HUndef

text \<open>
  The two shapes \<open>extractReplayId\<close> accepts: Fetch \<open>Headers\<close> (one combined value per name, looked
  up case-insensitively) and a Node header dictionary.
\<close>

datatype headers_like = FetchHeaders "string dict" | NodeHeaders "header_value dict" | NoHeaders

definition fetch_get :: "string dict \<Rightarrow> string \<Rightarrow> string option" where
  "fetch_get hs k = map_option snd (find (\<lambda>(n, v). toLowerCase n = toLowerCase k) hs)"

definition extractReplayId :: "headers_like \<Rightarrow> string option" where
  "extractReplayId headers =
     (case headers of
        NoHeaders \<Rightarrow> None
      | FetchHeaders hs \<Rightarrow> fetch_get hs REPLAY_ID_HEADER
      | NodeHeaders h \<Rightarrow>
          (let raw = (case dict_get h REPLAY_ID_HEADER of
                        None \<Rightarrow> dict_get h (toUpperCase REPLAY_ID_HEADER)
                      | Some HUndef \<Rightarrow> dict_get h (toUpperCase REPLAY_ID_HEADER)
                      | Some v \<Rightarrow> Some v)
           in case raw of
                None \<Rightarrow> None
              | Some HUndef \<Rightarrow> None
              | Some (HList vs) \<Rightarrow> (case vs of [] \<Rightarrow> None | v # _ \<Rightarrow> Some v)
              | Some (HStr v) \<Rightarrow> Some v
              | Some (HNum v) \<Rightarrow> Some v))"

subsection \<open>Event ids\<close>

text \<open>\<open>writeBigUInt64BE\<close> and \<open>toString("hex")\<close>.\<close>

fun be_bytes :: "nat \<Rightarrow> nat \<Rightarrow> bytes" where
  "be_bytes 0 n = []"
| "be_bytes (Suc k) n = word_of_nat (n div 256 ^ k) # be_bytes k (n mod 256 ^ k)"

definition hex_digit :: "nat \<Rightarrow> char" where
  "hex_digit d = ''0123456789abcdef'' ! d"

definition hex_byte :: "byte \<Rightarrow> string" where
  "hex_byte b = [hex_digit (unat b div 16), hex_digit (unat b mod 16)]"

definition to_hex :: "bytes \<Rightarrow> string" where
  "to_hex bs = concat (map hex_byte bs)"

text \<open>The clock and the eight random bytes are arguments.\<close>

definition newEventId :: "nat \<Rightarrow> bytes \<Rightarrow> string" where
  "newEventId nowMs random = ''ev_'' @ to_hex (be_bytes 8 nowMs @ random)"

lemma length_be_bytes [simp]: "length (be_bytes k n) = k"
  by (induction k n rule: be_bytes.induct) auto

lemma length_to_hex [simp]: "length (to_hex bs) = 2 * length bs"
  by (induction bs) (auto simp: to_hex_def hex_byte_def)

lemma to_hex_append [simp]: "to_hex (a @ b) = to_hex a @ to_hex b"
  by (simp add: to_hex_def)

lemma hex_digit_less: "a < b \<Longrightarrow> b < 16 \<Longrightarrow> hex_digit a < hex_digit b"
proof -
  have "\<forall>b < 16. \<forall>a < b. hex_digit a < hex_digit b" by code_simp
  then show "a < b \<Longrightarrow> b < 16 \<Longrightarrow> hex_digit a < hex_digit b" by blast
qed

lemma hex_byte_less:
  assumes "unat a < unat b"
  shows "hex_byte a @ u < hex_byte b @ v"
proof -
  have "unat b < 2 ^ LENGTH(8)" by (rule unsigned_less)
  then have lt: "unat b div 16 < 16" "unat b mod 16 < 16" by auto
  show ?thesis
  proof (cases "unat a div 16 = unat b div 16")
    case True
    with assms have "unat a mod 16 < unat b mod 16"
      by (metis div_mult_mod_eq nat_add_left_cancel_less)
    with True lt show ?thesis by (simp add: hex_byte_def hex_digit_less)
  next
    case False
    with assms have "unat a div 16 < unat b div 16" by (meson div_le_mono le_neq_implies_less less_imp_le)
    with lt show ?thesis by (simp add: hex_byte_def hex_digit_less)
  qed
qed

lemma be_bytes_less:
  "n < m \<Longrightarrow> m < 256 ^ k \<Longrightarrow> to_hex (be_bytes k n) @ u < to_hex (be_bytes k m) @ v"
proof (induction k arbitrary: n m)
  case (Suc k)
  let ?p = "256 ^ k :: nat"
  have b: "n div ?p < 256" "m div ?p < 256" using Suc.prems by (auto simp: less_mult_imp_div_less)
  then have u: "unat (word_of_nat (n div ?p) :: byte) = n div ?p" "unat (word_of_nat (m div ?p) :: byte) = m div ?p"
    by (simp_all add: unat_of_nat)
  show ?case
  proof (cases "n div ?p = m div ?p")
    case True
    have "n mod ?p < m mod ?p" using Suc.prems(1) True
      by (metis div_mult_mod_eq nat_add_left_cancel_less)
    moreover have "m mod ?p < ?p" by simp
    ultimately have "to_hex (be_bytes k (n mod ?p)) @ u < to_hex (be_bytes k (m mod ?p)) @ v"
      by (rule Suc.IH)
    with True show ?thesis by (simp add: to_hex_def hex_byte_def)
  next
    case False
    with Suc.prems(1) have "n div ?p < m div ?p" by (meson div_le_mono le_neq_implies_less less_imp_le)
    with u have "hex_byte (word_of_nat (n div ?p)) @ to_hex (be_bytes k (n mod ?p)) @ u <
        hex_byte (word_of_nat (m div ?p)) @ to_hex (be_bytes k (m mod ?p)) @ v"
      by (intro hex_byte_less) simp
    then show ?thesis by (simp add: to_hex_def)
  qed
qed simp

text \<open>
  Event ids have a fixed shape and sort by time: an id drawn at an earlier millisecond is
  lexicographically smaller, whatever the random bytes.
\<close>

theorem newEventId_order:
  assumes "t < t'" "t' < 2 ^ 64" "length r = 8" "length r' = 8"
  shows "newEventId t r < newEventId t' r' \<and> length (newEventId t r) = 35"
  using be_bytes_less [OF assms(1), of 8 "to_hex r" "to_hex r'"] assms
  by (simp add: newEventId_def)

theorem newEventId_order_witness:
  "newEventId 1700000000000 (replicate 8 255) < newEventId 1700000000001 (replicate 8 0)"
  using newEventId_order [of 1700000000000 1700000000001 "replicate 8 255" "replicate 8 0"] by simp

section \<open>Header redaction\<close>

text \<open>A matcher is a name or a regular expression, given by what its \<open>test\<close> accepts.\<close>

datatype header_matcher = MName string | MRegex "string \<Rightarrow> bool"

definition DEFAULT_HEADER_DENY :: "header_matcher list" where
  "DEFAULT_HEADER_DENY = []"

definition RECOMMENDED_HEADER_DENY_PRODUCTION :: "header_matcher list" where
  "RECOMMENDED_HEADER_DENY_PRODUCTION =
     [MName ''authorization'', MName ''cookie'', MName ''set-cookie'', MName ''proxy-authorization'',
      MName ''x-api-key'', MName ''x-auth-token'', MRegex (\<lambda>s. startsWith (toLowerCase s) ''x-secret-'')]"

definition REDACTED :: string where
  "REDACTED = ''[REDACTED]''"

fun isRedacted :: "string \<Rightarrow> header_matcher list \<Rightarrow> bool" where
  "isRedacted lowerName [] = False"
| "isRedacted lowerName (m # ms) =
     ((case m of MName n \<Rightarrow> toLowerCase n = lowerName | MRegex p \<Rightarrow> p lowerName) \<or>
      isRedacted lowerName ms)"

fun header_values :: "header_value \<Rightarrow> string list" where
  "header_values (HStr s) = [s]"
| "header_values (HList vs) = vs"
| "header_values (HNum s) = [s]"
| "header_values HUndef = []"

record redaction_result =
  red_headers :: "string list dict"
  red_applied :: "string list"

text \<open>Adding to a \<open>Set\<close>, which keeps insertion order.\<close>

definition set_add :: "'a \<Rightarrow> 'a list \<Rightarrow> 'a list" where
  "set_add x xs = (if x \<in> set xs then xs else xs @ [x])"

fun redact_loop :: "header_matcher list \<Rightarrow> header_value dict \<Rightarrow> redaction_result \<Rightarrow> redaction_result" where
  "redact_loop matchers [] r = r"
| "redact_loop matchers ((name, raw) # rest) r =
     (if raw = HUndef then redact_loop matchers rest r
      else
        (let lower = toLowerCase name;
             values = header_values raw
         in redact_loop matchers rest
              (if isRedacted lower matchers
               then r\<lparr>red_headers := dict_set lower (map (\<lambda>_. REDACTED) values) (red_headers r),
                      red_applied := set_add (''header:'' @ lower) (red_applied r)\<rparr>
               else r\<lparr>red_headers := dict_set lower values (red_headers r)\<rparr>)))"

definition redactHeaders :: "header_value dict \<Rightarrow> header_matcher list option \<Rightarrow> redaction_result" where
  "redactHeaders rawHeaders cfg =
     redact_loop (case cfg of None \<Rightarrow> DEFAULT_HEADER_DENY | Some m \<Rightarrow> m) rawHeaders
       \<lparr>red_headers = [], red_applied = []\<rparr>"

definition mask :: "header_matcher list \<Rightarrow> string \<Rightarrow> header_value \<Rightarrow> string list" where
  "mask ms k v = (if isRedacted k ms then map (\<lambda>_. REDACTED) (header_values v) else header_values v)"

abbreviation raw_of :: "string \<Rightarrow> header_value dict \<Rightarrow> header_value dict" where
  "raw_of k raw \<equiv> filter (\<lambda>(n, v). toLowerCase n = k \<and> v \<noteq> HUndef) raw"

lemma redact_loop_headers:
  "dict_get (red_headers (redact_loop ms raw r)) k =
     (if raw_of k raw = [] then dict_get (red_headers r) k else Some (mask ms k (snd (last (raw_of k raw)))))"
  by (induction ms raw r rule: redact_loop.induct) (auto simp: Let_def mask_def)

lemma redact_loop_applied:
  "x \<in> set (red_applied (redact_loop ms raw r)) \<longleftrightarrow> x \<in> set (red_applied r) \<or>
     (\<exists>n v. (n, v) \<in> set raw \<and> v \<noteq> HUndef \<and> isRedacted (toLowerCase n) ms \<and> x = ''header:'' @ toLowerCase n)"
proof (induction raw arbitrary: r)
  case (Cons h raw)
  obtain n v where h: "h = (n, v)" by (cases h)
  show ?case
  proof (cases "v \<noteq> HUndef \<and> isRedacted (toLowerCase n) ms")
    case True
    then show ?thesis unfolding h by (simp add: Let_def Cons.IH set_add_def) blast
  next
    case False
    then show ?thesis unfolding h by (cases "v = HUndef") (auto simp: Let_def Cons.IH)
  qed
qed simp

text \<open>
  C23. Redaction is total: the output has one entry per lower-cased name, the last occurrence wins,
  every value of a header on the denylist is replaced (their number is kept), every other header is
  kept as it is, and the audit list names exactly the redacted headers.
\<close>

theorem redactHeaders_spec:
  "dict_get (red_headers (redactHeaders raw (Some ms))) k =
     (if raw_of k raw = [] then None
      else Some (let vs = header_values (snd (last (raw_of k raw)))
                 in if isRedacted k ms then replicate (length vs) REDACTED else vs)) \<and>
   (''header:'' @ k \<in> set (red_applied (redactHeaders raw (Some ms))) \<longleftrightarrow>
     raw_of k raw \<noteq> [] \<and> isRedacted k ms)"
proof -
  let ?r = "redactHeaders raw (Some ms)"
  have "dict_get (red_headers ?r) k =
      (if raw_of k raw = [] then None else Some (mask ms k (snd (last (raw_of k raw)))))"
    by (simp add: redactHeaders_def redact_loop_headers)
  moreover have "''header:'' @ k \<in> set (red_applied ?r) \<longleftrightarrow>
      (\<exists>n v. (n, v) \<in> set raw \<and> toLowerCase n = k \<and> v \<noteq> HUndef \<and> isRedacted k ms)"
    unfolding redactHeaders_def option.case redact_loop_applied by simp blast
  moreover have "raw_of k raw \<noteq> [] \<longleftrightarrow> (\<exists>n v. (n, v) \<in> set raw \<and> toLowerCase n = k \<and> v \<noteq> HUndef)"
    by (auto simp: filter_empty_conv)
  ultimately show ?thesis
    by (simp only: mask_def map_replicate_const Let_def) blast
qed

section \<open>Body capture\<close>

record capped_buffer =
  cb_cap :: nat
  cb_chunks :: "bytes list"
  cb_size :: nat
  cb_truncated :: bool

definition CappedBuffer :: "nat \<Rightarrow> capped_buffer" where
  "CappedBuffer cap = \<lparr>cb_cap = cap, cb_chunks = [], cb_size = 0, cb_truncated = False\<rparr>"

definition cb_push :: "bytes \<Rightarrow> capped_buffer \<Rightarrow> capped_buffer" where
  "cb_push buf b =
     (if cb_truncated b \<or> length buf = 0 then b
      else if cb_size b + length buf \<le> cb_cap b
      then b\<lparr>cb_chunks := cb_chunks b @ [buf], cb_size := cb_size b + length buf\<rparr>
      else
        (let tk = cb_cap b - cb_size b;
             b = (if tk > 0 then b\<lparr>cb_chunks := cb_chunks b @ [take tk buf]\<rparr> else b)
         in b\<lparr>cb_size := cb_cap b, cb_truncated := True\<rparr>))"

text \<open>\<open>Buffer.concat(chunks, n)\<close>: cut at n, or filled up with zero bytes.\<close>

definition buffer_concat :: "bytes list \<Rightarrow> nat \<Rightarrow> bytes" where
  "buffer_concat chunks n = take n (concat chunks @ replicate n 0)"

definition cb_toBuffer :: "capped_buffer \<Rightarrow> bytes" where
  "cb_toBuffer b = buffer_concat (cb_chunks b) (cb_size b)"

definition cb_inv :: "bytes \<Rightarrow> capped_buffer \<Rightarrow> bool" where
  "cb_inv seen b \<longleftrightarrow> concat (cb_chunks b) = take (cb_cap b) seen \<and>
     cb_size b = min (cb_cap b) (length seen) \<and> (cb_truncated b \<longleftrightarrow> cb_cap b < length seen)"

lemma cb_inv_push: "cb_inv seen b \<Longrightarrow> cb_inv (seen @ buf) (cb_push buf b)"
  by (auto simp: cb_inv_def cb_push_def Let_def min_def split: if_splits)

lemma cb_cap_push [simp]: "cb_cap (cb_push buf b) = cb_cap b"
  by (simp add: cb_push_def Let_def)

text \<open>
  What the capture code relies on, whichever adapter it is: a buffer that is fed chunks, holds the
  first \<open>cap\<close> of what it was fed, and knows whether something was cut off.
\<close>

locale capped_sink =
  fixes fresh :: "nat \<Rightarrow> 'b" and push :: "'x list \<Rightarrow> 'b \<Rightarrow> 'b" and contents :: "'b \<Rightarrow> 'x list"
    and cut :: "'b \<Rightarrow> bool" and fill :: "'b \<Rightarrow> nat" and fed :: "nat \<Rightarrow> 'x list \<Rightarrow> 'b \<Rightarrow> bool"
  assumes fed_fresh: "fed cap [] (fresh cap)"
    and fed_push: "fed cap seen b \<Longrightarrow> fed cap (seen @ x) (push x b)"
    and contents_fed: "fed cap seen b \<Longrightarrow> contents b = take cap seen"
    and cut_fed: "fed cap seen b \<Longrightarrow> cut b \<longleftrightarrow> cap < length seen"
    and fill_fed: "fed cap seen b \<Longrightarrow> fill b = min cap (length seen)"
begin

lemma fed_pushes: "fed cap seen b \<Longrightarrow> fed cap (seen @ concat xs) (fold push xs b)"
proof (induction xs arbitrary: seen b)
  case (Cons x xs)
  from Cons.IH [OF fed_push [OF Cons.prems, of x]] show ?case by simp
qed simp

lemma fed_all: "fed cap (concat xs) (fold push xs (fresh cap))"
  using fed_pushes [OF fed_fresh] by simp

lemmas sink_spec = contents_fed [OF fed_all] cut_fed [OF fed_all] fill_fed [OF fed_all]

end

interpretation cb: capped_sink CappedBuffer cb_push cb_toBuffer cb_truncated cb_size "\<lambda>cap seen b. cb_cap b = cap \<and> cb_inv seen b"
proof unfold_locales
  show "cb_cap (CappedBuffer cap) = cap \<and> cb_inv [] (CappedBuffer cap)" for cap
    by (simp add: cb_inv_def CappedBuffer_def)
  show "cb_toBuffer b = take cap seen" if "cb_cap b = cap \<and> cb_inv seen b" for cap seen b
    using that by (auto simp: cb_toBuffer_def buffer_concat_def cb_inv_def min_def)
qed (auto simp: cb_inv_push, simp_all add: cb_inv_def)

text \<open>
  However a body is cut into chunks, the buffer holds its first \<open>cap\<close> bytes, \<open>size\<close> is their
  number and \<open>truncated\<close> is set exactly when something was left out.
\<close>

theorem capped_buffer_spec:
  "let b = fold cb_push bufs (CappedBuffer cap)
   in cb_toBuffer b = take cap (concat bufs) \<and> cb_size b = min cap (length (concat bufs)) \<and>
      cb_truncated b = (cap < length (concat bufs))"
  by (simp add: Let_def cb.sink_spec)

subsection \<open>Finalizing\<close>

record blob_ref =
  blob_bucket :: string
  blob_key :: string
  blob_sha256 :: string

datatype body_payload = Inline bytes | Blob blob_ref

record body =
  body_payload :: body_payload
  body_contentType :: string
  body_sizeBytes :: nat
  body_encoding :: string

text \<open>
  The uploader is the client's \<open>uploadBlob\<close>: an argument that answers with a reference or an
  error; \<open>None\<close> when the sink has no blob backend.
\<close>

type_synonym uploader = "bytes \<Rightarrow> string option \<Rightarrow> string + blob_ref"

record finalize_options =
  maxBodyInlineBytes :: nat
  fin_contentType :: "string option"
  fin_uploader :: "uploader option"

record finalize_result =
  fin_body :: "body option"
  fin_redactions :: "string list"
  fin_uploadError :: "string option"

definition inferEncoding :: "string option \<Rightarrow> string" where
  "inferEncoding contentType =
     (case contentType of
        None \<Rightarrow> ''binary''
      | Some t \<Rightarrow>
          (let l = toLowerCase t
           in if t = [] then ''binary''
              else if str_includes l ''charset=utf-8'' \<or>
                startsWith l ''text/'' \<or> startsWith l ''application/json'' \<or>
                startsWith l ''application/xml'' \<or> startsWith l ''application/javascript''
              then ''utf-8'' else ''binary''))"

definition finalizeBody :: "capped_buffer \<Rightarrow> finalize_options \<Rightarrow> finalize_result" where
  "finalizeBody buf opts =
     (if cb_size buf = 0 then \<lparr>fin_body = None, fin_redactions = [], fin_uploadError = None\<rparr>
      else
        (let bs = cb_toBuffer buf;
             encoding = inferEncoding (fin_contentType opts);
             contentType = (case fin_contentType opts of None \<Rightarrow> [] | Some t \<Rightarrow> t);
             cut = (if cb_truncated buf then [''body:truncated''] else []);
             truncate = (\<lambda>e. \<lparr>fin_body = Some \<lparr>body_payload = Inline (take (maxBodyInlineBytes opts) bs),
                body_contentType = contentType, body_sizeBytes = maxBodyInlineBytes opts,
                body_encoding = encoding\<rparr>, fin_redactions = [''body:truncated''], fin_uploadError = e\<rparr>)
         in if length bs \<le> maxBodyInlineBytes opts
            then \<lparr>fin_body = Some \<lparr>body_payload = Inline bs, body_contentType = contentType,
                    body_sizeBytes = length bs, body_encoding = encoding\<rparr>,
                  fin_redactions = cut, fin_uploadError = None\<rparr>
            else (case fin_uploader opts of
                    None \<Rightarrow> truncate None
                  | Some up \<Rightarrow>
                      (case up bs (fin_contentType opts) of
                         Inr r \<Rightarrow> \<lparr>fin_body = Some \<lparr>body_payload = Blob r, body_contentType = contentType,
                             body_sizeBytes = length bs, body_encoding = encoding\<rparr>,
                             fin_redactions = cut, fin_uploadError = None\<rparr>
                       | Inl e \<Rightarrow> truncate (Some e)))))"

text \<open>The body of a message as the event records it, from the chunks that streamed past.\<close>

definition captured_body :: "nat \<Rightarrow> bytes list \<Rightarrow> finalize_options \<Rightarrow> finalize_result" where
  "captured_body cap bufs opts = finalizeBody (fold cb_push bufs (CappedBuffer cap)) opts"

text \<open>
  C24. What a captured body says is true: an inline payload is a prefix of the bytes that were
  sent, its recorded size is its length and at most the inline limit; a blob was uploaded with the
  first \<open>cap\<close> bytes; and \<open>body:truncated\<close> is reported exactly when bytes are missing.
\<close>

theorem captured_body_sound:
  assumes "fin_body (captured_body cap bufs opts) = Some b"
  shows "(case body_payload b of
      Inline p \<Rightarrow> p = take (min cap (maxBodyInlineBytes opts)) (concat bufs) \<and>
        body_sizeBytes b = length p \<and>
        (''body:truncated'' \<in> set (fin_redactions (captured_body cap bufs opts)) \<longleftrightarrow> p \<noteq> concat bufs)
    | Blob r \<Rightarrow> (\<exists>up. fin_uploader opts = Some up \<and> up (take cap (concat bufs)) (fin_contentType opts) = Inr r) \<and>
        maxBodyInlineBytes opts < body_sizeBytes b \<and> body_sizeBytes b = min cap (length (concat bufs)) \<and>
        (''body:truncated'' \<in> set (fin_redactions (captured_body cap bufs opts)) \<longleftrightarrow>
          take cap (concat bufs) \<noteq> concat bufs))"
proof -
  define seen where "seen = concat bufs"
  define cb where "cb = fold cb_push bufs (CappedBuffer cap)"
  have buf: "cb_toBuffer cb = take cap seen" "cb_truncated cb = (cap < length seen)"
    by (simp_all add: cb_def seen_def cb.sink_spec)
  have fin: "captured_body cap bufs opts = finalizeBody cb opts" by (simp add: captured_body_def cb_def)
  have ne: "cb_size cb \<noteq> 0" using assms unfolding fin by (cases "cb_size cb = 0") (simp_all add: finalizeBody_def)
  have all: "take n seen = seen \<longleftrightarrow> length seen \<le> n" for n by (rule take_all_iff)
  let ?m = "maxBodyInlineBytes opts"
  show ?thesis
  proof (cases "length (take cap seen) \<le> ?m")
    case True
    then have "take (min cap ?m) seen = take cap seen" by (metis min.commute take_all take_take)
    moreover from assms True ne have "body_payload b = Inline (take cap seen)"
      "body_sizeBytes b = length (take cap seen)"
      "fin_redactions (captured_body cap bufs opts) = (if cap < length seen then [''body:truncated''] else [])"
      unfolding fin by (auto simp: finalizeBody_def buf Let_def)
    ultimately show ?thesis unfolding seen_def [symmetric] using all [of cap] by auto
  next
    case False
    then have m: "min cap ?m = ?m" "length (take ?m (take cap seen)) = ?m" "?m < length seen" by auto
    then show ?thesis
      using assms False ne unfolding fin seen_def [symmetric]
      by (auto simp: finalizeBody_def buf Let_def all split: option.splits sum.splits)
  qed
qed

theorem captured_body_sound_witness:
  "\<exists>b. fin_body (captured_body 4 [[1, 2], [3, 4, 5]]
       \<lparr>maxBodyInlineBytes = 3, fin_contentType = Some ''text/plain'', fin_uploader = None\<rparr>) = Some b \<and>
     body_payload b = Inline [1, 2, 3] \<and> body_sizeBytes b = 3"
proof -
  let ?r = "captured_body 4 [[1, 2], [3, 4, 5]]
       \<lparr>maxBodyInlineBytes = 3, fin_contentType = Some ''text/plain'', fin_uploader = None\<rparr>"
  have r: "fin_body ?r = Some \<lparr>body_payload = Inline [1, 2, 3], body_contentType = ''text/plain'',
      body_sizeBytes = 3, body_encoding = ''utf-8''\<rparr>"
    by code_simp
  from captured_body_sound [OF r] r show ?thesis by simp
qed

end
