(* ===== verification/Signature.thy ===== *)
theory Signature
  imports Events
begin

text \<open>
  Canonical signatures of outbound requests (\<open>sdk-node/src/outbound/signature.ts\<close>): what hermetic
  replay matches a live request against a captured one with.

  \<open>JSON.parse\<close> and SHA-256 are arguments (\<open>parse\<close>, \<open>sha\<close>, the latter giving the hexadecimal
  digest). A parsed number is kept as the text \<open>JSON.stringify\<close> prints for it.
\<close>

section \<open>JSON values\<close>

datatype json =
    JNull
  | JBool bool
  | JNum string
  | JStr string
  | JArr "json list"
  | JObj "json dict"

text \<open>\<open>JSON.stringify\<close> of a string.\<close>

definition json_char :: "char \<Rightarrow> string" where
  "json_char c =
     (let n = of_char c :: nat
      in if n = 34 then [CHR 0x5C, CHR 0x22]
         else if n = 92 then [CHR 0x5C, CHR 0x5C]
         else if n = 8 then [CHR 0x5C, CHR ''b'']
         else if n = 12 then [CHR 0x5C, CHR ''f'']
         else if n = 10 then [CHR 0x5C, CHR ''n'']
         else if n = 13 then [CHR 0x5C, CHR ''r'']
         else if n = 9 then [CHR 0x5C, CHR ''t'']
         else if n < 32 then [CHR 0x5C, CHR ''u'', CHR ''0'', CHR ''0'', hex_digit (n div 16), hex_digit (n mod 16)]
         else [c])"

definition json_quote :: "string \<Rightarrow> string" where
  "json_quote s = [CHR 0x22] @ concat (map json_char s) @ [CHR 0x22]"

lemma size_json_arr [termination_simp]: "v \<in> set vs \<Longrightarrow> size v < Suc (size_list size vs)"
  by (induction vs) auto

lemma size_json_obj [termination_simp]: "(k, v) \<in> set kvs \<Longrightarrow> size v < Suc (size_list (size_prod (\<lambda>_. 0) size) kvs)"
  by (induction kvs) auto

fun stripKeys :: "string list \<Rightarrow> json \<Rightarrow> json" where
  "stripKeys keys (JArr vs) = JArr (map (stripKeys keys) vs)"
| "stripKeys keys (JObj kvs) =
     JObj (map (\<lambda>(k, v). (k, stripKeys keys v)) (filter (\<lambda>(k, v). k \<notin> set keys) kvs))"
| "stripKeys keys v = v"

text \<open>
  \<open>stableStringify\<close>: the members in the order of their sorted keys (an object has each key once).
\<close>

fun stableStringify :: "json \<Rightarrow> string" where
  "stableStringify (JArr vs) = ''['' @ join_with '','' (map stableStringify vs) @ '']''"
| "stableStringify (JObj kvs) =
     ''{'' @ join_with '',''
       (map (\<lambda>(k, v). json_quote k @ '':'' @ stableStringify v) (sort_key fst kvs)) @ ''}''"
| "stableStringify JNull = ''null''"
| "stableStringify (JBool b) = (if b then ''true'' else ''false'')"
| "stableStringify (JNum n) = n"
| "stableStringify (JStr s) = json_quote s"

section \<open>Query strings\<close>

text \<open>
  \<open>URLSearchParams\<close>: parsing and printing of \<open>application/x-www-form-urlencoded\<close>, on the bytes of
  the query; \<open>sort\<close> is stable and compares the names.
\<close>

definition hex_value :: "char \<Rightarrow> nat option" where
  "hex_value c =
     (let n = of_char c :: nat
      in if 48 \<le> n \<and> n \<le> 57 then Some (n - 48)
         else if 97 \<le> n \<and> n \<le> 102 then Some (n - 87)
         else if 65 \<le> n \<and> n \<le> 70 then Some (n - 55) else None)"

fun percent_decode :: "string \<Rightarrow> string" where
  "percent_decode (c # a # b # rest) =
     (if c = CHR 0x25
      then (case (hex_value a, hex_value b) of
              (Some x, Some y) \<Rightarrow> char_of (16 * x + y) # percent_decode rest
            | _ \<Rightarrow> c # percent_decode (a # b # rest))
      else c # percent_decode (a # b # rest))"
| "percent_decode s = s"

definition plus_to_space :: "string \<Rightarrow> string" where
  "plus_to_space s = map (\<lambda>c. if c = CHR ''+'' then CHR '' '' else c) s"

definition qs_pair :: "string \<Rightarrow> string \<times> string" where
  "qs_pair piece =
     (case break_at (CHR ''='') (plus_to_space piece) of
        None \<Rightarrow> (percent_decode (plus_to_space piece), [])
      | Some (n, v) \<Rightarrow> (percent_decode n, percent_decode v))"

definition qs_parse :: "string \<Rightarrow> (string \<times> string) list" where
  "qs_parse q =
     (let q = (case q of c # rest \<Rightarrow> if c = CHR ''?'' then rest else q | [] \<Rightarrow> q)
      in map qs_pair (filter (\<lambda>p. p \<noteq> []) (split_on (CHR ''&'') q)))"

definition form_char :: "char \<Rightarrow> string" where
  "form_char c =
     (let n = of_char c :: nat
      in if c = CHR '' '' then ''+''
         else if 48 \<le> n \<and> n \<le> 57 \<or> 65 \<le> n \<and> n \<le> 90 \<or> 97 \<le> n \<and> n \<le> 122 \<or>
           c \<in> set ''*-._'' then [c]
         else CHR 0x25 # toUpperCase [hex_digit (n div 16), hex_digit (n mod 16)])"

definition form_encode :: "string \<Rightarrow> string" where
  "form_encode s = concat (map form_char s)"

definition qs_print :: "(string \<times> string) list \<Rightarrow> string" where
  "qs_print ps = join_with ''&'' (map (\<lambda>(n, v). form_encode n @ ''='' @ form_encode v) ps)"

definition qs_delete :: "string \<Rightarrow> (string \<times> string) list \<Rightarrow> (string \<times> string) list" where
  "qs_delete k ps = filter (\<lambda>(n, v). n \<noteq> k) ps"

section \<open>Signatures\<close>

record canonicalize_config =
  ignoreJsonKeys :: "string list option"
  ignoreQueryParams :: "string list option"

record signature_input =
  sig_method :: string
  sig_host :: string
  sig_path :: string
  sig_body :: "bytes option"
  sig_contentType :: "string option"

type_synonym sha256 = "bytes \<Rightarrow> string"
type_synonym json_parser = "bytes \<Rightarrow> json option"

definition canonicalPath :: "string \<Rightarrow> string list \<Rightarrow> string" where
  "canonicalPath path ignoreParams =
     (case break_at (CHR ''?'') path of
        None \<Rightarrow> path
      | Some (base, q) \<Rightarrow>
          if ignoreParams = [] then path
          else (let rebuilt = qs_print (sort_key fst (fold qs_delete ignoreParams (qs_parse q)))
                in if rebuilt \<noteq> [] then base @ ''?'' @ rebuilt else base))"

definition sha256Hex :: "sha256 \<Rightarrow> bytes \<Rightarrow> string" where
  "sha256Hex sha buf = sha buf"

definition canonicalBody :: "sha256 \<Rightarrow> json_parser \<Rightarrow> bytes option \<Rightarrow> string option \<Rightarrow> string list \<Rightarrow> string" where
  "canonicalBody sha parse body contentType ignoreKeys =
     (case body of
        None \<Rightarrow> []
      | Some b \<Rightarrow>
          if b = [] then []
          else if \<not> str_includes (toLowerCase (case contentType of None \<Rightarrow> [] | Some t \<Rightarrow> t)) ''json''
          then sha256Hex sha b
          else (case parse b of
                  None \<Rightarrow> sha256Hex sha b
                | Some parsed \<Rightarrow>
                    (let stripped = (if ignoreKeys \<noteq> [] then stripKeys ignoreKeys parsed else parsed)
                     in sha256Hex sha (utf8_encode (stableStringify stripped)))))"

definition or_nil :: "'a list option \<Rightarrow> 'a list" where
  "or_nil x = (case x of None \<Rightarrow> [] | Some l \<Rightarrow> l)"

definition signature_parts :: "sha256 \<Rightarrow> json_parser \<Rightarrow> signature_input \<Rightarrow> canonicalize_config \<Rightarrow> string list" where
  "signature_parts sha parse i cfg =
     [toUpperCase (sig_method i), toLowerCase (sig_host i),
      canonicalPath (sig_path i) (or_nil (ignoreQueryParams cfg)),
      canonicalBody sha parse (sig_body i) (sig_contentType i) (or_nil (ignoreJsonKeys cfg))]"

definition signatureOf :: "sha256 \<Rightarrow> json_parser \<Rightarrow> signature_input \<Rightarrow> canonicalize_config \<Rightarrow> string" where
  "signatureOf sha parse i cfg =
     sha (utf8_encode (join_with ''|'' (signature_parts sha parse i cfg)))"

section \<open>JSON bodies up to key order\<close>

inductive json_eq :: "json \<Rightarrow> json \<Rightarrow> bool" where
  json_eq_refl: "json_eq v v"
| json_eq_arr: "list_all2 json_eq xs ys \<Longrightarrow> json_eq (JArr xs) (JArr ys)"
| json_eq_obj: "distinct (dict_keys xs) \<Longrightarrow> distinct (dict_keys ys) \<Longrightarrow>
    set (dict_keys xs) = set (dict_keys ys) \<Longrightarrow>
    (\<And>k v w. (k, v) \<in> set xs \<Longrightarrow> (k, w) \<in> set ys \<Longrightarrow> json_eq v w) \<Longrightarrow>
    json_eq (JObj xs) (JObj ys)"

lemma sort_key_same_keys:
  assumes "distinct (dict_keys xs)" "distinct (dict_keys ys)" "set (dict_keys xs) = set (dict_keys ys)"
    and "\<And>k v w. (k, v) \<in> set xs \<Longrightarrow> (k, w) \<in> set ys \<Longrightarrow> f v = f w"
  shows "map (\<lambda>(k, v). g k (f v)) (sort_key fst xs) = map (\<lambda>(k, v). g k (f v)) (sort_key fst ys)"
proof (rule nth_equalityI)
  have keys: "map fst (sort_key fst xs) = map fst (sort_key fst ys)"
    using assms(1-3) by (intro sorted_distinct_set_unique) (simp_all add: distinct_map)
  then show len: "length (map (\<lambda>(k, v). g k (f v)) (sort_key fst xs)) = length (map (\<lambda>(k, v). g k (f v)) (sort_key fst ys))"
    using map_eq_imp_length_eq by fastforce
  fix i
  assume i: "i < length (map (\<lambda>(k, v). g k (f v)) (sort_key fst xs))"
  let ?x = "sort_key fst xs ! i" and ?y = "sort_key fst ys ! i"
  have "?x \<in> set xs" "?y \<in> set ys"
    using i len nth_mem [of i "sort_key fst xs"] nth_mem [of i "sort_key fst ys"] by simp_all
  moreover have "fst ?x = fst ?y"
    using keys i len by (metis length_map nth_map)
  moreover from calculation have "f (snd ?x) = f (snd ?y)" using assms(4) by (metis prod.collapse)
  ultimately show "map (\<lambda>(k, v). g k (f v)) (sort_key fst xs) ! i = map (\<lambda>(k, v). g k (f v)) (sort_key fst ys) ! i"
    using i len by (simp add: case_prod_beta)
qed

lemma stableStringify_json_eq: "json_eq a b \<Longrightarrow> stableStringify a = stableStringify b"
proof (induction rule: json_eq.induct)
  case (json_eq_arr xs ys)
  then have "map stableStringify xs = map stableStringify ys"
    by (induction rule: list_all2_induct) auto
  then show ?case by simp
next
  case (json_eq_obj xs ys)
  then have "map (\<lambda>(k, v). json_quote k @ '':'' @ stableStringify v) (sort_key fst xs) =
      map (\<lambda>(k, v). json_quote k @ '':'' @ stableStringify v) (sort_key fst ys)"
    by (intro sort_key_same_keys [of xs ys stableStringify "\<lambda>k s. json_quote k @ '':'' @ s"]) auto
  then show ?case by simp
qed simp

lemma stripKeys_Nil [simp]: "stripKeys [] v = v"
proof (induction v)
  case (JArr vs)
  then show ?case by (simp add: map_idI)
next
  case (JObj kvs)
  then have "map (\<lambda>(k, v). (k, stripKeys [] v)) kvs = kvs" by (intro map_idI) (auto simp: snds.simps)
  then show ?case by (simp add: case_prod_beta')
qed simp_all

text \<open>The keys of a value at every depth.\<close>

fun json_keys :: "json \<Rightarrow> string set" where
  "json_keys (JArr vs) = (\<Union>v \<in> set vs. json_keys v)"
| "json_keys (JObj kvs) = fst ` set kvs \<union> (\<Union>(k, v) \<in> set kvs. json_keys v)"
| "json_keys v = {}"

text \<open>
  Ignored keys are dropped at every depth of the body, not only at the top level, and no other
  key is.
\<close>

theorem stripKeys_everywhere:
  "json_keys (stripKeys keys v) \<subseteq> json_keys v - set keys \<and>
   (\<forall>kvs k w. v = JObj kvs \<and> (k, w) \<in> set kvs \<and> k \<notin> set keys \<longrightarrow>
      (\<exists>out. stripKeys keys v = JObj out \<and> (k, stripKeys keys w) \<in> set out))"
proof -
  have "json_keys (stripKeys keys v) \<subseteq> json_keys v - set keys"
  proof (induction keys v rule: stripKeys.induct)
    case (2 keys kvs)
    then have "json_keys (stripKeys keys w) \<subseteq> json_keys w - set keys" if "(k, w) \<in> set kvs" "k \<notin> set keys" for k w
      using that by (simp del: Diff_subset_conv) blast
    then have sub: "json_keys (stripKeys keys w) \<subseteq> json_keys (JObj kvs) - set keys"
      if "(k, w) \<in> set kvs" "k \<notin> set keys" for k w using that by fastforce
    show ?case
    proof
      fix x
      assume "x \<in> json_keys (stripKeys keys (JObj kvs))"
      then consider w where "(x, w) \<in> set kvs" "x \<notin> set keys"
        | k w where "(k, w) \<in> set kvs" "k \<notin> set keys" "x \<in> json_keys (stripKeys keys w)"
        by fastforce
      then show "x \<in> json_keys (JObj kvs) - set keys" using sub by cases force+
    qed
  qed fastforce+
  then show ?thesis by force
qed

theorem stripKeys_everywhere_witness:
  "\<exists>out. stripKeys [''ts''] (JObj [(''a'', JObj [(''ts'', JNull), (''b'', JNull)]), (''ts'', JNull)]) = JObj out \<and>
     (''a'', JObj [(''b'', JNull)]) \<in> set out"
proof -
  have "stripKeys [''ts''] (JObj [(''ts'', JNull), (''b'', JNull)]) = JObj [(''b'', JNull)]" by simp
  with stripKeys_everywhere [of "[''ts'']" "JObj [(''a'', JObj [(''ts'', JNull), (''b'', JNull)]), (''ts'', JNull)]"]
  show ?thesis by auto
qed

text \<open>
  C17. Two JSON bodies that differ only in the order of object keys and in ignored keys get the same
  signature, provided the rest of the request is the same.
\<close>

theorem signature_ignores_key_order:
  assumes "str_includes (toLowerCase ct) ''json''" "b1 \<noteq> []" "b2 \<noteq> []"
    and "parse b1 = Some v1" "parse b2 = Some v2"
    and "json_eq (stripKeys (or_nil (ignoreJsonKeys cfg)) v1) (stripKeys (or_nil (ignoreJsonKeys cfg)) v2)"
  shows "signatureOf sha parse (i\<lparr>sig_body := Some b1, sig_contentType := Some ct\<rparr>) cfg =
    signatureOf sha parse (i\<lparr>sig_body := Some b2, sig_contentType := Some ct\<rparr>) cfg"
proof -
  let ?ks = "or_nil (ignoreJsonKeys cfg)"
  have "canonicalBody sha parse (Some b) (Some ct) ?ks = sha (utf8_encode (stableStringify (stripKeys ?ks v)))"
    if "b \<noteq> []" "parse b = Some v" for b v
    using that assms(1) by (cases "?ks = []") (simp_all add: canonicalBody_def sha256Hex_def)
  with assms(2-5) stableStringify_json_eq [OF assms(6)] show ?thesis
    by (simp add: signatureOf_def signature_parts_def)
qed

section \<open>Query parameters\<close>

lemma fold_qs_delete: "fold qs_delete ks ps = filter (\<lambda>(n, v). n \<notin> set ks) ps"
  by (induction ks arbitrary: ps) (auto simp: qs_delete_def intro!: filter_cong)

lemma sort_key_by_groups:
  assumes "\<And>k. filter (\<lambda>x. f x = k) xs = filter (\<lambda>x. f x = k) ys"
  shows "sort_key f xs = sort_key f ys"
proof (rule properties_for_sort_key)
  show "mset (sort_key f ys) = mset xs"
  proof (rule multiset_eqI)
    fix x
    have "count (mset zs) x = count (mset (filter (\<lambda>y. f y = f x) zs)) x" for zs
      by simp
    from this [of xs] this [of ys] show "count (mset (sort_key f ys)) x = count (mset xs) x"
      unfolding assms mset_sort by (simp only:)
  qed
  show "filter (\<lambda>x. f k = f x) (sort_key f ys) = filter (\<lambda>x. f k = f x) xs" for k
  proof -
    have "filter (\<lambda>x. f k = f x) (sort_key f ys) = filter (\<lambda>x. f k = f x) ys"
      by (metis (mono_tags, lifting) filter_cong sort_key_stable)
    also have "\<dots> = filter (\<lambda>x. f k = f x) xs" using assms [of "f k"] by (simp add: eq_commute)
    finally show ?thesis .
  qed
qed simp

text \<open>
  With a list of ignored query parameters, the canonical path depends only on the part before
  the query and, for each other parameter, on the sequence of its values: the order in which
  different parameters are given and the values of the ignored ones make no difference.
\<close>

theorem canonicalPath_ignores:
  assumes "ignored \<noteq> []" "CHR ''?'' \<notin> set base"
    and "\<forall>k. k \<notin> set ignored \<longrightarrow> filter (\<lambda>p. fst p = k) (qs_parse q1) = filter (\<lambda>p. fst p = k) (qs_parse q2)"
  shows "canonicalPath (base @ ''?'' @ q1) ignored = canonicalPath (base @ ''?'' @ q2) ignored"
proof -
  have "filter (\<lambda>p. fst p = k) (fold qs_delete ignored (qs_parse q1)) =
      filter (\<lambda>p. fst p = k) (fold qs_delete ignored (qs_parse q2))" for k
  proof (cases "k \<in> set ignored")
    case True
    then have "filter (\<lambda>p. fst p = k) (filter (\<lambda>(n, v). n \<notin> set ignored) ps) = []" for ps :: "(string \<times> string) list"
      by (auto simp: filter_empty_conv)
    then show ?thesis by (simp only: fold_qs_delete)
  next
    case False
    then have "filter (\<lambda>p. fst p = k) (filter (\<lambda>(n, v). n \<notin> set ignored) ps) = filter (\<lambda>p. fst p = k) ps"
      for ps :: "(string \<times> string) list"
      by (auto intro!: filter_cong)
    with False assms(3) show ?thesis unfolding fold_qs_delete by metis
  qed
  then have "sort_key fst (fold qs_delete ignored (qs_parse q1)) = sort_key fst (fold qs_delete ignored (qs_parse q2))"
    by (rule sort_key_by_groups)
  moreover have "break_at (CHR ''?'') (base @ ''?'' @ q) = Some (base, q)" for q
    using break_at_append [OF assms(2), of q] by simp
  ultimately show ?thesis using assms(1) by (simp add: canonicalPath_def Let_def)
qed

theorem canonicalPath_ignores_witness:
  "canonicalPath ''/v1/x?ts=17&b=2&a=1'' [''ts''] = canonicalPath ''/v1/x?a=1&ts=18&b=2'' [''ts'']"
proof -
  have q: "qs_parse ''ts=17&b=2&a=1'' = [(''ts'', ''17''), (''b'', ''2''), (''a'', ''1'')]"
    "qs_parse ''a=1&ts=18&b=2'' = [(''a'', ''1''), (''ts'', ''18''), (''b'', ''2'')]" by code_simp+
  from canonicalPath_ignores [of "[''ts'']" "''/v1/x''" "''ts=17&b=2&a=1''" "''a=1&ts=18&b=2''"]
  show ?thesis unfolding q by auto
qed

section \<open>Signatures tell requests apart\<close>

lemma utf8_char_prefix: "utf8_char a @ x = utf8_char b @ y \<Longrightarrow> a = b \<and> x = y"
proof -
  assume eq: "utf8_char a @ x = utf8_char b @ y"
  let ?a = "of_char a :: nat" and ?b = "of_char b :: nat"
  have lt: "?a < 256" "?b < 256" by (simp_all add: nat_of_char_less_256)
  then have d: "?a div 64 < 4" "?b div 64 < 4" by (simp_all add: div_less_iff_less_mult)
  have w: "(of_nat n :: byte) = of_nat m \<longleftrightarrow> n = m" if "n < 256" "m < 256" for n m
    using that by (simp add: word_of_nat_eq_iff take_bit_eq_mod)
  show ?thesis
  proof (cases "?a < 128"; cases "?b < 128")
    assume "?a < 128" "?b < 128"
    with eq have "?a = ?b" "x = y" by (auto simp: utf8_char_def Let_def w)
    then show ?thesis by simp
  next
    assume a: "\<not> ?a < 128" "\<not> ?b < 128"
    have "128 + n mod 64 < 256" for n :: nat by presburger
    with d have "192 + ?a div 64 < 256" "192 + ?b div 64 < 256" "128 + ?a mod 64 < 256" "128 + ?b mod 64 < 256"
      by auto
    with eq a have "192 + ?a div 64 = 192 + ?b div 64" "128 + ?a mod 64 = 128 + ?b mod 64" "x = y"
      by (auto simp: utf8_char_def Let_def w simp del: of_nat_add)
    then show ?thesis by (metis add_left_cancel div_mult_mod_eq of_char_eq_iff)
  next
    assume "?a < 128" "\<not> ?b < 128"
    with d have "?a < 256" "192 + ?b div 64 < 256" "?a < 192 + ?b div 64" by auto
    with eq \<open>?a < 128\<close> \<open>\<not> ?b < 128\<close> show ?thesis by (auto simp: utf8_char_def Let_def w simp del: of_nat_add)
  next
    assume "\<not> ?a < 128" "?b < 128"
    with d have "?b < 256" "192 + ?a div 64 < 256" "?b < 192 + ?a div 64" by auto
    with eq \<open>\<not> ?a < 128\<close> \<open>?b < 128\<close> show ?thesis by (auto simp: utf8_char_def Let_def w simp del: of_nat_add)
  qed
qed

lemma utf8_char_not_Nil [simp]: "utf8_char c \<noteq> []"
  by (simp add: utf8_char_def Let_def)

lemma utf8_encode_inject: "utf8_encode s = utf8_encode t \<Longrightarrow> s = t"
proof (induction s arbitrary: t)
  case Nil
  then show ?case by (cases t) (auto simp: utf8_encode_def)
next
  case (Cons c s)
  then obtain d u where t: "t = d # u" by (cases t) (auto simp: utf8_encode_def)
  with Cons.prems have "utf8_char c @ utf8_encode s = utf8_char d @ utf8_encode u"
    by (simp add: utf8_encode_def)
  from utf8_char_prefix [OF this] Cons.IH t show ?case by auto
qed

lemma bar_split_first: "CHR ''|'' \<notin> set a \<Longrightarrow> CHR ''|'' \<notin> set b \<Longrightarrow>
    a @ CHR ''|'' # x = b @ CHR ''|'' # y \<Longrightarrow> a = b \<and> x = y"
  by (metis break_at_append option.inject prod.inject)

lemma bar_split_last:
  assumes "CHR ''|'' \<notin> set x" "CHR ''|'' \<notin> set y" "a @ CHR ''|'' # x = b @ CHR ''|'' # y"
  shows "a = b \<and> x = y"
proof -
  have "rev x @ CHR ''|'' # rev a = rev y @ CHR ''|'' # rev b" using arg_cong [OF assms(3), of rev] by simp
  with bar_split_first [of "rev x" "rev y"] assms(1,2) show ?thesis by auto
qed

lemma bar_notin_case: "CHR ''|'' \<notin> set s \<Longrightarrow> CHR ''|'' \<notin> set (toUpperCase s) \<and> CHR ''|'' \<notin> set (toLowerCase s)"
proof -
  have "lower_char c \<noteq> CHR ''|''" "upper_char c \<noteq> CHR ''|''" if "c \<noteq> CHR ''|''" for c
  proof -
    have n: "(of_char (CHR ''|'') :: nat) = 124" by simp
    show "lower_char c \<noteq> CHR ''|''"
    proof
      assume e: "lower_char c = CHR ''|''"
      with that have "65 \<le> (of_char c :: nat) \<and> (of_char c :: nat) \<le> 90"
        by (auto simp: lower_char_def Let_def split: if_splits)
      then have "(of_char (lower_char c) :: nat) \<le> 122"
        by (simp add: lower_char_def Let_def)
      with e n show False by simp
    qed
    show "upper_char c \<noteq> CHR ''|''"
    proof
      assume e: "upper_char c = CHR ''|''"
      with that have "97 \<le> (of_char c :: nat) \<and> (of_char c :: nat) \<le> 122"
        by (auto simp: upper_char_def Let_def split: if_splits)
      moreover from this have "(of_char c :: nat) - 32 < 256" by auto
      ultimately have "(of_char (upper_char c) :: nat) \<le> 90"
        by (simp add: upper_char_def Let_def le_diff_conv)
      with e n show False by simp
    qed
  qed
  then show "CHR ''|'' \<notin> set s \<Longrightarrow> ?thesis"
    unfolding toUpperCase_def toLowerCase_def set_map image_iff by metis
qed

lemma canonicalBody_no_bar:
  "(\<And>x. CHR ''|'' \<notin> set (sha x)) \<Longrightarrow> CHR ''|'' \<notin> set (canonicalBody sha parse body ct ks)"
  by (simp add: canonicalBody_def sha256Hex_def Let_def split: option.splits)

lemma signature_parts_eq:
  assumes inj: "inj sha" and hex: "\<And>x. CHR ''|'' \<notin> set (sha x)"
    and bars: "CHR ''|'' \<notin> set (sig_method i)" "CHR ''|'' \<notin> set (sig_method j)"
      "CHR ''|'' \<notin> set (sig_host i)" "CHR ''|'' \<notin> set (sig_host j)"
    and eq: "signatureOf sha parse i cfg = signatureOf sha parse j cfg"
  shows "signature_parts sha parse i cfg = signature_parts sha parse j cfg"
proof -
  let ?p = "\<lambda>i. canonicalPath (sig_path i) (or_nil (ignoreQueryParams cfg))"
  let ?b = "\<lambda>i. canonicalBody sha parse (sig_body i) (sig_contentType i) (or_nil (ignoreJsonKeys cfg))"
  have "join_with ''|'' (signature_parts sha parse i cfg) = join_with ''|'' (signature_parts sha parse j cfg)"
    using eq inj utf8_encode_inject by (auto simp: signatureOf_def dest: injD)
  then have j: "toUpperCase (sig_method i) @ CHR ''|'' # (toLowerCase (sig_host i) @ CHR ''|'' # (?p i @ CHR ''|'' # ?b i)) =
      toUpperCase (sig_method j) @ CHR ''|'' # (toLowerCase (sig_host j) @ CHR ''|'' # (?p j @ CHR ''|'' # ?b j))"
    by (simp add: signature_parts_def)
  from bar_split_first [OF _ _ j] bars bar_notin_case
  have m: "toUpperCase (sig_method i) = toUpperCase (sig_method j)"
    and j2: "toLowerCase (sig_host i) @ CHR ''|'' # (?p i @ CHR ''|'' # ?b i) =
      toLowerCase (sig_host j) @ CHR ''|'' # (?p j @ CHR ''|'' # ?b j)" by auto
  from bar_split_first [OF _ _ j2] bars bar_notin_case
  have h: "toLowerCase (sig_host i) = toLowerCase (sig_host j)"
    and j3: "?p i @ CHR ''|'' # ?b i = ?p j @ CHR ''|'' # ?b j" by auto
  from bar_split_last [OF canonicalBody_no_bar [OF hex] canonicalBody_no_bar [OF hex] j3] m h
  show ?thesis by (simp add: signature_parts_def)
qed

text \<open>
  C16. With a collision-free hash whose digests do not contain the separator, equal signatures mean
  equal method, host, canonical path and canonical body: a mock is never served to a request that
  differs in any of them, although the path itself may contain the separator.
\<close>

theorem signature_determines_request:
  assumes inj: "inj sha" and hex: "\<And>x. CHR ''|'' \<notin> set (sha x)"
    and bars: "CHR ''|'' \<notin> set (sig_method i)" "CHR ''|'' \<notin> set (sig_method j)"
      "CHR ''|'' \<notin> set (sig_host i)" "CHR ''|'' \<notin> set (sig_host j)"
    and eq: "signatureOf sha parse i cfg = signatureOf sha parse j cfg"
  shows "signature_parts sha parse i cfg = signature_parts sha parse j cfg"
  using signature_parts_eq [OF assms] .

text \<open>The hexadecimal text of the data itself is a digest that satisfies both hypotheses.\<close>

lemma inj_to_hex: "inj to_hex"
proof (rule injI)
  fix x y
  show "to_hex x = to_hex y \<Longrightarrow> x = y"
  proof (induction x arbitrary: y)
    case Nil
    then show ?case by (cases y) (auto simp: to_hex_def hex_byte_def)
  next
    case (Cons a x)
    then obtain b z where y: "y = b # z" by (cases y) (auto simp: to_hex_def hex_byte_def)
    have "hex_byte a = hex_byte b" "to_hex x = to_hex z"
      using Cons.prems y by (auto simp: to_hex_def hex_byte_def)
    moreover have "a = b"
    proof (rule ccontr)
      assume "a \<noteq> b"
      then have "unat a < unat b \<or> unat b < unat a" by (metis nat_neq_iff unsigned_word_eqI)
      with hex_byte_less [of a b "[]" "[]"] hex_byte_less [of b a "[]" "[]"] \<open>hex_byte a = hex_byte b\<close>
      show False by auto
    qed
    ultimately show ?case using Cons.IH y by blast
  qed
qed

lemma to_hex_digits: "set (to_hex x) \<subseteq> set ''0123456789abcdef''"
proof -
  have d: "hex_digit n \<in> set ''0123456789abcdef''" if "n < 16" for n
  proof -
    have "\<forall>n < 16. hex_digit n \<in> set ''0123456789abcdef''" by code_simp
    with that show ?thesis by blast
  qed
  have "unat b div 16 < 16" for b :: byte
  proof -
    have "unat b < 2 ^ LENGTH(8)" by (rule unsigned_less)
    then show ?thesis by auto
  qed
  then have "set (hex_byte b) \<subseteq> set ''0123456789abcdef''" for b
    unfolding hex_byte_def using d [of "unat b div 16"] d [of "unat b mod 16"] by (simp only: list.set insert_subset empty_subsetI simp_thms)
  then show ?thesis unfolding to_hex_def by (simp only: set_concat set_map) blast
qed

lemma to_hex_no_bar: "CHR ''|'' \<notin> set (to_hex x)"
  using to_hex_digits [of x] by auto

lemma to_hex_no_slash: "CHR ''/'' \<notin> set (to_hex x)"
  using to_hex_digits [of x] by auto

theorem signature_determines_request_witness:
  "signatureOf to_hex (\<lambda>_. None) \<lparr>sig_method = ''get'', sig_host = ''A.example'', sig_path = ''/x|y'',
       sig_body = None, sig_contentType = None\<rparr> \<lparr>ignoreJsonKeys = None, ignoreQueryParams = None\<rparr> =
     signatureOf to_hex (\<lambda>_. None) \<lparr>sig_method = ''GET'', sig_host = ''a.example'', sig_path = ''/x|y'',
       sig_body = Some [], sig_contentType = None\<rparr> \<lparr>ignoreJsonKeys = None, ignoreQueryParams = None\<rparr> \<and>
   signature_parts to_hex (\<lambda>_. None) \<lparr>sig_method = ''get'', sig_host = ''A.example'', sig_path = ''/x|y'',
       sig_body = None, sig_contentType = None\<rparr> \<lparr>ignoreJsonKeys = None, ignoreQueryParams = None\<rparr> =
     [''GET'', ''a.example'', ''/x|y'', []]"
proof -
  let ?c = "\<lparr>ignoreJsonKeys = None, ignoreQueryParams = None\<rparr>"
  let ?i = "\<lparr>sig_method = ''get'', sig_host = ''A.example'', sig_path = ''/x|y'', sig_body = None, sig_contentType = None\<rparr>"
  let ?j = "\<lparr>sig_method = ''GET'', sig_host = ''a.example'', sig_path = ''/x|y'', sig_body = Some [], sig_contentType = None\<rparr>"
  have e: "signatureOf to_hex (\<lambda>_. None) ?i ?c = signatureOf to_hex (\<lambda>_. None) ?j ?c" by code_simp
  have "signature_parts to_hex (\<lambda>_. None) ?j ?c = [''GET'', ''a.example'', ''/x|y'', []]" by code_simp
  with signature_determines_request [OF inj_to_hex to_hex_no_bar _ _ _ _ e] e show ?thesis by simp
qed

theorem signature_ignores_key_order_witness:
  "signatureOf to_hex (\<lambda>b. Some (if b = [1] then JObj [(''b'', JNull), (''a'', JNum ''1''), (''ts'', JNum ''5'')]
       else JObj [(''a'', JNum ''1''), (''b'', JNull)]))
     \<lparr>sig_method = ''POST'', sig_host = ''h'', sig_path = ''/'', sig_body = Some [1],
       sig_contentType = Some ''application/json''\<rparr> \<lparr>ignoreJsonKeys = Some [''ts''], ignoreQueryParams = None\<rparr> =
   signatureOf to_hex (\<lambda>b. Some (if b = [1] then JObj [(''b'', JNull), (''a'', JNum ''1''), (''ts'', JNum ''5'')]
       else JObj [(''a'', JNum ''1''), (''b'', JNull)]))
     \<lparr>sig_method = ''POST'', sig_host = ''h'', sig_path = ''/'', sig_body = Some [2],
       sig_contentType = Some ''application/json''\<rparr> \<lparr>ignoreJsonKeys = Some [''ts''], ignoreQueryParams = None\<rparr>"
proof -
  let ?parse = "\<lambda>b :: bytes. Some (if b = [1] then JObj [(''b'', JNull), (''a'', JNum ''1''), (''ts'', JNum ''5'')]
       else JObj [(''a'', JNum ''1''), (''b'', JNull)])"
  let ?c = "\<lparr>ignoreJsonKeys = Some [''ts''], ignoreQueryParams = None\<rparr>"
  let ?i = "\<lparr>sig_method = ''POST'', sig_host = ''h'', sig_path = ''/'', sig_body = None, sig_contentType = None\<rparr>"
  have ct: "str_includes (toLowerCase ''application/json'') ''json''" by code_simp
  have "json_eq (JObj [(''b'', JNull), (''a'', JNum ''1'')]) (JObj [(''a'', JNum ''1''), (''b'', JNull)])"
    by (rule json_eq_obj) (auto intro: json_eq_refl)
  with signature_ignores_key_order [OF ct, of "[1]" "[2]" ?parse "JObj [(''b'', JNull), (''a'', JNum ''1''), (''ts'', JNum ''5'')]"
      "JObj [(''a'', JNum ''1''), (''b'', JNull)]" ?c to_hex ?i]
  show ?thesis by (simp add: or_nil_def)
qed

end
