(* ===== verification/Upload.thy ===== *)
theory Upload
  imports Client Signature
begin

text \<open>
  Blob uploads: a body too large to be sent inline is put under its digest into an object store. The SDK's side is
  \<open>uploadBlob\<close> and \<open>safeText\<close> of \<open>sdk-node/src/client.ts\<close>; the engine's is \<open>GetBlobUploadURL\<close>
  (\<open>engine/internal/api/grpc/capture.go\<close>) and \<open>PresignPut\<close> (\<open>engine/internal/storage/blob/s3.go\<close>), which looks whether an object
  with the key is there and else signs an address for it. The object store itself (S3 or one like it), the signing of addresses and the
  digest are arguments.
\<close>

section \<open>The SDK\<close>

record presign_request =
  pq_sessionId :: string
  pq_sha256 :: string
  pq_sizeBytes :: nat
  pq_contentType :: string

record presign_response =
  pr_uploadUrl :: string
  pr_bucket :: string
  pr_key :: string
  pr_requiredHeaders :: "string dict"
  pr_alreadyExists :: bool

text \<open>The answer to a \<open>PUT\<close>: its status and its text, \<open>None\<close> when the text cannot be read.\<close>

record put_response =
  pu_status :: nat
  pu_text :: "string option"

datatype upload_error = NotStarted | PresignFailed string | PutFailed string | UploadRefused nat string

type_synonym 's presigner = "presign_request \<Rightarrow> 's \<Rightarrow> string + presign_response"
type_synonym 's putter = "string \<Rightarrow> string dict \<Rightarrow> bytes \<Rightarrow> 's \<Rightarrow> (string + put_response) \<times> 's"

definition safeText :: "put_response \<Rightarrow> string" where
  "safeText r = (case pu_text r of None \<Rightarrow> ''<unreadable body>'' | Some t \<Rightarrow> take 200 t)"

definition response_ok :: "put_response \<Rightarrow> bool" where
  "response_ok r \<longleftrightarrow> 200 \<le> pu_status r \<and> pu_status r \<le> 299"

definition presign_of :: "(bytes \<Rightarrow> string) \<Rightarrow> string \<Rightarrow> bytes \<Rightarrow> string option \<Rightarrow> presign_request" where
  "presign_of sha sid data contentType =
     \<lparr>pq_sessionId = sid, pq_sha256 = sha data, pq_sizeBytes = length data,
      pq_contentType = (case contentType of None \<Rightarrow> ''application/octet-stream'' | Some t \<Rightarrow> t)\<rparr>"

definition uploadBlob :: "(bytes \<Rightarrow> string) \<Rightarrow> 's presigner \<Rightarrow> 's putter \<Rightarrow> session_handle option \<Rightarrow> bytes \<Rightarrow> string option
    \<Rightarrow> 's \<Rightarrow> (upload_error + blob_ref) \<times> 's" where
  "uploadBlob sha presign put session data contentType st =
     (case session of
        None \<Rightarrow> (Inl NotStarted, st)
      | Some h \<Rightarrow>
          (case presign (presign_of sha (session_id h) data contentType) st of
             Inl e \<Rightarrow> (Inl (PresignFailed e), st)
           | Inr p \<Rightarrow>
               (let ref = \<lparr>blob_bucket = pr_bucket p, blob_key = pr_key p, blob_sha256 = sha data\<rparr>
                in if pr_alreadyExists p then (Inr ref, st)
                   else (case put (pr_uploadUrl p) (pr_requiredHeaders p) data st of
                           (Inl e, st') \<Rightarrow> (Inl (PutFailed e), st')
                         | (Inr r, st') \<Rightarrow>
                             if \<not> response_ok r then (Inl (UploadRefused (pu_status r) (safeText r)), st')
                             else (Inr ref, st')))))"

section \<open>The engine\<close>

text \<open>
  What one request meets: which sessions the engine knows and how it refuses the others, whether a blob store is configured, whether the \<open>HEAD\<close> fails
  although the object is there, and the signing of an address for a key. The objects of the bucket are a map. Keys are the plain joined
  path: session ids and digests are single path segments, on which \<open>path.Join\<close> has nothing to clean.
\<close>

type_synonym objects = "string \<rightharpoonup> bytes"

record blob_env =
  be_sessions :: "string \<Rightarrow> bool"
  be_sessionError :: string
  be_configured :: bool
  be_bucket :: string
  be_headFails :: bool
  be_sign :: "string \<Rightarrow> string + string \<times> string dict"

definition object_key :: "string \<Rightarrow> string \<Rightarrow> string" where
  "object_key sid digest = ''sessions/'' @ sid @ ''/blobs/'' @ digest"

definition PresignPut :: "blob_env \<Rightarrow> presign_request \<Rightarrow> objects \<Rightarrow> string + presign_response" where
  "PresignPut env q objs =
     (if \<not> be_configured env then Inl ''blob storage not configured''
      else if pq_sessionId q = [] \<or> pq_sha256 q = [] then Inl ''blob: session_id and sha256 are required''
      else
        (let key = object_key (pq_sessionId q) (pq_sha256 q)
         in if objs key \<noteq> None \<and> \<not> be_headFails env
            then Inr \<lparr>pr_uploadUrl = [], pr_bucket = be_bucket env, pr_key = key, pr_requiredHeaders = [], pr_alreadyExists = True\<rparr>
            else (case be_sign env key of
                    Inl e \<Rightarrow> Inl (''blob: presign put: '' @ e)
                  | Inr (url, headers) \<Rightarrow>
                      Inr \<lparr>pr_uploadUrl = url, pr_bucket = be_bucket env, pr_key = key, pr_requiredHeaders = headers,
                           pr_alreadyExists = False\<rparr>)))"

definition GetBlobUploadURL :: "blob_env \<Rightarrow> presign_request \<Rightarrow> objects \<Rightarrow> string + presign_response" where
  "GetBlobUploadURL env q objs =
     (if \<not> be_sessions env (pq_sessionId q) then Inl (be_sessionError env)
      else if pq_sha256 q = [] then Inl ''sha256 is required''
      else if pq_sizeBytes q = 0 then Inl ''size_bytes must be > 0''
      else (case PresignPut env q objs of
              Inl e \<Rightarrow> Inl (if \<not> be_configured env then ''blob storage is not configured on this engine'' else ''presign put: '' @ e)
            | Inr p \<Rightarrow> Inr p))"

section \<open>Uploads\<close>

text \<open>
  A series of uploads by any clients of any sessions, each with the surroundings it meets.
\<close>

record upload =
  up_env :: blob_env
  up_put :: "objects putter"
  up_session :: "session_handle option"
  up_data :: bytes
  up_type :: "string option"

definition do_upload :: "(bytes \<Rightarrow> string) \<Rightarrow> upload \<Rightarrow> objects \<Rightarrow> (upload_error + blob_ref) \<times> objects" where
  "do_upload sha u objs =
     uploadBlob sha (GetBlobUploadURL (up_env u)) (up_put u) (up_session u) (up_data u) (up_type u) objs"

fun run_uploads :: "(bytes \<Rightarrow> string) \<Rightarrow> upload list \<Rightarrow> objects \<Rightarrow> (upload_error + blob_ref) list \<times> objects" where
  "run_uploads sha [] objs = ([], objs)"
| "run_uploads sha (u # us) objs =
     (case do_upload sha u objs of (x, objs) \<Rightarrow> case run_uploads sha us objs of (xs, objs) \<Rightarrow> (x # xs, objs))"

text \<open>
  What object stores document: an address is signed for one key, a \<open>PUT\<close> to it stores the whole body under that key or leaves
  everything as it was, and a success means that it was stored. A \<open>PUT\<close> that fails may have stored the body all the same.
\<close>

definition signs_for :: "(string \<Rightarrow> string) \<Rightarrow> blob_env \<Rightarrow> bool" where
  "signs_for addr env \<longleftrightarrow> (\<forall>key url headers. be_sign env key = Inr (url, headers) \<longrightarrow> addr url = key)"

definition stores_whole :: "(string \<Rightarrow> string) \<Rightarrow> objects putter \<Rightarrow> bool" where
  "stores_whole addr put \<longleftrightarrow> (\<forall>url headers d objs x objs'. put url headers d objs = (x, objs') \<longrightarrow>
     objs' \<in> {objs, objs(addr url \<mapsto> d)} \<and> (\<forall>r. x = Inr r \<and> response_ok r \<longrightarrow> objs' = objs(addr url \<mapsto> d)))"

text \<open>Every object that lies under the digest of some data is that data: what the engine's look at the key alone relies on.\<close>

definition content_addressed :: "(bytes \<Rightarrow> string) \<Rightarrow> objects \<Rightarrow> bool" where
  "content_addressed sha objs \<longleftrightarrow> (\<forall>sid d d'. objs (object_key sid (sha d)) = Some d' \<longrightarrow> d' = d)"

lemma object_key_digest:
  assumes "CHR ''/'' \<notin> set h" "CHR ''/'' \<notin> set h'" "object_key s h = object_key s' h'"
  shows "h = h'"
proof -
  have "takeWhile (\<lambda>c. c \<noteq> CHR ''/'') (rev (object_key s h)) = rev h" if "CHR ''/'' \<notin> set h" for s h
  proof -
    have "rev (object_key s h) = rev h @ CHR ''/'' # rev (''sessions/'' @ s @ ''/blobs'')" by (simp add: object_key_def)
    moreover have "\<forall>c \<in> set (rev h). c \<noteq> CHR ''/''" using that by auto
    moreover have "takeWhile (\<lambda>c. c \<noteq> CHR ''/'') (rev h @ CHR ''/'' # zs) = rev h" if "\<forall>c \<in> set (rev h). c \<noteq> CHR ''/''" for zs
      by (subst takeWhile_append2) (use that in auto)
    ultimately show ?thesis by (simp only:)
  qed
  from this [OF assms(1), of s] this [OF assms(2), of s'] assms(3) show ?thesis by simp
qed

lemma content_addressed_put:
  assumes "content_addressed sha objs" "inj sha" "\<And>x. CHR ''/'' \<notin> set (sha x)"
  shows "content_addressed sha (objs(object_key sid (sha d) \<mapsto> d)) \<and> objs \<subseteq>\<^sub>m objs(object_key sid (sha d) \<mapsto> d)"
proof
  have same: "e = e'" if "object_key s (sha e) = object_key s' (sha e')" for s e s' e'
    using object_key_digest [OF assms(3) assms(3) that] assms(2) by (simp add: inj_eq)
  show "content_addressed sha (objs(object_key sid (sha d) \<mapsto> d))"
    using assms(1) unfolding content_addressed_def by (auto dest!: same)
  show "objs \<subseteq>\<^sub>m objs(object_key sid (sha d) \<mapsto> d)"
    using assms(1) unfolding content_addressed_def map_le_def by (auto simp: domIff)
qed

text \<open>One upload.\<close>

lemma do_upload_spec:
  assumes "inj sha" "\<And>x. CHR ''/'' \<notin> set (sha x)" "content_addressed sha objs"
    and "stores_whole addr (up_put u)" "signs_for addr (up_env u)" "do_upload sha u objs = (x, objs')"
  shows "content_addressed sha objs' \<and> objs \<subseteq>\<^sub>m objs' \<and> (x = Inl NotStarted \<longleftrightarrow> up_session u = None) \<and>
    (\<forall>ref. x = Inr ref \<longrightarrow> blob_sha256 ref = sha (up_data u) \<and> blob_bucket ref = be_bucket (up_env u) \<and>
       objs' (blob_key ref) = Some (up_data u))"
proof (cases "up_session u")
  case None
  with assms(3,6) show ?thesis by (auto simp: do_upload_def uploadBlob_def)
next
  case (Some h)
  define q where "q = presign_of sha (session_id h) (up_data u) (up_type u)"
  define key where "key = object_key (session_id h) (sha (up_data u))"
  show ?thesis
  proof (cases "GetBlobUploadURL (up_env u) q objs")
    case (Inl e)
    with Some assms(3,6) show ?thesis by (auto simp: do_upload_def uploadBlob_def q_def)
  next
    case (Inr p)
    then have p: "pr_key p = key" "pr_bucket p = be_bucket (up_env u)" "pr_alreadyExists p \<Longrightarrow> objs key \<noteq> None"
      "\<not> pr_alreadyExists p \<Longrightarrow> addr (pr_uploadUrl p) = key"
      using assms(5) by (auto simp: GetBlobUploadURL_def PresignPut_def q_def presign_of_def key_def signs_for_def Let_def
          split: if_splits sum.splits)
    show ?thesis
    proof (cases "pr_alreadyExists p")
      case True
      with Some Inr assms(6) have "x = Inr \<lparr>blob_bucket = pr_bucket p, blob_key = key, blob_sha256 = sha (up_data u)\<rparr>" "objs' = objs"
        by (simp_all add: do_upload_def uploadBlob_def q_def [symmetric] p)
      moreover have "objs key = Some (up_data u)"
        using p(3) [OF True] assms(3) unfolding content_addressed_def key_def by auto
      ultimately show ?thesis using Some assms(3) p(2) by simp
    next
      case False
      obtain y where y: "up_put u (pr_uploadUrl p) (pr_requiredHeaders p) (up_data u) objs = (y, objs')"
        and x: "x = (case y of Inl e \<Rightarrow> Inl (PutFailed e)
          | Inr r \<Rightarrow> if \<not> response_ok r then Inl (UploadRefused (pu_status r) (safeText r))
                     else Inr \<lparr>blob_bucket = pr_bucket p, blob_key = key, blob_sha256 = sha (up_data u)\<rparr>)"
        using Some Inr False assms(6)
        by (auto simp: do_upload_def uploadBlob_def q_def [symmetric] p Let_def split: prod.splits sum.splits if_splits)
      have put: "objs' \<in> {objs, objs(key \<mapsto> up_data u)}" "\<And>r. y = Inr r \<Longrightarrow> response_ok r \<Longrightarrow> objs' = objs(key \<mapsto> up_data u)"
        using assms(4) y p(4) [OF False] unfolding stores_whole_def by blast+
      moreover note content_addressed_put [OF assms(3,1,2), of "session_id h" "up_data u", folded key_def]
      ultimately have "content_addressed sha objs' \<and> objs \<subseteq>\<^sub>m objs'" using assms(3) by auto
      with x put(2) Some p(2) show ?thesis by (cases y) auto
    qed
  qed
qed

text \<open>
  C34. Deduplication by digest is safe. Start from an object store in which what lies under a digest is the data with that digest (an
  empty one is such), and let any clients upload anything, in any order and with any failures of the engine and of the
  store. Every reference an upload returned then names, also after all later uploads, an object that is exactly the data that was
  given, whether the upload was made or skipped because the engine found the key; and no reference is returned where
  the object was not stored: an upload without a session is refused as not started, and all others with no reference are
  failures of the engine or of the \<open>PUT\<close>. Assumed: the digest is collision-free and has no slash, and the object store keeps what it
  documents; nobody else writes these keys.
\<close>

theorem upload_ref_denotes_data:
  assumes "inj sha" "\<And>x. CHR ''/'' \<notin> set (sha x)" "content_addressed sha objs"
    and "\<forall>u \<in> set us. stores_whole addr (up_put u) \<and> signs_for addr (up_env u)"
    and "run_uploads sha us objs = (xs, objs')"
  shows "content_addressed sha objs' \<and> length xs = length us \<and>
    (\<forall>i < length us. case xs ! i of
       Inr ref \<Rightarrow> blob_sha256 ref = sha (up_data (us ! i)) \<and> blob_bucket ref = be_bucket (up_env (us ! i)) \<and>
         objs' (blob_key ref) = Some (up_data (us ! i))
     | Inl e \<Rightarrow> e = NotStarted \<longleftrightarrow> up_session (us ! i) = None)"
proof -
  have "content_addressed sha objs' \<and> objs \<subseteq>\<^sub>m objs' \<and> length xs = length us \<and>
    (\<forall>i < length us. case xs ! i of
       Inr ref \<Rightarrow> blob_sha256 ref = sha (up_data (us ! i)) \<and> blob_bucket ref = be_bucket (up_env (us ! i)) \<and>
         objs' (blob_key ref) = Some (up_data (us ! i))
     | Inl e \<Rightarrow> e = NotStarted \<longleftrightarrow> up_session (us ! i) = None)"
    using assms(3-5)
  proof (induction us arbitrary: objs xs)
    case (Cons u us)
    obtain x o1 where x: "do_upload sha u objs = (x, o1)" by (cases "do_upload sha u objs")
    with Cons.prems(3) obtain ys where ys: "run_uploads sha us o1 = (ys, objs')" "xs = x # ys" by (auto split: prod.splits)
    have u: "content_addressed sha o1" "objs \<subseteq>\<^sub>m o1" "x = Inl NotStarted \<longleftrightarrow> up_session u = None"
      "\<And>ref. x = Inr ref \<Longrightarrow> blob_sha256 ref = sha (up_data u) \<and> blob_bucket ref = be_bucket (up_env u) \<and>
         o1 (blob_key ref) = Some (up_data u)"
      using do_upload_spec [OF assms(1,2) Cons.prems(1) _ _ x] Cons.prems(2) by auto
    note IH = Cons.IH [OF u(1) _ ys(1)]
    have le: "o1 \<subseteq>\<^sub>m objs'" using IH Cons.prems(2) by simp
    have keep: "objs' k = Some d" if "o1 k = Some d" for k d
      using le that unfolding map_le_def by (metis domI)
    show ?case
      using IH Cons.prems(2) u keep map_le_trans [OF u(2) le] unfolding ys(2)
      by (auto simp: nth_Cons split: nat.splits sum.splits)
  qed simp
  then show ?thesis by blast
qed

text \<open>A bucket that keeps what it is given, under addresses that are the keys; the data in hexadecimal is its digest.\<close>

definition keep_env :: blob_env where
  "keep_env = \<lparr>be_sessions = (\<lambda>sid. True), be_sessionError = [], be_configured = True, be_bucket = ''b'', be_headFails = False,
     be_sign = (\<lambda>key. Inr (key, []))\<rparr>"

definition keep_put :: "objects putter" where
  "keep_put url headers d objs = (Inr \<lparr>pu_status = 200, pu_text = None\<rparr>, objs(url \<mapsto> d))"

definition upload_session :: session_handle where
  "upload_session = \<lparr>session_id = ''s'', maxBatchSize = 1, maxEventsPerSecond = 1, recommendedFlushIntervalMs = 1\<rparr>"

definition two_bytes :: upload where
  "two_bytes = \<lparr>up_env = keep_env, up_put = keep_put, up_session = Some upload_session, up_data = [1, 2], up_type = None\<rparr>"

definition kept_ref :: blob_ref where
  "kept_ref = \<lparr>blob_bucket = ''b'', blob_key = object_key ''s'' (to_hex [1, 2]), blob_sha256 = to_hex [1, 2]\<rparr>"

theorem upload_ref_denotes_data_witness:
  "\<exists>ref objs'. run_uploads to_hex [two_bytes, two_bytes] Map.empty = ([Inr ref, Inr ref], objs') \<and>
     blob_sha256 ref = to_hex [1, 2] \<and> objs' (blob_key ref) = Some [1, 2]"
proof -
  let ?us = "[two_bytes, two_bytes]"
  have env: "\<forall>u \<in> set ?us. stores_whole id (up_put u) \<and> signs_for id (up_env u)"
    by (auto simp: two_bytes_def stores_whole_def signs_for_def keep_put_def keep_env_def)
  have "content_addressed to_hex Map.empty" by (simp add: content_addressed_def)
  moreover have hex: "to_hex [1, 2] \<noteq> []" by code_simp
  have first: "do_upload to_hex two_bytes objs = (if objs (object_key ''s'' (to_hex [1, 2])) = None
      then (Inr kept_ref, objs(object_key ''s'' (to_hex [1, 2]) \<mapsto> [1, 2])) else (Inr kept_ref, objs))" for objs
    using hex by (auto simp: do_upload_def uploadBlob_def GetBlobUploadURL_def PresignPut_def two_bytes_def keep_env_def keep_put_def
        upload_session_def presign_of_def response_ok_def kept_ref_def Let_def)
  then obtain ref objs' where run: "run_uploads to_hex ?us Map.empty = ([Inr ref, Inr ref], objs')" by simp
  ultimately have "\<forall>i < length ?us. case [Inr ref, Inr ref] ! i of
       Inr ref \<Rightarrow> blob_sha256 ref = to_hex (up_data (?us ! i)) \<and> blob_bucket ref = be_bucket (up_env (?us ! i)) \<and>
         objs' (blob_key ref) = Some (up_data (?us ! i))
     | Inl e \<Rightarrow> e = NotStarted \<longleftrightarrow> up_session (?us ! i) = None"
    using upload_ref_denotes_data [OF inj_to_hex to_hex_no_slash _ env] by blast
  then show ?thesis using run by (auto simp: two_bytes_def dest!: spec [of _ 0])
qed

end
