(* ===== verification/Mock_Store.thy ===== *)
theory Mock_Store
  imports Signature
begin

text \<open>
  The in-memory store of captured responses (\<open>sdk-node/src/hermetic/mock-store.ts\<close>) and its
  contract, the locale \<open>cycling_store\<close>: per key, a sequence of entries that is handed out in
  order and starts over when it is used up. The intercept layer relies on nothing else.
\<close>

section \<open>The store\<close>

record mock_entry =
  mock_eventId :: string
  mock_signature :: string
  mock_status :: int
  mock_responseHeaders :: "string list dict"
  mock_responseBody :: bytes
  mock_responseContentType :: string

record bucket =
  bucket_entries :: "mock_entry list"
  bucket_cursor :: nat

record mock_store =
  store_buckets :: "bucket dict"
  store_size :: nat

definition MockStore :: mock_store where
  "MockStore = \<lparr>store_buckets = [], store_size = 0\<rparr>"

definition keyOf :: "string \<Rightarrow> string \<Rightarrow> string" where
  "keyOf eventId signature = eventId @ ''|'' @ signature"

definition entry_key :: "mock_entry \<Rightarrow> string" where
  "entry_key e = keyOf (mock_eventId e) (mock_signature e)"

definition store_add :: "mock_entry \<Rightarrow> mock_store \<Rightarrow> mock_store" where
  "store_add e s =
     (let key = entry_key e;
          b = (case dict_get (store_buckets s) key of
                 None \<Rightarrow> \<lparr>bucket_entries = [], bucket_cursor = 0\<rparr>
               | Some b \<Rightarrow> b)
      in s\<lparr>store_buckets := dict_set key (b\<lparr>bucket_entries := bucket_entries b @ [e]\<rparr>) (store_buckets s),
           store_size := store_size s + 1\<rparr>)"

definition take_key :: "string \<Rightarrow> mock_store \<Rightarrow> mock_entry option \<times> mock_store" where
  "take_key key s =
     (case dict_get (store_buckets s) key of
        None \<Rightarrow> (None, s)
      | Some b \<Rightarrow>
          if length (bucket_entries b) = 0 then (None, s)
          else (let idx = bucket_cursor b mod length (bucket_entries b)
                in (Some (bucket_entries b ! idx),
                    s\<lparr>store_buckets := dict_set key (b\<lparr>bucket_cursor := bucket_cursor b + 1\<rparr>) (store_buckets s)\<rparr>)))"

definition store_take :: "string \<Rightarrow> string \<Rightarrow> mock_store \<Rightarrow> mock_entry option \<times> mock_store" where
  "store_take eventId signature s = take_key (keyOf eventId signature) s"

definition distinctKeys :: "mock_store \<Rightarrow> nat" where
  "distinctKeys s = length (store_buckets s)"

definition store_clear :: "mock_store \<Rightarrow> mock_store" where
  "store_clear s = s\<lparr>store_buckets := [], store_size := 0\<rparr>"

section \<open>The contract\<close>

text \<open>A sequence of lookups, with its answers.\<close>

fun takes_with :: "('k \<Rightarrow> 's \<Rightarrow> 'e option \<times> 's) \<Rightarrow> 'k list \<Rightarrow> 's \<Rightarrow> 'e option list \<times> 's" where
  "takes_with tk [] s = ([], s)"
| "takes_with tk (k # ks) s =
     (case tk k s of (r, s') \<Rightarrow> (case takes_with tk ks s' of (rs, t) \<Rightarrow> (r # rs, t)))"

locale cycling_store =
  fixes ins :: "'e \<Rightarrow> 's \<Rightarrow> 's"
    and tk :: "'k \<Rightarrow> 's \<Rightarrow> 'e option \<times> 's"
    and key :: "'e \<Rightarrow> 'k"
    and content :: "'s \<Rightarrow> 'k \<Rightarrow> 'e list"
    and handed :: "'s \<Rightarrow> 'k \<Rightarrow> nat"
  assumes content_ins: "content (ins e s) k = (if k = key e then content s k @ [e] else content s k)"
    and handed_ins: "handed (ins e s) k = handed s k"
    and content_tk: "content (snd (tk k s)) k' = content s k'"
    and handed_tk: "handed (snd (tk k s)) k' =
        (if k' = k \<and> content s k \<noteq> [] then Suc (handed s k) else handed s k')"
    and tk_result: "fst (tk k s) =
        (if content s k = [] then None else Some (content s k ! (handed s k mod length (content s k))))"
begin

lemma content_fold: "content (fold ins es s) k = content s k @ filter (\<lambda>e. key e = k) es"
  by (induction es arbitrary: s) (auto simp: content_ins)

lemma handed_fold: "handed (fold ins es s) k = handed s k"
  by (induction es arbitrary: s) (simp_all add: handed_ins)

lemma takes_nth:
  "i < length ks \<Longrightarrow> content s (ks ! i) \<noteq> [] \<Longrightarrow>
   fst (takes_with tk ks s) ! i =
     Some (content s (ks ! i) !
       ((handed s (ks ! i) + count_list (take i ks) (ks ! i)) mod length (content s (ks ! i))))"
proof (induction ks arbitrary: i s)
  case (Cons k ks)
  obtain r s' where t: "tk k s = (r, s')" by (cases "tk k s")
  then have s': "s' = snd (tk k s)" and r: "r = fst (tk k s)" by simp_all
  have st: "fst (takes_with tk (k # ks) s) = r # fst (takes_with tk ks s')"
    by (simp add: t split: prod.splits)
  show ?case
  proof (cases i)
    case 0
    with Cons.prems show ?thesis unfolding st r by (simp add: tk_result)
  next
    case (Suc j)
    have "content s' (ks ! j) = content s (ks ! j)" unfolding s' by (rule content_tk)
    moreover have "handed s' (ks ! j) = handed s (ks ! j) + (if ks ! j = k then 1 else 0)"
      using Cons.prems Suc unfolding s' by (auto simp: handed_tk)
    ultimately show ?thesis using Cons.IH [of j s'] Cons.prems Suc unfolding st by simp
  qed
qed simp

lemma after_takes:
  "content (snd (takes_with tk ks s)) k = content s k \<and>
   (content s k \<noteq> [] \<longrightarrow> handed (snd (takes_with tk ks s)) k = handed s k + count_list ks k)"
proof (induction ks arbitrary: s)
  case (Cons k' ks)
  have "snd (takes_with tk (k' # ks) s) = snd (takes_with tk ks (snd (tk k' s)))" by (simp split: prod.splits)
  with Cons.IH [of "snd (tk k' s)"] show ?case by (simp add: content_tk handed_tk)
qed simp

lemma takes_none:
  "content s k = [] \<Longrightarrow> fst (tk k s) = None"
  by (simp add: tk_result)

end

section \<open>The store keeps its contract\<close>

definition store_content :: "mock_store \<Rightarrow> string \<Rightarrow> mock_entry list" where
  "store_content s k = (case dict_get (store_buckets s) k of None \<Rightarrow> [] | Some b \<Rightarrow> bucket_entries b)"

definition store_handed :: "mock_store \<Rightarrow> string \<Rightarrow> nat" where
  "store_handed s k = (case dict_get (store_buckets s) k of None \<Rightarrow> 0 | Some b \<Rightarrow> bucket_cursor b)"

interpretation ms: cycling_store store_add take_key entry_key store_content store_handed
proof unfold_locales
  show "store_content (store_add e s) k = (if k = entry_key e then store_content s k @ [e] else store_content s k)"
    for e s k
    by (simp add: store_content_def store_add_def Let_def split: option.splits)
  show "store_handed (store_add e s) k = store_handed s k" for e s k
    by (simp add: store_handed_def store_add_def Let_def split: option.splits)
  show "store_content (snd (take_key k s)) k' = store_content s k'" for k s k'
    by (simp add: store_content_def take_key_def Let_def split: option.splits)
  show "store_handed (snd (take_key k s)) k' =
      (if k' = k \<and> store_content s k \<noteq> [] then Suc (store_handed s k) else store_handed s k')" for k s k'
    by (simp add: store_handed_def store_content_def take_key_def Let_def split: option.splits)
  show "fst (take_key k s) = (if store_content s k = [] then None
      else Some (store_content s k ! (store_handed s k mod length (store_content s k))))" for k s
    by (simp add: store_handed_def store_content_def take_key_def Let_def split: option.splits)
qed

text \<open>The bookkeeping: sizes agree with the buckets.\<close>

definition store_inv :: "mock_store \<Rightarrow> bool" where
  "store_inv s \<longleftrightarrow> distinct (dict_keys (store_buckets s)) \<and>
     store_size s = sum_list (map (length \<circ> bucket_entries \<circ> snd) (store_buckets s)) \<and>
     (\<forall>b \<in> snd ` set (store_buckets s). bucket_entries b \<noteq> [])"

lemma sum_dict_set:
  fixes f :: "'v \<Rightarrow> nat"
  assumes "distinct (dict_keys d)"
  shows "sum_list (map (f \<circ> snd) (dict_set k v d)) + (case dict_get d k of None \<Rightarrow> 0 | Some w \<Rightarrow> f w) =
    sum_list (map (f \<circ> snd) d) + f v"
  using assms
proof (induction d)
  case (Cons x d)
  obtain k' w where x: "x = (k', w)" by (cases x)
  show ?case
  proof (cases "k' = k")
    case False
    with Cons show ?thesis unfolding x by (simp split: option.splits)
  qed (simp add: x)
qed simp

lemma snd_dict_set: "b \<in> snd ` set (dict_set k v d) \<Longrightarrow> b = v \<or> b \<in> snd ` set d"
  by (induction d) (auto split: if_splits)

lemma store_inv_add:
  assumes "store_inv s"
  shows "store_inv (store_add e s)"
proof -
  let ?d = "store_buckets s" and ?k = "entry_key e"
  define b where "b = (case dict_get ?d ?k of None \<Rightarrow> \<lparr>bucket_entries = [], bucket_cursor = 0\<rparr> | Some b \<Rightarrow> b)"
  define b' where "b' = b\<lparr>bucket_entries := bucket_entries b @ [e]\<rparr>"
  have add: "store_add e s = s\<lparr>store_buckets := dict_set ?k b' ?d, store_size := store_size s + 1\<rparr>"
    by (simp add: store_add_def Let_def b'_def b_def)
  have d: "distinct (dict_keys ?d)" using assms by (simp add: store_inv_def)
  have "(case dict_get ?d ?k of None \<Rightarrow> 0 | Some w \<Rightarrow> (length \<circ> bucket_entries) w) = length (bucket_entries b)"
    unfolding b_def by (cases "dict_get ?d ?k") simp_all
  with sum_dict_set [OF d, of "length \<circ> bucket_entries" ?k b']
  have "sum_list (map (length \<circ> bucket_entries \<circ> snd) (dict_set ?k b' ?d)) =
    sum_list (map (length \<circ> bucket_entries \<circ> snd) ?d) + 1"
    by (simp add: b'_def)
  moreover have "bucket_entries x \<noteq> []" if "x \<in> snd ` set (dict_set ?k b' ?d)" for x
    using snd_dict_set [OF that] assms by (auto simp: store_inv_def b'_def)
  ultimately show ?thesis using assms unfolding add by (simp add: store_inv_def)
qed

lemma store_inv_take:
  assumes "store_inv s"
  shows "store_inv (snd (take_key k s))"
proof (cases "dict_get (store_buckets s) k")
  case (Some b)
  then have mem: "b \<in> snd ` set (store_buckets s)" by (metis image_eqI map_of_SomeD snd_conv)
  let ?b = "b\<lparr>bucket_cursor := bucket_cursor b + 1\<rparr>"
  from sum_dict_set [of "store_buckets s" "length \<circ> bucket_entries" k ?b] assms Some
  have "sum_list (map (length \<circ> bucket_entries \<circ> snd) (dict_set k ?b (store_buckets s))) =
      sum_list (map (length \<circ> bucket_entries \<circ> snd) (store_buckets s))"
    by (simp add: store_inv_def)
  moreover have "bucket_entries x \<noteq> []" if "x \<in> snd ` set (dict_set k ?b (store_buckets s))" for x
    using snd_dict_set [OF that] assms mem by (auto simp: store_inv_def)
  ultimately show ?thesis using assms Some by (simp add: store_inv_def take_key_def Let_def)
qed (use assms in \<open>simp add: take_key_def\<close>)

lemma store_inv_new: "store_inv MockStore"
  by (simp add: store_inv_def MockStore_def)

lemma store_inv_fold: "store_inv s \<Longrightarrow> store_inv (fold store_add es s)"
  by (induction es arbitrary: s) (simp_all add: store_inv_add)

lemma store_size_fold: "store_size (fold store_add es s) = store_size s + length es"
  by (induction es arbitrary: s) (simp_all add: store_add_def Let_def)

text \<open>
  C15. Captured responses are replayed in capture order: after a mock pack is loaded, the i-th of
  any sequence of lookups gets the entry of its key that comes next in the pack, cycling when the
  captured ones are used up, undisturbed by the lookups of other keys in between.
\<close>

theorem take_replays_in_order:
  assumes "i < length ks" "filter (\<lambda>e. entry_key e = keyOf (fst (ks ! i)) (snd (ks ! i))) pack \<noteq> []"
  shows "fst (takes_with (\<lambda>(e, s). store_take e s) ks (fold store_add pack MockStore)) ! i =
    (let mine = filter (\<lambda>e. entry_key e = keyOf (fst (ks ! i)) (snd (ks ! i))) pack
     in Some (mine ! (count_list (map (\<lambda>(e, s). keyOf e s) (take i ks)) (keyOf (fst (ks ! i)) (snd (ks ! i))) mod length mine)))"
proof -
  let ?keys = "map (\<lambda>(e, s). keyOf e s) ks"
  have run: "takes_with (\<lambda>(e, s). store_take e s) ks st = takes_with take_key ?keys st" for st
    by (induction ks arbitrary: st) (auto simp: store_take_def)
  have new: "store_content MockStore k = []" "store_handed MockStore k = 0" for k
    by (simp_all add: store_content_def store_handed_def MockStore_def)
  have k: "?keys ! i = keyOf (fst (ks ! i)) (snd (ks ! i))" "i < length ?keys"
    using assms(1) by (simp_all add: case_prod_beta)
  have c: "store_content (fold store_add pack MockStore) (?keys ! i) =
      filter (\<lambda>e. entry_key e = keyOf (fst (ks ! i)) (snd (ks ! i))) pack"
    by (simp only: ms.content_fold new append_Nil k)
  from ms.takes_nth [OF k(2), of "fold store_add pack MockStore"] assms(2)
  show ?thesis
    unfolding run c ms.handed_fold new by (simp only: k(1) Let_def add_0 take_map) blast
qed

text \<open>
  The counters are exact: whatever has been added and taken, \<open>size\<close> is the number of entries
  in the buckets, a bucket is never empty, and \<open>take\<close> changes neither counter.
\<close>

theorem store_counts:
  "store_inv (snd (takes_with take_key ks (fold store_add pack MockStore))) \<and>
   store_size (snd (takes_with take_key ks (fold store_add pack MockStore))) = length pack"
proof -
  have "store_inv st \<Longrightarrow> store_inv (snd (takes_with take_key ks st)) \<and>
      store_size (snd (takes_with take_key ks st)) = store_size st" for st
  proof (induction ks arbitrary: st)
    case (Cons k ks)
    have "store_size (snd (take_key k st)) = store_size st"
      by (simp add: take_key_def Let_def split: option.splits)
    with Cons.IH [OF store_inv_take [OF Cons.prems, of k]] show ?case
      by (simp split: prod.splits) (metis snd_conv)
  qed simp
  from this [OF store_inv_fold [OF store_inv_new, of pack]] show ?thesis
    by (simp add: store_size_fold MockStore_def)
qed

lemma keyOf_inject:
  assumes "CHR ''|'' \<notin> set s" "CHR ''|'' \<notin> set s'" "keyOf e s = keyOf e' s'"
  shows "e = e' \<and> s = s'"
  using bar_split_last [OF assms(1,2), of e e'] assms(3) by (simp add: keyOf_def)

theorem take_replays_in_order_witness:
  "fst (takes_with (\<lambda>(e, s). store_take e s) [(''e'', ''a''), (''e'', ''b''), (''e'', ''a''), (''e'', ''a'')]
     (fold store_add
       [\<lparr>mock_eventId = ''e'', mock_signature = ''a'', mock_status = 200, mock_responseHeaders = [], mock_responseBody = [1], mock_responseContentType = []\<rparr>,
        \<lparr>mock_eventId = ''e'', mock_signature = ''b'', mock_status = 200, mock_responseHeaders = [], mock_responseBody = [2], mock_responseContentType = []\<rparr>,
        \<lparr>mock_eventId = ''e'', mock_signature = ''a'', mock_status = 200, mock_responseHeaders = [], mock_responseBody = [3], mock_responseContentType = []\<rparr>] MockStore)) ! 2 =
   Some \<lparr>mock_eventId = ''e'', mock_signature = ''a'', mock_status = 200, mock_responseHeaders = [], mock_responseBody = [3], mock_responseContentType = []\<rparr>"
proof -
  let ?e = "\<lambda>s n. \<lparr>mock_eventId = ''e'', mock_signature = s, mock_status = 200, mock_responseHeaders = [], mock_responseBody = [n], mock_responseContentType = []\<rparr>"
  let ?ks = "[(''e'', ''a''), (''e'', ''b''), (''e'', ''a''), (''e'', ''a'')]"
  have "2 < length ?ks" by simp
  moreover have "filter (\<lambda>e. entry_key e = keyOf (fst (?ks ! 2)) (snd (?ks ! 2))) [?e ''a'' 1, ?e ''b'' 2, ?e ''a'' 3]
      = [?e ''a'' 1, ?e ''a'' 3]" by (simp add: entry_key_def keyOf_def)
  ultimately show ?thesis
    using take_replays_in_order [of 2 ?ks "[?e ''a'' 1, ?e ''b'' 2, ?e ''a'' 3]"]
    by (simp add: keyOf_def numeral_2_eq_2)
qed

end
