(* ===== verification/Intercept.thy ===== *)
theory Intercept
  imports Mock_Store
begin

text \<open>
  The hermetic intercept layer (\<open>sdk-node/src/hermetic/intercept.ts\<close>): the patched \<open>http.request\<close>,
  \<open>http.get\<close> and \<open>fetch\<close> answer from the mock store when the call belongs to a captured event and
  pass through otherwise.

  The URL parser is an argument (\<open>parse_url\<close>); SHA-256 and \<open>JSON.parse\<close> are those of theory
  \<open>Signature\<close>. A number given as a port is its decimal text, the number 0 the empty text (both are
  false in a condition). Callbacks are represented by what they receive.
\<close>

section \<open>Data\<close>

record url =
  url_protocol :: string
  url_hostname :: string
  url_port :: string
  url_pathname :: string
  url_search :: string

definition url_host :: "url \<Rightarrow> string" where
  "url_host u = (if url_port u = [] then url_hostname u else url_hostname u @ '':'' @ url_port u)"

definition url_path :: "url \<Rightarrow> string" where
  "url_path u = url_pathname u @ url_search u"

type_synonym url_parser = "string \<Rightarrow> url option"

datatype policy = Strict | Loose

record unmocked_info =
  info_protocol :: string
  info_method :: string
  info_host :: string
  info_path :: string
  info_eventId :: string
  info_signature :: string

text \<open>\<open>OutgoingHttpHeaders\<close>: a dictionary, a flat list of names and values, or nothing.\<close>

datatype out_headers = NoOutHeaders | FlatHeaders "string list" | DictHeaders "header_value dict"

record request_options =
  opt_protocol :: "string option"
  opt_hostname :: "string option"
  opt_host :: "string option"
  opt_port :: "string option"
  opt_method :: "string option"
  opt_path :: "string option"
  opt_headers :: "out_headers option"
  opt_undefined :: "string list"

definition no_options :: request_options where
  "no_options = \<lparr>opt_protocol = None, opt_hostname = None, opt_host = None, opt_port = None,
     opt_method = None, opt_path = None, opt_headers = None, opt_undefined = []\<rparr>"

datatype request_arg = ArgString string | ArgUrl url | ArgOptions request_options | ArgCallback | ArgOther

datatype js_error = InvalidUrl | Unmocked unmocked_info | NullBodyStatus int | BadStatus int

section \<open>Shared helpers\<close>

definition or_else :: "'a option \<Rightarrow> 'a option \<Rightarrow> 'a option" where
  "or_else a b = (case a of None \<Rightarrow> b | Some x \<Rightarrow> Some x)"

text \<open>
  The spread \<open>{...a, ...b}\<close>: what b has wins, a property that is there with the value \<open>undefined\<close> included
  (\<open>opt_undefined\<close> are the names of those).
\<close>

definition spread_field :: "request_options \<Rightarrow> string \<Rightarrow> (request_options \<Rightarrow> 'a option) \<Rightarrow> request_options \<Rightarrow> 'a option" where
  "spread_field b name field a = (if name \<in> set (opt_undefined b) then None else or_else (field b) (field a))"

definition merge_options :: "request_options \<Rightarrow> request_options \<Rightarrow> request_options" where
  "merge_options a b =
     \<lparr>opt_protocol = spread_field b ''protocol'' opt_protocol a, opt_hostname = spread_field b ''hostname'' opt_hostname a,
      opt_host = spread_field b ''host'' opt_host a, opt_port = spread_field b ''port'' opt_port a,
      opt_method = spread_field b ''method'' opt_method a, opt_path = spread_field b ''path'' opt_path a,
      opt_headers = spread_field b ''headers'' opt_headers a, opt_undefined = opt_undefined a @ opt_undefined b\<rparr>"

definition url_options :: "url \<Rightarrow> request_options" where
  "url_options u = no_options\<lparr>opt_protocol := Some (url_protocol u), opt_hostname := Some (url_hostname u),
     opt_port := (if url_port u = [] then None else Some (url_port u)), opt_path := Some (url_path u)\<rparr>"

record normalized_args =
  norm_options :: request_options
  norm_protocol :: string
  norm_callback :: bool

definition normalizeRequestArgs :: "url_parser \<Rightarrow> request_arg list \<Rightarrow> string \<Rightarrow> js_error + normalized_args" where
  "normalizeRequestArgs parse_url args defaultProtocol =
     (let go = (\<lambda>options protocol rest.
            (let (options, protocol, rest) =
               (case rest of
                  ArgOptions o' # rest' \<Rightarrow>
                    (let m = merge_options options o'
                     in (m, (case opt_protocol m of Some p \<Rightarrow> p | None \<Rightarrow> protocol), rest'))
                | _ \<Rightarrow> (options, protocol, rest))
             in Inr \<lparr>norm_options = options, norm_protocol = protocol,
                     norm_callback = (case rest of ArgCallback # _ \<Rightarrow> True | _ \<Rightarrow> False)\<rparr>))
      in case args of
           ArgString s # rest \<Rightarrow>
             (case parse_url s of
                None \<Rightarrow> Inl InvalidUrl
              | Some u \<Rightarrow> go (url_options u) (url_protocol u) rest)
         | ArgUrl u # rest \<Rightarrow> go (url_options u) (url_protocol u) rest
         | _ \<Rightarrow> go no_options defaultProtocol args)"

datatype chunk = ChunkNull | ChunkBuffer bytes | ChunkString string | ChunkOther

definition toBuffer :: "chunk \<Rightarrow> bytes" where
  "toBuffer c = (case c of ChunkBuffer b \<Rightarrow> b | ChunkString s \<Rightarrow> utf8_encode s | _ \<Rightarrow> [])"

fun flat_header :: "string list \<Rightarrow> string \<Rightarrow> string option" where
  "flat_header (n # v # rest) target = (if toLowerCase n = target then Some v else flat_header rest target)"
| "flat_header _ target = None"

fun dict_header :: "header_value dict \<Rightarrow> string \<Rightarrow> string option" where
  "dict_header [] target = None"
| "dict_header ((k, v) # rest) target =
     (if toLowerCase k = target
      then (case v of HList vs \<Rightarrow> (case vs of [] \<Rightarrow> None | x # _ \<Rightarrow> Some x)
            | HNum n \<Rightarrow> Some n | HStr s \<Rightarrow> Some s | HUndef \<Rightarrow> None)
      else dict_header rest target)"

definition firstHeader :: "out_headers option \<Rightarrow> string \<Rightarrow> string option" where
  "firstHeader headers name =
     (case headers of
        None \<Rightarrow> None
      | Some NoOutHeaders \<Rightarrow> None
      | Some (FlatHeaders hs) \<Rightarrow> flat_header hs (toLowerCase name)
      | Some (DictHeaders hs) \<Rightarrow> dict_header hs (toLowerCase name))"

text \<open>A header of an \<open>IncomingMessage\<close>: one string, or the list when there are several.\<close>

fun flattenHeadersForIncoming :: "string list dict \<Rightarrow> header_value dict \<Rightarrow> header_value dict" where
  "flattenHeadersForIncoming [] out = out"
| "flattenHeadersForIncoming ((k, vs) # rest) out =
     flattenHeadersForIncoming rest
       (case vs of
          [] \<Rightarrow> out
        | [v] \<Rightarrow> dict_set (toLowerCase k) (HStr v) out
        | _ \<Rightarrow> dict_set (toLowerCase k) (HList vs) out)"

fun flatHeadersForResponse :: "string list dict \<Rightarrow> string dict \<Rightarrow> string dict" where
  "flatHeadersForResponse [] out = out"
| "flatHeadersForResponse ((k, vs) # rest) out =
     flatHeadersForResponse rest (case vs of [] \<Rightarrow> out | v # _ \<Rightarrow> dict_set k v out)"

definition defaultStatusMessage :: "int \<Rightarrow> string" where
  "defaultStatusMessage status =
     (case map_of [(200, ''OK''), (201, ''Created''), (204, ''No Content''), (301, ''Moved Permanently''),
        (302, ''Found''), (400, ''Bad Request''), (401, ''Unauthorized''), (403, ''Forbidden''),
        (404, ''Not Found''), (429, ''Too Many Requests''), (500, ''Internal Server Error''),
        (502, ''Bad Gateway''), (503, ''Service Unavailable'')] status of
        None \<Rightarrow> [] | Some m \<Rightarrow> m)"

section \<open>The http request shim\<close>

text \<open>What is fixed when the hermetic layer is installed.\<close>

record hermetic_env =
  env_sha :: sha256
  env_parse :: json_parser
  env_url :: url_parser
  env_policy :: policy
  env_canon :: canonicalize_config

record hermetic_request =
  hr_protocol :: string
  hr_host :: string
  hr_port :: string
  hr_method :: string
  hr_path :: string
  hr_headers :: "out_headers option"
  hr_causedBy :: string
  hr_chunks :: "bytes list"
  hr_ended :: bool
  hr_callback :: bool

definition buildHermeticRequest :: "request_options \<Rightarrow> string \<Rightarrow> string \<Rightarrow> bool \<Rightarrow> hermetic_request" where
  "buildHermeticRequest options protocol causedBy callback =
     \<lparr>hr_protocol = protocol,
      hr_host = toLowerCase (case or_else (opt_hostname options) (opt_host options) of
                  None \<Rightarrow> ''localhost'' | Some h \<Rightarrow> h),
      hr_port = (case opt_port options of None \<Rightarrow> [] | Some p \<Rightarrow> if p = [] then [] else '':'' @ p),
      hr_method = toUpperCase (case opt_method options of None \<Rightarrow> ''GET'' | Some m \<Rightarrow> m),
      hr_path = (case opt_path options of None \<Rightarrow> ''/'' | Some p \<Rightarrow> p),
      hr_headers = opt_headers options, hr_causedBy = causedBy, hr_chunks = [], hr_ended = False,
      hr_callback = callback\<rparr>"

definition hermeticWrite :: "chunk \<Rightarrow> hermetic_request \<Rightarrow> hermetic_request" where
  "hermeticWrite c r = (if c = ChunkNull then r else r\<lparr>hr_chunks := hr_chunks r @ [toBuffer c]\<rparr>)"

text \<open>
  The other methods of the request object do nothing: a header set after creation is neither kept nor read back, and an aborted
  request can still be ended.
\<close>

datatype request_call = SetHeader string string | GetHeader string | Abort | Destroy

fun hermetic_call :: "request_call \<Rightarrow> hermetic_request \<Rightarrow> hermetic_request \<times> string option" where
  "hermetic_call (SetHeader name v) r = (r, None)"
| "hermetic_call (GetHeader name) r = (r, None)"
| "hermetic_call Abort r = (r, None)"
| "hermetic_call Destroy r = (r, None)"

record incoming =
  res_statusCode :: int
  res_statusMessage :: string
  res_headers :: "header_value dict"
  res_body :: bytes

definition emitResponse :: "mock_entry \<Rightarrow> incoming" where
  "emitResponse entry =
     \<lparr>res_statusCode = mock_status entry, res_statusMessage = defaultStatusMessage (mock_status entry),
      res_headers = flattenHeadersForIncoming (mock_responseHeaders entry) [],
      res_body = mock_responseBody entry\<rparr>"

text \<open>What a request emits, and what the \<open>onUnmocked\<close> hook is told.\<close>

datatype emission = Response incoming | ErrorEvent js_error

definition request_signature :: "hermetic_env \<Rightarrow> hermetic_request \<Rightarrow> string" where
  "request_signature env r =
     signatureOf (env_sha env) (env_parse env)
       \<lparr>sig_method = hr_method r, sig_host = hr_host r @ hr_port r, sig_path = hr_path r,
        sig_body = Some (concat (hr_chunks r)), sig_contentType = firstHeader (hr_headers r) ''content-type''\<rparr>
       (env_canon env)"

definition loose_entry :: "string \<Rightarrow> string \<Rightarrow> mock_entry" where
  "loose_entry causedBy sig =
     \<lparr>mock_eventId = causedBy, mock_signature = sig, mock_status = 200,
      mock_responseHeaders = [(''content-type'', [''application/json''])],
      mock_responseBody = utf8_encode ''{}'', mock_responseContentType = ''application/json''\<rparr>"

definition hermeticEnd :: "hermetic_env \<Rightarrow> chunk \<Rightarrow> hermetic_request \<Rightarrow> mock_store
    \<Rightarrow> hermetic_request \<times> mock_store \<times> emission option \<times> unmocked_info list" where
  "hermeticEnd env c r store =
     (if hr_ended r then (r, store, None, [])
      else
        (let r = hermeticWrite c (r\<lparr>hr_ended := True\<rparr>);
             sig = request_signature env r
         in case store_take (hr_causedBy r) sig store of
              (Some entry, store') \<Rightarrow> (r, store', Some (Response (emitResponse entry)), [])
            | (None, store') \<Rightarrow>
                (let info = \<lparr>info_protocol = hr_protocol r, info_method = hr_method r,
                       info_host = hr_host r @ hr_port r, info_path = hr_path r,
                       info_eventId = hr_causedBy r, info_signature = sig\<rparr>
                 in (r, store',
                     Some (if env_policy env = Strict then ErrorEvent (Unmocked info)
                           else Response (emitResponse (loose_entry (hr_causedBy r) sig))),
                     [info]))))"

text \<open>What a caller does with a request object, with everything the object emits and every unmocked call it reports.\<close>

datatype request_use = UseWrite chunk | UseEnd chunk | UseOther request_call

fun use_request :: "hermetic_env \<Rightarrow> request_use \<Rightarrow> hermetic_request \<times> mock_store \<times> emission list \<times> unmocked_info list
    \<Rightarrow> hermetic_request \<times> mock_store \<times> emission list \<times> unmocked_info list" where
  "use_request env (UseWrite c) (r, store, out, told) = (hermeticWrite c r, store, out, told)"
| "use_request env (UseEnd c) (r, store, out, told) =
     (case hermeticEnd env c r store of
        (r', store', e, infos) \<Rightarrow> (r', store', out @ (case e of None \<Rightarrow> [] | Some x \<Rightarrow> [x]), told @ infos))"
| "use_request env (UseOther k) (r, store, out, told) = (fst (hermetic_call k r), store, out, told)"

text \<open>The patched \<open>request\<close>: the original function, an exception, or a hermetic request.\<close>

datatype shim_result = PassThrough "request_arg list" | Threw js_error | Hermetic hermetic_request

definition hermeticRequest :: "hermetic_env \<Rightarrow> string \<Rightarrow> scope \<Rightarrow> request_arg list \<Rightarrow> shim_result" where
  "hermeticRequest env defaultProtocol scope args =
     (case normalizeRequestArgs (env_url env) args defaultProtocol of
        Inl e \<Rightarrow> Threw e
      | Inr n \<Rightarrow>
          (case currentEventId scope of
             None \<Rightarrow> PassThrough args
           | Some causedBy \<Rightarrow>
               if causedBy = [] then PassThrough args
               else Hermetic (buildHermeticRequest (norm_options n) (norm_protocol n) causedBy (norm_callback n))))"

text \<open>The patched \<open>get\<close>: \<open>request\<close> and \<open>end\<close> in one.\<close>

definition hermeticGet :: "hermetic_env \<Rightarrow> string \<Rightarrow> scope \<Rightarrow> request_arg list \<Rightarrow> mock_store
    \<Rightarrow> shim_result \<times> mock_store \<times> emission option \<times> unmocked_info list" where
  "hermeticGet env defaultProtocol scope args store =
     (case hermeticRequest env defaultProtocol scope args of
        Hermetic r \<Rightarrow> (case hermeticEnd env ChunkNull r store of (r', rest) \<Rightarrow> (Hermetic r', rest))
      | other \<Rightarrow> (other, store, None, []))"

section \<open>The fetch shim\<close>

text \<open>A \<open>Blob\<close> has bytes and a type, which a real request would send as its content type.\<close>

datatype fetch_body = BodyString string | BodyBytes bytes | BodyParams "(string \<times> string) list" | BodyBlob bytes string | BodyOther

definition readBody :: "fetch_body \<Rightarrow> bytes" where
  "readBody b = (case b of BodyString s \<Rightarrow> utf8_encode s | BodyBytes bs \<Rightarrow> bs
     | BodyParams ps \<Rightarrow> utf8_encode (qs_print ps) | BodyBlob bs type \<Rightarrow> bs | BodyOther \<Rightarrow> [])"

datatype init_headers = NoInitHeaders | HeadersObject "string dict" | PairHeaders "(string \<times> string) list"
  | PlainHeaders "string dict"

definition headerString :: "init_headers \<Rightarrow> string \<Rightarrow> string option" where
  "headerString headers name =
     (let target = toLowerCase name;
          lookup = (\<lambda>hs. map_option snd (find (\<lambda>(k, v). toLowerCase k = target) hs))
      in case headers of
           NoInitHeaders \<Rightarrow> None
         | HeadersObject hs \<Rightarrow> fetch_get hs target
         | PairHeaders ps \<Rightarrow> lookup ps
         | PlainHeaders ps \<Rightarrow> lookup ps)"

record request_init =
  init_method :: "string option"
  init_body :: "fetch_body option"
  init_headers :: init_headers

record fetch_request =
  freq_url :: string
  freq_method :: string
  freq_body :: "bytes option"
  freq_headers :: "string dict"

datatype fetch_input = FetchString string | FetchUrl url | FetchRequest fetch_request

record extracted_call =
  call_url :: url
  call_method :: string
  call_body :: "bytes option"
  call_contentType :: "string option"

definition no_init :: request_init where
  "no_init = \<lparr>init_method = None, init_body = None, init_headers = NoInitHeaders\<rparr>"

definition extractFetchCall :: "url_parser \<Rightarrow> fetch_input \<Rightarrow> request_init option \<Rightarrow> js_error + extracted_call" where
  "extractFetchCall parse_url inp init0 =
     (let ini = (case init0 of None \<Rightarrow> no_init | Some i \<Rightarrow> i);
          plain = (\<lambda>u. \<lparr>call_url = u,
             call_method = toUpperCase (case init_method ini of None \<Rightarrow> ''GET'' | Some m \<Rightarrow> m),
             call_body = map_option readBody (init_body ini),
             call_contentType = headerString (init_headers ini) ''content-type''\<rparr>)
      in case inp of
           FetchString s \<Rightarrow> (case parse_url s of None \<Rightarrow> Inl InvalidUrl | Some u \<Rightarrow> Inr (plain u))
         | FetchUrl u \<Rightarrow> Inr (plain u)
         | FetchRequest r \<Rightarrow>
             (case parse_url (freq_url r) of
                None \<Rightarrow> Inl InvalidUrl
              | Some u \<Rightarrow>
                  Inr \<lparr>call_url = u,
                       call_method = toUpperCase (case init_method ini of None \<Rightarrow> freq_method r | Some m \<Rightarrow> m),
                       call_body = (case init_body ini of Some b \<Rightarrow> Some (readBody b) | None \<Rightarrow> freq_body r),
                       call_contentType = or_else (headerString (init_headers ini) ''content-type'')
                         (fetch_get (freq_headers r) ''content-type'')\<rparr>))"

record fetch_response =
  fres_status :: int
  fres_headers :: "string dict"
  fres_body :: bytes

text \<open>
  The \<open>Response\<close> constructor of the Fetch standard with a body: a status outside 200 to 599 is a
  RangeError, a null body status a TypeError.
\<close>

definition new_Response :: "bytes \<Rightarrow> int \<Rightarrow> string dict \<Rightarrow> js_error + fetch_response" where
  "new_Response b status headers =
     (if status < 200 \<or> 599 < status then Inl (BadStatus status)
      else if status \<in> {204, 205, 304} then Inl (NullBodyStatus status)
      else Inr \<lparr>fres_status = status, fres_headers = headers, fres_body = b\<rparr>)"

datatype fetch_result = FetchPassThrough | FetchRejected js_error | FetchResolved fetch_response

definition fetch_signature :: "hermetic_env \<Rightarrow> extracted_call \<Rightarrow> string" where
  "fetch_signature env call =
     signatureOf (env_sha env) (env_parse env)
       \<lparr>sig_method = call_method call, sig_host = url_host (call_url call), sig_path = url_path (call_url call),
        sig_body = call_body call, sig_contentType = call_contentType call\<rparr> (env_canon env)"

definition hermeticFetch :: "hermetic_env \<Rightarrow> scope \<Rightarrow> fetch_input \<Rightarrow> request_init option \<Rightarrow> mock_store
    \<Rightarrow> fetch_result \<times> mock_store \<times> unmocked_info list" where
  "hermeticFetch env scope inp ini store =
     (case currentEventId scope of
        None \<Rightarrow> (FetchPassThrough, store, [])
      | Some causedBy \<Rightarrow>
          if causedBy = [] then (FetchPassThrough, store, [])
          else (case extractFetchCall (env_url env) inp ini of
             Inl e \<Rightarrow> (FetchRejected e, store, [])
           | Inr call \<Rightarrow>
               (let sig = fetch_signature env call;
                    answer = (\<lambda>x. case x of Inl e \<Rightarrow> FetchRejected e | Inr r \<Rightarrow> FetchResolved r)
                in case store_take causedBy sig store of
                     (Some entry, store') \<Rightarrow>
                       (answer (new_Response (mock_responseBody entry) (mock_status entry)
                          (flatHeadersForResponse (mock_responseHeaders entry) [])), store', [])
                   | (None, store') \<Rightarrow>
                       (let info = \<lparr>info_protocol = url_protocol (call_url call), info_method = call_method call,
                              info_host = url_host (call_url call), info_path = url_path (call_url call),
                              info_eventId = causedBy, info_signature = sig\<rparr>
                        in (if env_policy env = Strict then FetchRejected (Unmocked info)
                            else answer (new_Response (utf8_encode ''{}'') 200 [(''content-type'', ''application/json'')]),
                            store', [info])))))"

section \<open>Installing\<close>

text \<open>The five patched functions: an original (by number), the hermetic shim, or the capture patch.\<close>

datatype func = Native nat | HermeticShim nat | CapturePatch nat

record patch_table =
  fn_httpRequest :: func
  fn_httpsRequest :: func
  fn_httpGet :: func
  fn_httpsGet :: func
  fn_fetch :: func

definition installHermetic :: "nat \<Rightarrow> patch_table \<Rightarrow> patch_table \<times> patch_table" where
  "installHermetic n t =
     (\<lparr>fn_httpRequest = HermeticShim n, fn_httpsRequest = HermeticShim n, fn_httpGet = HermeticShim n,
       fn_httpsGet = HermeticShim n, fn_fetch = HermeticShim n\<rparr>, t)"

definition uninstall :: "patch_table \<Rightarrow> patch_table \<Rightarrow> patch_table" where
  "uninstall originals t =
     t\<lparr>fn_httpRequest := fn_httpRequest originals, fn_httpsRequest := fn_httpsRequest originals,
       fn_httpGet := fn_httpGet originals, fn_httpsGet := fn_httpsGet originals, fn_fetch := fn_fetch originals\<rparr>"

interpretation hp: reversible_patch installHermetic uninstall
  by unfold_locales (auto simp: installHermetic_def uninstall_def)

section \<open>Properties\<close>

lemma hermeticEnd_live:
  assumes "\<not> hr_ended r"
  shows "hermeticEnd env c r store =
    (let r' = hermeticWrite c (r\<lparr>hr_ended := True\<rparr>);
         sig = request_signature env r';
         mine = store_content store (keyOf (hr_causedBy r) sig);
         info = \<lparr>info_protocol = hr_protocol r, info_method = hr_method r, info_host = hr_host r @ hr_port r,
           info_path = hr_path r, info_eventId = hr_causedBy r, info_signature = sig\<rparr>
     in (r', snd (store_take (hr_causedBy r) sig store),
         Some (if mine \<noteq> [] then Response (emitResponse
                 (mine ! (store_handed store (keyOf (hr_causedBy r) sig) mod length mine)))
               else if env_policy env = Strict then ErrorEvent (Unmocked info)
               else Response (emitResponse (loose_entry (hr_causedBy r) sig))),
         if mine \<noteq> [] then [] else [info]))"
proof -
  define r' where "r' = hermeticWrite c (r\<lparr>hr_ended := True\<rparr>)"
  define k where "k = keyOf (hr_causedBy r) (request_signature env r')"
  have sel: "hr_causedBy r' = hr_causedBy r" "hr_protocol r' = hr_protocol r" "hr_method r' = hr_method r"
    "hr_host r' = hr_host r" "hr_port r' = hr_port r" "hr_path r' = hr_path r"
    by (simp_all add: r'_def hermeticWrite_def)
  obtain e st where t: "take_key k store = (e, st)" by (cases "take_key k store")
  with ms.tk_result [of k store] have e: "e = (if store_content store k = [] then None
      else Some (store_content store k ! (store_handed store k mod length (store_content store k))))" by simp
  show ?thesis
    unfolding hermeticEnd_def Let_def r'_def [symmetric] store_take_def sel k_def [symmetric] t
    using assms e by simp
qed

lemma fold_hermeticWrite:
  "\<exists>zs. fold hermeticWrite cs r = r\<lparr>hr_chunks := zs\<rparr> \<and> concat zs = concat (hr_chunks r) @ concat (map toBuffer cs)"
proof (induction cs arbitrary: r)
  case Nil
  show ?case by (rule exI [of _ "hr_chunks r"]) simp
next
  case (Cons c cs)
  obtain zs where "fold hermeticWrite cs (hermeticWrite c r) = (hermeticWrite c r)\<lparr>hr_chunks := zs\<rparr>"
    "concat zs = concat (hr_chunks (hermeticWrite c r)) @ concat (map toBuffer cs)" using Cons.IH by blast
  then show ?case by (intro exI [of _ zs]) (auto simp: hermeticWrite_def [of c] toBuffer_def [of c])
qed

text \<open>The bytes written by a list of uses; before the first \<open>end\<close> nothing happens, after it nothing more.\<close>

fun written_by :: "request_use list \<Rightarrow> bytes" where
  "written_by [] = []"
| "written_by (UseWrite c # us) = toBuffer c @ written_by us"
| "written_by (u # us) = written_by us"

fun is_end :: "request_use \<Rightarrow> bool" where
  "is_end (UseEnd c) = True"
| "is_end u = False"

lemma hermetic_call_same [simp]: "fst (hermetic_call k r) = r"
  by (cases k) simp_all

lemma uses_before_end:
  assumes "\<not> list_ex is_end us"
  shows "\<exists>zs. fold (use_request env) us (r, store, out, told) = (r\<lparr>hr_chunks := zs\<rparr>, store, out, told) \<and>
    concat zs = concat (hr_chunks r) @ written_by us"
  using assms
proof (induction us arbitrary: r)
  case Nil
  show ?case by (rule exI [of _ "hr_chunks r"]) simp
next
  case (Cons u us)
  show ?case
  proof (cases u)
    case (UseWrite c)
    with Cons.prems Cons.IH [of "hermeticWrite c r"] show ?thesis by (auto simp: hermeticWrite_def toBuffer_def)
  next
    case (UseOther k)
    with Cons show ?thesis by simp
  qed (use Cons.prems in simp)
qed

lemma uses_after_end:
  "hr_ended r \<Longrightarrow> \<exists>r'. fold (use_request env) us (r, store, out, told) = (r', store, out, told) \<and> hr_ended r'"
proof (induction us arbitrary: r)
  case (Cons u us)
  then show ?case by (cases u) (simp_all add: hermeticEnd_def hermeticWrite_def)
qed simp

lemma hermeticRequest_fresh:
  "hermeticRequest env proto scope args = Hermetic r \<Longrightarrow> \<not> hr_ended r \<and> hr_chunks r = []"
  by (auto simp: hermeticRequest_def buildHermeticRequest_def split: sum.splits option.splits if_splits)

lemma emit_loose:
  "emitResponse (loose_entry e s) = \<lparr>res_statusCode = 200, res_statusMessage = ''OK'',
    res_headers = [(''content-type'', HStr ''application/json'')], res_body = utf8_encode ''{}''\<rparr>"
proof -
  have "toLowerCase ''content-type'' = ''content-type''" by code_simp
  then show ?thesis by (simp add: emitResponse_def loose_entry_def defaultStatusMessage_def)
qed

text \<open>
  C18. The life of an intercepted http request, whatever its caller does with it (writes in any pieces, headers, aborts, any number
  of \<open>end\<close>s): nothing is emitted and the store is not asked before the first \<open>end\<close>; that one takes the next captured
  response for this event and the signature of all bytes written up to it; with none captured, the hook is told once and the
  request fails under the strict policy and gets the synthetic 200 under the loose one. Whatever follows emits nothing more and
  does not touch the store again: one answer per request.
\<close>

theorem hermetic_request_answer:
  assumes "hermeticRequest env proto scope args = Hermetic r" "\<not> list_ex is_end before"
  shows "snd (fold (use_request env) before (r, store, [], [])) = (store, [], []) \<and>
    snd (fold (use_request env) (before @ UseEnd c # after) (r, store, [], [])) =
      (let sig = signatureOf (env_sha env) (env_parse env)
             \<lparr>sig_method = hr_method r, sig_host = hr_host r @ hr_port r, sig_path = hr_path r,
              sig_body = Some (written_by before @ toBuffer c),
              sig_contentType = firstHeader (hr_headers r) ''content-type''\<rparr> (env_canon env);
           info = \<lparr>info_protocol = hr_protocol r, info_method = hr_method r, info_host = hr_host r @ hr_port r,
              info_path = hr_path r, info_eventId = hr_causedBy r, info_signature = sig\<rparr>
       in case store_take (hr_causedBy r) sig store of
            (Some entry, store') \<Rightarrow> (store', [Response (emitResponse entry)], [])
          | (None, store') \<Rightarrow>
              (store',
               [if env_policy env = Strict then ErrorEvent (Unmocked info)
                else Response \<lparr>res_statusCode = 200, res_statusMessage = ''OK'',
                       res_headers = [(''content-type'', HStr ''application/json'')], res_body = utf8_encode ''{}''\<rparr>],
               [info]))"
proof -
  note fresh = hermeticRequest_fresh [OF assms(1)]
  define sig where "sig = signatureOf (env_sha env) (env_parse env)
      \<lparr>sig_method = hr_method r, sig_host = hr_host r @ hr_port r, sig_path = hr_path r,
       sig_body = Some (written_by before @ toBuffer c), sig_contentType = firstHeader (hr_headers r) ''content-type''\<rparr>
      (env_canon env)"
  obtain zs where zs: "fold (use_request env) before (r, store, [], []) = (r\<lparr>hr_chunks := zs\<rparr>, store, [], [])"
    "concat zs = written_by before"
    using uses_before_end [OF assms(2), of env r store "[]" "[]"] fresh by auto
  let ?r = "r\<lparr>hr_chunks := zs\<rparr>"
  define r' where "r' = hermeticWrite c (?r\<lparr>hr_ended := True\<rparr>)"
  have sig: "request_signature env r' = sig"
    using zs(2) by (simp add: r'_def request_signature_def sig_def hermeticWrite_def toBuffer_def)
  have ended: "hr_ended r'" by (simp add: r'_def hermeticWrite_def)
  have after: "snd (fold (use_request env) after (r', st, out, told)) = (st, out, told)" for st out told
    using uses_after_end [OF ended, of env after st out told] by auto
  have sel: "hr_causedBy r' = hr_causedBy r" "hr_protocol r' = hr_protocol r" "hr_method r' = hr_method r"
    "hr_host r' = hr_host r" "hr_port r' = hr_port r" "hr_path r' = hr_path r"
    by (simp_all add: r'_def hermeticWrite_def)
  have fin: "hermeticEnd env c ?r store =
      (case store_take (hr_causedBy r) sig store of
         (Some entry, store') \<Rightarrow> (r', store', Some (Response (emitResponse entry)), [])
       | (None, store') \<Rightarrow>
           (let info = \<lparr>info_protocol = hr_protocol r, info_method = hr_method r, info_host = hr_host r @ hr_port r,
              info_path = hr_path r, info_eventId = hr_causedBy r, info_signature = sig\<rparr>
            in (r', store', Some (if env_policy env = Strict then ErrorEvent (Unmocked info)
                  else Response (emitResponse (loose_entry (hr_causedBy r) sig))), [info])))"
    using fresh unfolding hermeticEnd_def by (simp add: Let_def r'_def [symmetric] sig sel split: prod.splits option.splits)
  obtain o1 st where take: "store_take (hr_causedBy r) sig store = (o1, st)" by (cases "store_take (hr_causedBy r) sig store")
  show ?thesis
  proof (cases o1)
    case None
    with fin take have e: "hermeticEnd env c ?r store = (let info = \<lparr>info_protocol = hr_protocol r, info_method = hr_method r,
        info_host = hr_host r @ hr_port r, info_path = hr_path r, info_eventId = hr_causedBy r, info_signature = sig\<rparr>
      in (r', st, Some (if env_policy env = Strict then ErrorEvent (Unmocked info)
                  else Response (emitResponse (loose_entry (hr_causedBy r) sig))), [info]))" by simp
    show ?thesis using zs(1) e None unfolding Let_def sig_def [symmetric] take by (simp add: emit_loose after)
  next
    case (Some entry)
    with fin take have e: "hermeticEnd env c ?r store = (r', st, Some (Response (emitResponse entry)), [])" by simp
    show ?thesis using zs(1) e Some unfolding Let_def sig_def [symmetric] take by (simp add: after)
  qed
qed

text \<open>
  Only the bytes count: however the caller cuts the body into writes, the answer and the
  store afterwards are the same, and ending a request twice changes nothing.
\<close>

theorem hermetic_request_chunking:
  assumes "concat (map toBuffer cs) = concat (map toBuffer ds)"
  shows "snd (hermeticEnd env ChunkNull (fold hermeticWrite cs r) store) =
      snd (hermeticEnd env ChunkNull (fold hermeticWrite ds r) store) \<and>
    (case hermeticEnd env c r store of (r', store', _) \<Rightarrow> hermeticEnd env c' r' store' = (r', store', None, []))"
proof -
  note w = fold_hermeticWrite [of _ r]
  obtain xs where xs: "fold hermeticWrite cs r = r\<lparr>hr_chunks := xs\<rparr>" "concat xs = concat (hr_chunks r) @ concat (map toBuffer cs)"
    using w by blast
  obtain ys where ys: "fold hermeticWrite ds r = r\<lparr>hr_chunks := ys\<rparr>" "concat ys = concat (hr_chunks r) @ concat (map toBuffer ds)"
    using w by blast
  have "request_signature env (r\<lparr>hr_chunks := xs, hr_ended := True\<rparr>) = request_signature env (r\<lparr>hr_chunks := ys, hr_ended := True\<rparr>)"
    using xs ys assms by (simp add: request_signature_def)
  then have "snd (hermeticEnd env ChunkNull (fold hermeticWrite cs r) store) =
      snd (hermeticEnd env ChunkNull (fold hermeticWrite ds r) store)"
    unfolding xs ys by (cases "hr_ended r") (simp_all add: hermeticEnd_def hermeticWrite_def Let_def split: prod.splits option.splits)
  moreover have "hr_ended (fst (hermeticEnd env c r store))"
    by (cases "hr_ended r") (simp_all add: hermeticEnd_live hermeticWrite_def Let_def, simp add: hermeticEnd_def)
  then have "case hermeticEnd env c r store of (r', store', _) \<Rightarrow> hermeticEnd env c' r' store' = (r', store', None, [])"
    by (auto simp: hermeticEnd_def [of _ c'] split: prod.splits)
  ultimately show ?thesis by blast
qed

text \<open>
  C19. Calls outside any captured event are never intercepted and do not touch the store; calls
  inside one never reach the original functions.
\<close>

theorem hermetic_scope:
  "(currentEventId scope \<in> {None, Some []} \<longrightarrow>
      hermeticFetch env scope inp ini store = (FetchPassThrough, store, []) \<and>
      hermeticRequest env proto scope args \<in> {PassThrough args, Threw InvalidUrl}) \<and>
   (currentEventId scope \<notin> {None, Some []} \<longrightarrow>
      fst (hermeticFetch env scope inp ini store) \<noteq> FetchPassThrough \<and>
      hermeticRequest env proto scope args \<noteq> PassThrough args)"
proof (cases "currentEventId scope \<in> {None, Some []}")
  case True
  have "normalizeRequestArgs p a d = Inl e \<Longrightarrow> e = InvalidUrl" for p a d e
    by (auto simp: normalizeRequestArgs_def Let_def split: list.splits request_arg.splits option.splits prod.splits)
  with True show ?thesis
    by (auto simp: hermeticFetch_def hermeticRequest_def split: sum.splits)
next
  case False
  then show ?thesis
    by (auto simp: hermeticFetch_def hermeticRequest_def Let_def split: sum.splits option.splits prod.splits if_splits)
qed

text \<open>
  The two shims agree: the same URL, method, body and content type give the same signature
  through \<open>http.request\<close> and through \<open>fetch\<close>, so a mock answers either of them.
\<close>

theorem shims_agree:
  assumes "toLowerCase (url_hostname u) = url_hostname u" "r = buildHermeticRequest
      (merge_options (url_options u) (no_options\<lparr>opt_method := Some m,
        opt_headers := Some (DictHeaders [(''Content-Type'', HStr ct)])\<rparr>)) (url_protocol u) ev cb"
    and "extractFetchCall parse_url (FetchUrl u) (Some \<lparr>init_method = Some m, init_body = Some (BodyString body),
        init_headers = PlainHeaders [(''content-type'', ct)]\<rparr>) = Inr call"
  shows "request_signature env (hermeticWrite (ChunkString body) r) = fetch_signature env call"
proof -
  have l: "toLowerCase ''Content-Type'' = ''content-type''" "toLowerCase ''content-type'' = ''content-type''"
    by code_simp+
  have call: "call = \<lparr>call_url = u, call_method = toUpperCase m, call_body = Some (utf8_encode body),
      call_contentType = Some ct\<rparr>"
    using assms(3) l by (simp add: extractFetchCall_def Let_def readBody_def headerString_def)
  have up: "toUpperCase (toUpperCase m) = toUpperCase m" by simp
  show ?thesis
    unfolding call assms(2)
    using assms(1) l
    by (simp add: request_signature_def fetch_signature_def buildHermeticRequest_def merge_options_def
        url_options_def no_options_def or_else_def spread_field_def hermeticWrite_def toBuffer_def firstHeader_def url_host_def
        signatureOf_def signature_parts_def)
qed

text \<open>
  A captured response with status 204, 205 or 304 cannot be replayed through \<open>fetch\<close>: the mock
  is found and consumed, but the call is rejected, since \<open>Response\<close> refuses a body with these
  statuses and the shim always passes one. The http shim answers the same mock.
\<close>

theorem fetch_rejects_null_body_mock:
  assumes "currentEventId scope = Some ev" "ev \<noteq> []"
    and "extractFetchCall (env_url env) inp ini = Inr call"
    and "store_content store (keyOf ev (fetch_signature env call)) = [entry]"
    and "mock_status entry \<in> {204, 205, 304}"
  shows "fst (hermeticFetch env scope inp ini store) = FetchRejected (NullBodyStatus (mock_status entry))"
proof -
  let ?k = "keyOf ev (fetch_signature env call)"
  obtain st where "take_key ?k store = (Some entry, st)"
    using ms.tk_result [of ?k store] assms(4) by (cases "take_key ?k store") simp
  with assms show ?thesis by (auto simp: hermeticFetch_def store_take_def new_Response_def)
qed

text \<open>
  \<open>uninstall\<close> undoes \<open>install\<close>, also for nested installations that are undone in the reverse
  order.
\<close>

theorem uninstall_install:
  assumes "install_all installHermetic ns t = (t', saved)"
  shows "fold uninstall saved t' = t"
  by (rule hp.undo_all [OF assms])

section \<open>Concrete inputs\<close>

definition sample_env :: hermetic_env where
  "sample_env = \<lparr>env_sha = to_hex, env_parse = (\<lambda>_. None), env_url = (\<lambda>_. None), env_policy = Strict,
     env_canon = \<lparr>ignoreJsonKeys = None, ignoreQueryParams = None\<rparr>\<rparr>"

definition sample_url :: url where
  "sample_url = \<lparr>url_protocol = ''https:'', url_hostname = ''api.example'', url_port = [], url_pathname = ''/v1'', url_search = []\<rparr>"

definition sample_request :: hermetic_request where
  "sample_request = buildHermeticRequest (url_options sample_url) ''https:'' ''ev_1'' False"

theorem hermetic_request_answer_witness:
  "\<exists>r i. hermeticRequest sample_env ''https:'' (Some \<lparr>ctx_eventId = ''ev_1'', ctx_replayId = None\<rparr>) [ArgUrl sample_url] = Hermetic r \<and>
     snd (fold (use_request sample_env) ([UseWrite (ChunkString ''a''), UseOther Abort] @ UseEnd ChunkNull # [UseEnd (ChunkString ''b'')])
       (r, MockStore, [], [])) = (MockStore, [ErrorEvent (Unmocked i)], [i])"
proof -
  obtain r where r: "hermeticRequest sample_env ''https:'' (Some \<lparr>ctx_eventId = ''ev_1'', ctx_replayId = None\<rparr>) [ArgUrl sample_url] = Hermetic r"
    by (simp add: hermeticRequest_def normalizeRequestArgs_def Let_def currentEventId_def)
  have "store_take e k MockStore = (None, MockStore)" "env_policy sample_env = Strict" for e k
    by (simp_all add: store_take_def take_key_def MockStore_def sample_env_def)
  with r hermetic_request_answer [OF r, of "[UseWrite (ChunkString ''a''), UseOther Abort]" MockStore ChunkNull "[UseEnd (ChunkString ''b'')]"]
  show ?thesis by (auto simp: Let_def)
qed

theorem hermetic_request_chunking_witness:
  "snd (hermeticEnd sample_env ChunkNull (fold hermeticWrite [ChunkString ''ab'', ChunkNull] sample_request) MockStore) =
   snd (hermeticEnd sample_env ChunkNull (fold hermeticWrite [ChunkString ''a'', ChunkBuffer [98]] sample_request) MockStore)"
proof -
  have "concat (map toBuffer [ChunkString ''ab'', ChunkNull]) = concat (map toBuffer [ChunkString ''a'', ChunkBuffer [98]])"
    by code_simp
  from hermetic_request_chunking [OF this, of sample_env sample_request MockStore] show ?thesis by blast
qed

theorem hermetic_scope_witness:
  "hermeticFetch sample_env None (FetchUrl sample_url) None MockStore = (FetchPassThrough, MockStore, []) \<and>
   fst (hermeticFetch sample_env (Some \<lparr>ctx_eventId = ''ev_1'', ctx_replayId = None\<rparr>) (FetchUrl sample_url) None MockStore)
     \<noteq> FetchPassThrough"
  using hermetic_scope [of None sample_env "FetchUrl sample_url" None MockStore "''http:''" "[]"]
    hermetic_scope [of "Some \<lparr>ctx_eventId = ''ev_1'', ctx_replayId = None\<rparr>" sample_env "FetchUrl sample_url" None MockStore "''http:''" "[]"]
  by (simp add: currentEventId_def)

theorem shims_agree_witness:
  "\<exists>call. extractFetchCall (\<lambda>_. None) (FetchUrl sample_url) (Some \<lparr>init_method = Some ''post'', init_body = Some (BodyString ''x''),
       init_headers = PlainHeaders [(''content-type'', ''text/plain'')]\<rparr>) = Inr call \<and>
     request_signature sample_env (hermeticWrite (ChunkString ''x'') (buildHermeticRequest
      (merge_options (url_options sample_url) (no_options\<lparr>opt_method := Some ''post'',
        opt_headers := Some (DictHeaders [(''Content-Type'', HStr ''text/plain'')])\<rparr>)) ''https:'' ''ev_1'' False))
     = fetch_signature sample_env call"
proof -
  have l: "toLowerCase (url_hostname sample_url) = url_hostname sample_url" "url_protocol sample_url = ''https:''"
    by code_simp+
  show ?thesis
    using shims_agree [OF l(1) refl, of "\<lambda>_. None" "''post''" "''x''" "''text/plain''", where env = sample_env and ev = "''ev_1''" and cb = False]
    by (auto simp: extractFetchCall_def Let_def l)
qed

theorem fetch_rejects_null_body_mock_witness:
  "\<exists>store. fst (hermeticFetch sample_env (Some \<lparr>ctx_eventId = ''ev_1'', ctx_replayId = None\<rparr>) (FetchUrl sample_url) None store) =
     FetchRejected (NullBodyStatus 204)"
proof -
  let ?call = "\<lparr>call_url = sample_url, call_method = ''GET'', call_body = None, call_contentType = None\<rparr>"
  let ?e = "\<lparr>mock_eventId = ''ev_1'', mock_signature = fetch_signature sample_env ?call, mock_status = 204,
    mock_responseHeaders = [], mock_responseBody = [], mock_responseContentType = []\<rparr>"
  have x: "extractFetchCall (env_url sample_env) (FetchUrl sample_url) None = Inr ?call"
  proof -
    have "toUpperCase ''GET'' = ''GET''" by code_simp
    then show ?thesis by (simp add: extractFetchCall_def no_init_def headerString_def Let_def)
  qed
  have c: "store_content (store_add ?e MockStore) (keyOf ''ev_1'' (fetch_signature sample_env ?call)) = [?e]"
    by (simp add: ms.content_ins entry_key_def) (simp add: store_content_def MockStore_def)
  have s: "currentEventId (Some \<lparr>ctx_eventId = ''ev_1'', ctx_replayId = None\<rparr>) = Some ''ev_1''"
    by (simp add: currentEventId_def)
  from fetch_rejects_null_body_mock [OF s _ x c] show ?thesis by auto
qed

theorem uninstall_install_witness:
  "fold uninstall (snd (install_all installHermetic [1, 2] \<lparr>fn_httpRequest = Native 0, fn_httpsRequest = Native 1,
       fn_httpGet = Native 2, fn_httpsGet = Native 3, fn_fetch = Native 4\<rparr>))
     (fst (install_all installHermetic [1, 2] \<lparr>fn_httpRequest = Native 0, fn_httpsRequest = Native 1,
       fn_httpGet = Native 2, fn_httpsGet = Native 3, fn_fetch = Native 4\<rparr>)) =
   \<lparr>fn_httpRequest = Native 0, fn_httpsRequest = Native 1, fn_httpGet = Native 2, fn_httpsGet = Native 3, fn_fetch = Native 4\<rparr>"
  by (rule uninstall_install [OF prod.collapse [symmetric]])

end
