(* ===== verification/Capture.thy ===== *)
theory Capture
  imports Intercept Complex_Main
begin

text \<open>
  The capture side: the event messages (\<open>proto/clearvoiance/v1/event.proto\<close>), the inbound HTTP
  adapters (\<open>sdk-node/src/adapters/http\<close>: \<open>express.ts\<close>, \<open>koa.ts\<close>, \<open>strapi.ts\<close>, \<open>fastify.ts\<close>) and
  outbound capture (\<open>outbound/http.ts\<close>, \<open>outbound/fetch.ts\<close>).

  An adapter is a state machine that is driven by the callbacks it registers: chunks that stream
  past, the end of a message, the end of the response. Its output is the list of events it hands to
  \<open>sendBatch\<close>. Clock readings, ids and the sampling draw are arguments; the blob uploader is the
  argument of theory \<open>Events\<close>.
\<close>

section \<open>Events\<close>

definition SDK_VERSION :: string where
  "SDK_VERSION = ''0.1.6''"

record http_event =
  he_method :: string
  he_path :: string
  he_httpVersion :: string
  he_headers :: "string list dict"
  he_requestBody :: "body option"
  he_status :: int
  he_responseHeaders :: "string list dict"
  he_responseBody :: "body option"
  he_durationNs :: int
  he_sourceIp :: string
  he_userId :: string
  he_routeTemplate :: string

record outbound_event =
  oe_target :: string
  oe_http :: http_event
  oe_causedByEventId :: string
  oe_responseHash :: bytes

datatype socket_op = OpConnect | OpDisconnect | OpEmitToClient | OpRecvFromClient

record socket_event =
  se_socketId :: string
  se_op :: socket_op
  se_namespace :: string
  se_eventName :: string
  se_data :: "body option"
  se_handshake :: "string dict"
  se_userId :: string
  se_durationNs :: int

record cron_event =
  ce_jobName :: string
  ce_scheduler :: string
  ce_args :: "body option"
  ce_durationNs :: int
  ce_status :: string
  ce_errorMessage :: string
  ce_triggerSource :: string

record queue_event =
  qe_queueName :: string
  qe_broker :: string
  qe_messageId :: string
  qe_payload :: "body option"
  qe_retryCount :: int
  qe_durationNs :: int
  qe_status :: string
  qe_headers :: "string dict"

record db_event =
  de_queryFingerprint :: string
  de_queryText :: string
  de_durationNs :: int
  de_rowsAffected :: int
  de_applicationName :: string
  de_causedByEventId :: string

record runtime_sample =
  rs_memRss :: int
  rs_memHeapUsed :: int
  rs_memHeapTotal :: int
  rs_memExternal :: int
  rs_memArrayBuffers :: int
  rs_cpuUserUs :: int
  rs_cpuSystemUs :: int
  rs_eventLoopP50Ns :: int
  rs_eventLoopP99Ns :: int
  rs_eventLoopMaxNs :: int
  rs_gcCount :: nat
  rs_gcTotalPauseNs :: int
  rs_activeHandles :: nat
  rs_activeRequests :: nat
  rs_dbPoolUsed :: int
  rs_dbPoolFree :: int
  rs_dbPoolPending :: int
  rs_dbPoolMax :: int

datatype payload = HttpPayload http_event | OutboundPayload outbound_event | SocketPayload socket_event
  | CronPayload cron_event | QueuePayload queue_event | DbPayload db_event
  | RuntimePayload runtime_sample

record event =
  ev_id :: string
  ev_sessionId :: string
  ev_timestampNs :: int
  ev_offsetNs :: int
  ev_adapter :: string
  ev_sdkVersion :: string
  ev_metadata :: "string dict"
  ev_redactionsApplied :: "string list"
  ev_payload :: payload

definition make_event :: "string \<Rightarrow> int \<Rightarrow> string \<Rightarrow> string dict \<Rightarrow> string list \<Rightarrow> payload \<Rightarrow> event" where
  "make_event eid ts adapter meta redactions p =
     \<lparr>ev_id = eid, ev_sessionId = [], ev_timestampNs = ts, ev_offsetNs = 0, ev_adapter = adapter,
      ev_sdkVersion = ''@clearvoiance/node@'' @ SDK_VERSION, ev_metadata = meta,
      ev_redactionsApplied = redactions, ev_payload = p\<rparr>"

section \<open>Options and helpers\<close>

record capture_options =
  co_sampleRate :: "rat option"
  co_maxBodyInlineBytes :: "nat option"
  co_maxBodyBlobBytes :: "nat option"
  co_redactHeaders :: "header_matcher list option"
  co_uploader :: "uploader option"

definition sampled_in :: "capture_options \<Rightarrow> rat \<Rightarrow> bool" where
  "sampled_in opts draw \<longleftrightarrow>
     (let rate = (case co_sampleRate opts of None \<Rightarrow> 1 | Some r \<Rightarrow> r) in \<not> (rate < 1 \<and> rate \<le> draw))"

definition max_inline :: "capture_options \<Rightarrow> nat" where
  "max_inline opts = (case co_maxBodyInlineBytes opts of None \<Rightarrow> 64 * 1024 | Some n \<Rightarrow> n)"

definition buffer_cap :: "capture_options \<Rightarrow> nat" where
  "buffer_cap opts =
     (if co_uploader opts \<noteq> None
      then (case co_maxBodyBlobBytes opts of None \<Rightarrow> 10 * 1024 * 1024 | Some n \<Rightarrow> n)
      else max_inline opts)"

definition header_deny :: "capture_options \<Rightarrow> header_matcher list" where
  "header_deny opts = (case co_redactHeaders opts of None \<Rightarrow> DEFAULT_HEADER_DENY | Some d \<Rightarrow> d)"

definition finalize_with :: "capture_options \<Rightarrow> string option \<Rightarrow> capped_buffer \<Rightarrow> finalize_result" where
  "finalize_with opts ct buf =
     finalizeBody buf \<lparr>maxBodyInlineBytes = max_inline opts, fin_contentType = ct, fin_uploader = co_uploader opts\<rparr>"

text \<open>\<open>stringHeader\<close> of Express and Koa, and the variant of Fastify and the http patch, which also
  accepts a number.\<close>

definition stringHeader :: "header_value option \<Rightarrow> string option" where
  "stringHeader v =
     (case v of Some (HStr s) \<Rightarrow> Some s | Some (HList (s # _)) \<Rightarrow> Some s | _ \<Rightarrow> None)"

definition stringHeader_num :: "header_value option \<Rightarrow> string option" where
  "stringHeader_num v = (case v of Some (HNum n) \<Rightarrow> Some n | _ \<Rightarrow> stringHeader v)"

section \<open>Express and Koa\<close>

text \<open>
  What the two frameworks tell about a request when the response has finished. \<open>hi_user\<close> is the outcome of the
  application's \<open>userExtractor\<close>: what it returns (\<open>Inr None\<close> also when there is none), or the error it throws.
\<close>

record http_info =
  hi_method :: string
  hi_originalUrl :: string
  hi_url :: string
  hi_httpVersion :: string
  hi_reqHeaders :: "header_value dict"
  hi_resHeaders :: "header_value dict"
  hi_status :: int
  hi_ip :: "string option"
  hi_remoteAddress :: "string option"
  hi_user :: "string + string option"
  hi_route :: "string option"

definition or_empty :: "string option \<Rightarrow> string" where
  "or_empty x = (case x of None \<Rightarrow> [] | Some s \<Rightarrow> s)"

text \<open>
  \<open>buildEvent\<close> of \<open>express.ts\<close> and that of \<open>koa.ts\<close>, each written out as its file has it. An error of the extractor leaves
  the function.
\<close>

type_synonym event_builder =
  "string \<Rightarrow> int \<Rightarrow> int \<Rightarrow> http_info \<Rightarrow> finalize_result \<Rightarrow> finalize_result \<Rightarrow> header_matcher list \<Rightarrow> string + event"

definition express_buildEvent :: event_builder where
  "express_buildEvent eid startWallNs durationNs i reqBody resBody deny =
     (let reqHeaders = redactHeaders (hi_reqHeaders i) (Some deny);
          resHeaders = redactHeaders (hi_resHeaders i) (Some deny)
      in case hi_user i of
           Inl err \<Rightarrow> Inl err
         | Inr user \<Rightarrow>
             Inr (make_event eid startWallNs ''http.express'' []
               (red_applied reqHeaders @ red_applied resHeaders @ fin_redactions reqBody @ fin_redactions resBody)
               (HttpPayload
                 \<lparr>he_method = hi_method i,
                  he_path = (if hi_originalUrl i \<noteq> [] then hi_originalUrl i else hi_url i),
                  he_httpVersion = ''HTTP/'' @ hi_httpVersion i, he_headers = red_headers reqHeaders,
                  he_requestBody = fin_body reqBody, he_status = hi_status i,
                  he_responseHeaders = red_headers resHeaders, he_responseBody = fin_body resBody,
                  he_durationNs = durationNs,
                  he_sourceIp = or_empty (or_else (hi_ip i) (hi_remoteAddress i)),
                  he_userId = or_empty user, he_routeTemplate = or_empty (hi_route i)\<rparr>)))"

definition koa_buildEvent :: event_builder where
  "koa_buildEvent eid startWallNs durationNs i reqBody resBody deny =
     (let reqHeaders = redactHeaders (hi_reqHeaders i) (Some deny);
          resHeaders = redactHeaders (hi_resHeaders i) (Some deny)
      in case hi_user i of
           Inl err \<Rightarrow> Inl err
         | Inr user \<Rightarrow>
             Inr (make_event eid startWallNs ''http.koa'' []
               (red_applied reqHeaders @ red_applied resHeaders @ fin_redactions reqBody @ fin_redactions resBody)
               (HttpPayload
                 \<lparr>he_method = hi_method i,
                  he_path = (if hi_originalUrl i \<noteq> [] then hi_originalUrl i else hi_url i),
                  he_httpVersion = ''HTTP/'' @ hi_httpVersion i, he_headers = red_headers reqHeaders,
                  he_requestBody = fin_body reqBody, he_status = hi_status i,
                  he_responseHeaders = red_headers resHeaders, he_responseBody = fin_body resBody,
                  he_durationNs = durationNs,
                  he_sourceIp = or_empty (or_else (hi_ip i) (hi_remoteAddress i)),
                  he_userId = or_empty user, he_routeTemplate = or_empty (hi_route i)\<rparr>)))"

record http_tap =
  tap_eventId :: string
  tap_replayId :: "string option"
  tap_startWallNs :: int
  tap_reqBuf :: capped_buffer
  tap_resBuf :: capped_buffer
  tap_listening :: bool
  tap_threw :: bool
  tap_sent :: "event list"
  tap_errors :: "string list"

datatype http_signal =
    ReqData chunk
  | ReqEnd
  | ReqError
  | ResWrite chunk
  | ResEnd chunk
  | ResFinish http_info int

text \<open>
  The adapters' own \<open>toBuffer\<close> hands whatever is no buffer to \<open>Buffer.from\<close>, which takes strings and throws a
  \<open>TypeError\<close> (\<open>None\<close>) for functions and the like: \<open>tap_threw\<close> says that a tap threw into its caller.
\<close>

definition tap_toBuffer :: "chunk \<Rightarrow> bytes option" where
  "tap_toBuffer c = (case c of ChunkBuffer b \<Rightarrow> Some b | ChunkString s \<Rightarrow> Some (utf8_encode s) | _ \<Rightarrow> None)"

definition tap_push_req :: "chunk \<Rightarrow> http_tap \<Rightarrow> http_tap" where
  "tap_push_req c t =
     (case tap_toBuffer c of
        None \<Rightarrow> t\<lparr>tap_threw := True\<rparr>
      | Some b \<Rightarrow> t\<lparr>tap_reqBuf := cb_push b (tap_reqBuf t)\<rparr>)"

definition tap_push_res :: "chunk \<Rightarrow> http_tap \<Rightarrow> http_tap" where
  "tap_push_res c t =
     (if c = ChunkNull then t
      else (case tap_toBuffer c of
              None \<Rightarrow> t\<lparr>tap_threw := True\<rparr>
            | Some b \<Rightarrow> t\<lparr>tap_resBuf := cb_push b (tap_resBuf t)\<rparr>))"

text \<open>
  The middleware: \<open>None\<close> when the request is not sampled; else the tap, and the scope in which the
  rest of the application runs.
\<close>

definition capture_middleware :: "capture_options \<Rightarrow> rat \<Rightarrow> string \<Rightarrow> int \<Rightarrow> header_value dict
    \<Rightarrow> (http_tap \<times> scope) option" where
  "capture_middleware opts draw eid nowMs headers =
     (if \<not> sampled_in opts draw then None
      else (let replayId = extractReplayId (NodeHeaders headers)
            in Some (\<lparr>tap_eventId = eid, tap_replayId = replayId, tap_startWallNs = nowMs * 1000000,
                      tap_reqBuf = CappedBuffer (buffer_cap opts), tap_resBuf = CappedBuffer (buffer_cap opts),
                      tap_listening = True, tap_threw = False, tap_sent = [], tap_errors = []\<rparr>,
                     runWithEvent \<lparr>ctx_eventId = eid, ctx_replayId = replayId\<rparr> (\<lambda>scope. scope))))"

text \<open>
  The listeners on the request and on the response, in the order the runtime calls them. The task of \<open>finish\<close> catches
  what the builder throws and tells \<open>onError\<close>: \<open>tap_errors\<close>.
\<close>

fun tap_step :: "event_builder \<Rightarrow> capture_options \<Rightarrow> http_signal \<Rightarrow> http_tap \<Rightarrow> http_tap" where
  "tap_step build opts (ReqData c) t =
     (if tap_listening t then tap_push_req c t else t)"
| "tap_step build opts ReqEnd t = t\<lparr>tap_listening := False\<rparr>"
| "tap_step build opts ReqError t = t\<lparr>tap_listening := False\<rparr>"
| "tap_step build opts (ResWrite c) t = tap_push_res c t"
| "tap_step build opts (ResEnd c) t = tap_push_res c t"
| "tap_step build opts (ResFinish i dur) t =
     (case build (tap_eventId t) (tap_startWallNs t) dur i
             (finalize_with opts (stringHeader (dict_get (hi_reqHeaders i) ''content-type'')) (tap_reqBuf t))
             (finalize_with opts (stringHeader (dict_get (hi_resHeaders i) ''content-type'')) (tap_resBuf t))
             (header_deny opts) of
        Inl err \<Rightarrow> t\<lparr>tap_errors := tap_errors t @ [err]\<rparr>
      | Inr ev \<Rightarrow> t\<lparr>tap_sent := tap_sent t @ [ev]\<rparr>)"

definition tap_run :: "event_builder \<Rightarrow> capture_options \<Rightarrow> http_signal list \<Rightarrow> http_tap \<Rightarrow> http_tap" where
  "tap_run build opts sigs t = fold (tap_step build opts) sigs t"

text \<open>
  A request from the middleware to the last signal: the scope its handler runs in, the events
  that were sent and the errors that were caught; \<open>None\<close> for a request that is not sampled, which is passed on untouched.
\<close>

definition captureHttp :: "capture_options \<Rightarrow> rat \<Rightarrow> string \<Rightarrow> int \<Rightarrow> header_value dict \<Rightarrow> http_signal list
    \<Rightarrow> (scope \<times> event list \<times> string list) option" where
  "captureHttp opts draw eid nowMs headers sigs =
     map_option (\<lambda>(t, scope). (case tap_run express_buildEvent opts sigs t of t \<Rightarrow> (scope, tap_sent t, tap_errors t)))
       (capture_middleware opts draw eid nowMs headers)"

definition captureKoa :: "capture_options \<Rightarrow> rat \<Rightarrow> string \<Rightarrow> int \<Rightarrow> header_value dict \<Rightarrow> http_signal list
    \<Rightarrow> (scope \<times> event list \<times> string list) option" where
  "captureKoa opts draw eid nowMs headers sigs =
     map_option (\<lambda>(t, scope). (case tap_run koa_buildEvent opts sigs t of t \<Rightarrow> (scope, tap_sent t, tap_errors t)))
       (capture_middleware opts draw eid nowMs headers)"

text \<open>Strapi runs on Koa: its factory returns the Koa middleware of the given client.\<close>

definition clearvoianceStrapiMiddleware :: "capture_options \<Rightarrow> rat \<Rightarrow> string \<Rightarrow> int \<Rightarrow> header_value dict \<Rightarrow> http_signal list
    \<Rightarrow> (scope \<times> event list \<times> string list) option" where
  "clearvoianceStrapiMiddleware opts = captureKoa opts"

subsection \<open>The event of a request\<close>

fun res_chunks :: "http_signal list \<Rightarrow> bytes list" where
  "res_chunks (ResWrite c # sigs) = (case tap_toBuffer c of None \<Rightarrow> [] | Some b \<Rightarrow> [b]) @ res_chunks sigs"
| "res_chunks (ResEnd c # sigs) = (case tap_toBuffer c of None \<Rightarrow> [] | Some b \<Rightarrow> [b]) @ res_chunks sigs"
| "res_chunks (s # sigs) = res_chunks sigs"
| "res_chunks [] = []"

text \<open>Request chunks count until the request ends or fails.\<close>

fun req_chunks :: "http_signal list \<Rightarrow> bytes list" where
  "req_chunks (ReqData c # sigs) = (case tap_toBuffer c of None \<Rightarrow> [] | Some b \<Rightarrow> [b]) @ req_chunks sigs"
| "req_chunks (ReqEnd # sigs) = []"
| "req_chunks (ReqError # sigs) = []"
| "req_chunks (s # sigs) = req_chunks sigs"
| "req_chunks [] = []"

abbreviation not_finish :: "http_signal \<Rightarrow> bool" where
  "not_finish s \<equiv> (case s of ResFinish i d \<Rightarrow> False | _ \<Rightarrow> True)"

lemma tap_run_bufs:
  "list_all not_finish sigs \<Longrightarrow>
   tap_resBuf (tap_run ad opts sigs t) = fold cb_push (res_chunks sigs) (tap_resBuf t) \<and>
   tap_reqBuf (tap_run ad opts sigs t) =
     (if tap_listening t then fold cb_push (req_chunks sigs) (tap_reqBuf t) else tap_reqBuf t) \<and>
   tap_sent (tap_run ad opts sigs t) = tap_sent t \<and> tap_errors (tap_run ad opts sigs t) = tap_errors t \<and> tap_eventId (tap_run ad opts sigs t) = tap_eventId t \<and>
   tap_startWallNs (tap_run ad opts sigs t) = tap_startWallNs t"
  unfolding tap_run_def
proof (induction sigs arbitrary: t)
  case (Cons s sigs)
  then show ?case by (cases s) (auto simp: tap_push_res_def tap_push_req_def tap_toBuffer_def split: chunk.splits)
qed simp

text \<open>
  A tap throws exactly when it is given something that is neither bytes nor text. \<open>res.end(callback)\<close>, which the runtime
  allows, is such a call: the response it was to end is not ended.
\<close>

definition unreadable :: "http_signal \<Rightarrow> bool" where
  "unreadable s \<longleftrightarrow> s \<in> {ResWrite ChunkOther, ResEnd ChunkOther}"

lemma tap_threw_iff:
  assumes "list_all (\<lambda>s. \<forall>c. s = ReqData c \<longrightarrow> tap_toBuffer c \<noteq> None) sigs"
  shows "tap_threw (tap_run build opts sigs t) \<longleftrightarrow> tap_threw t \<or> list_ex unreadable sigs"
  using assms unfolding tap_run_def
proof (induction sigs arbitrary: t)
  case (Cons s sigs)
  then show ?case
    by (cases s) (auto simp: tap_push_res_def tap_push_req_def tap_toBuffer_def unreadable_def split: chunk.splits sum.splits)
qed simp

lemma end_with_callback_throws: "tap_threw (tap_step build opts (ResEnd ChunkOther) t)"
  by (simp add: tap_push_res_def tap_toBuffer_def)

lemma koa_buildEvent_eq:
  "koa_buildEvent eid ts dur i rq rs deny =
     map_sum id (\<lambda>ev. ev\<lparr>ev_adapter := ''http.koa''\<rparr>) (express_buildEvent eid ts dur i rq rs deny)"
  by (simp add: express_buildEvent_def koa_buildEvent_def make_event_def Let_def split: sum.splits)

lemma capture_middleware_scope:
  "capture_middleware opts draw eid nowMs hs = Some (t, scope) \<Longrightarrow> currentEventId scope = Some eid"
  by (auto simp: capture_middleware_def runWithEvent_def currentEventId_def Let_def split: if_splits)

text \<open>The two bodies an adapter hands to its builder: request bytes to the end of the request, and all response bytes.\<close>

definition tapped_req :: "capture_options \<Rightarrow> http_signal list \<Rightarrow> http_info \<Rightarrow> finalize_result" where
  "tapped_req opts sigs i = captured_body (buffer_cap opts) (req_chunks sigs)
     \<lparr>maxBodyInlineBytes = max_inline opts, fin_contentType = stringHeader (dict_get (hi_reqHeaders i) ''content-type''),
      fin_uploader = co_uploader opts\<rparr>"

definition tapped_res :: "capture_options \<Rightarrow> http_signal list \<Rightarrow> http_info \<Rightarrow> finalize_result" where
  "tapped_res opts sigs i = captured_body (buffer_cap opts) (res_chunks sigs)
     \<lparr>maxBodyInlineBytes = max_inline opts, fin_contentType = stringHeader (dict_get (hi_resHeaders i) ''content-type''),
      fin_uploader = co_uploader opts\<rparr>"

lemma tap_run_sent:
  assumes "capture_middleware opts draw eid nowMs hs = Some (t, scope)" "list_all not_finish sigs"
    and "b = build eid (nowMs * 1000000) dur i (tapped_req opts sigs i) (tapped_res opts sigs i) (header_deny opts)"
  shows "tap_sent (tap_run build opts (sigs @ [ResFinish i dur]) t) = (case b of Inl m \<Rightarrow> [] | Inr ev \<Rightarrow> [ev]) \<and>
    tap_errors (tap_run build opts (sigs @ [ResFinish i dur]) t) = (case b of Inl m \<Rightarrow> [m] | Inr ev \<Rightarrow> [])"
proof -
  have t: "tap_resBuf t = CappedBuffer (buffer_cap opts)" "tap_reqBuf t = CappedBuffer (buffer_cap opts)"
    "tap_listening t" "tap_sent t = []" "tap_errors t = []" "tap_eventId t = eid" "tap_startWallNs t = nowMs * 1000000"
    using assms(1) by (auto simp: capture_middleware_def Let_def split: if_splits)
  have run: "tap_run build opts (sigs @ [ResFinish i dur]) t = tap_step build opts (ResFinish i dur) (tap_run build opts sigs t)"
    by (simp add: tap_run_def)
  show ?thesis
    unfolding run assms(3) using tap_run_bufs [OF assms(2), of build opts t] t
    by (simp add: captured_body_def finalize_with_def tapped_req_def tapped_res_def split: sum.splits)
qed

text \<open>
  C26. What a sampled request leaves when its response finishes: one event, or, when the application's extractor
  throws, none and one error for \<open>onError\<close>. The event carries the id that was installed in the scope of
  the handler, the request bytes up to the end of the request and all response bytes the handler wrote, each as
  \<open>captured_body\<close> describes, the headers with the denylist applied, the status and what the extractor
  returned. The Koa builder, and through it Strapi, sends the same events under its own adapter name and reports the same errors.
\<close>

theorem http_capture_event:
  assumes "captureHttp opts draw eid nowMs hs (sigs @ [ResFinish i dur]) = Some (scope, sent, errors)" "list_all not_finish sigs"
  shows "(case hi_user i of
      Inl m \<Rightarrow> sent = [] \<and> errors = [m]
    | Inr user \<Rightarrow>
        (\<exists>ev h. sent = [ev] \<and> errors = [] \<and> ev_id ev = eid \<and> ev_adapter ev = ''http.express'' \<and> ev_payload ev = HttpPayload h \<and>
           he_requestBody h = fin_body (tapped_req opts sigs i) \<and> he_responseBody h = fin_body (tapped_res opts sigs i) \<and>
           he_headers h = red_headers (redactHeaders (hi_reqHeaders i) (Some (header_deny opts))) \<and>
           he_responseHeaders h = red_headers (redactHeaders (hi_resHeaders i) (Some (header_deny opts))) \<and>
           ev_redactionsApplied ev = red_applied (redactHeaders (hi_reqHeaders i) (Some (header_deny opts))) @
             red_applied (redactHeaders (hi_resHeaders i) (Some (header_deny opts))) @
             fin_redactions (tapped_req opts sigs i) @ fin_redactions (tapped_res opts sigs i) \<and>
           he_status h = hi_status i \<and> he_durationNs h = dur \<and> he_userId h = or_empty user)) \<and>
    currentEventId scope = Some eid \<and>
    clearvoianceStrapiMiddleware opts draw eid nowMs hs (sigs @ [ResFinish i dur]) =
      Some (scope, map (\<lambda>ev. ev\<lparr>ev_adapter := ''http.koa''\<rparr>) sent, errors)"
proof -
  let ?build = "\<lambda>build :: event_builder. build eid (nowMs * 1000000) dur i (tapped_req opts sigs i) (tapped_res opts sigs i) (header_deny opts)"
  obtain t where t: "capture_middleware opts draw eid nowMs hs = Some (t, scope)"
    "sent = tap_sent (tap_run express_buildEvent opts (sigs @ [ResFinish i dur]) t)"
    "errors = tap_errors (tap_run express_buildEvent opts (sigs @ [ResFinish i dur]) t)"
    using assms(1) by (auto simp: captureHttp_def)
  note run = tap_run_sent [OF t(1) assms(2) refl]
  have sent: "sent = (case ?build express_buildEvent of Inl m \<Rightarrow> [] | Inr ev \<Rightarrow> [ev])"
    "errors = (case ?build express_buildEvent of Inl m \<Rightarrow> [m] | Inr ev \<Rightarrow> [])"
    using t(2,3) run by metis+
  have "clearvoianceStrapiMiddleware opts draw eid nowMs hs (sigs @ [ResFinish i dur]) =
      Some (scope, map (\<lambda>ev. ev\<lparr>ev_adapter := ''http.koa''\<rparr>) sent, errors)"
    unfolding sent clearvoianceStrapiMiddleware_def captureKoa_def t(1) using run [of koa_buildEvent]
    by (simp add: koa_buildEvent_eq split: sum.splits)
  moreover have "currentEventId scope = Some eid" using capture_middleware_scope [OF t(1)] .
  ultimately show ?thesis
    unfolding sent by (cases "hi_user i") (simp_all add: express_buildEvent_def make_event_def Let_def)
qed

definition plain_options :: capture_options where
  "plain_options = \<lparr>co_sampleRate = None, co_maxBodyInlineBytes = Some 4, co_maxBodyBlobBytes = None,
     co_redactHeaders = Some [MName ''cookie''], co_uploader = None\<rparr>"

definition get_info :: http_info where
  "get_info = \<lparr>hi_method = ''GET'', hi_originalUrl = ''/a'', hi_url = ''/a'', hi_httpVersion = ''1.1'',
     hi_reqHeaders = [(''cookie'', HStr ''s'')], hi_resHeaders = [], hi_status = 200, hi_ip = Some ''::1'',
     hi_remoteAddress = None, hi_user = Inr None, hi_route = None\<rparr>"

theorem http_capture_event_witness:
  "(\<exists>ev. captureHttp plain_options 0 ''ev1'' 5 [] ([ResWrite (ChunkString ''hi''), ResEnd ChunkNull] @ [ResFinish get_info 7]) =
      Some (Some \<lparr>ctx_eventId = ''ev1'', ctx_replayId = None\<rparr>, [ev], []) \<and> ev_id ev = ''ev1'' \<and> ev_adapter ev = ''http.express'') \<and>
   captureHttp plain_options 0 ''ev1'' 5 [] ([ResEnd ChunkNull] @ [ResFinish (get_info\<lparr>hi_user := Inl ''no user''\<rparr>) 7]) =
      Some (Some \<lparr>ctx_eventId = ''ev1'', ctx_replayId = None\<rparr>, [], [''no user''])"
proof -
  have run: "\<exists>sent errors. captureHttp plain_options 0 ''ev1'' 5 [] sigs =
      Some (Some \<lparr>ctx_eventId = ''ev1'', ctx_replayId = None\<rparr>, sent, errors)" for sigs
    by (simp add: captureHttp_def capture_middleware_def sampled_in_def plain_options_def runWithEvent_def
        extractReplayId_def REPLAY_ID_HEADER_def)
  obtain sent errors where a: "captureHttp plain_options 0 ''ev1'' 5 [] ([ResWrite (ChunkString ''hi''), ResEnd ChunkNull] @ [ResFinish get_info 7]) =
      Some (Some \<lparr>ctx_eventId = ''ev1'', ctx_replayId = None\<rparr>, sent, errors)" using run by blast
  obtain sent' errors' where b: "captureHttp plain_options 0 ''ev1'' 5 [] ([ResEnd ChunkNull] @ [ResFinish (get_info\<lparr>hi_user := Inl ''no user''\<rparr>) 7]) =
      Some (Some \<lparr>ctx_eventId = ''ev1'', ctx_replayId = None\<rparr>, sent', errors')" using run by blast
  from http_capture_event [OF a] obtain ev where "sent = [ev]" "errors = []" "ev_id ev = ''ev1''" "ev_adapter ev = ''http.express''"
    by (auto simp: get_info_def)
  moreover from http_capture_event [OF b] have "sent' = []" "errors' = [''no user'']" by (auto simp: get_info_def)
  ultimately show ?thesis using a b by auto
qed

section \<open>Fastify\<close>

record request_state =
  rs_eventId :: string
  rs_replayId :: "string option"
  rs_startWallNs :: int
  rs_reqBuf :: capped_buffer
  rs_resBuf :: capped_buffer
  rs_reqContentType :: "string option"

record fastify_info =
  fi_method :: string
  fi_url :: string
  fi_headers :: "header_value dict"
  fi_ip :: "string option"
  fi_routerPath :: "string option"
  fi_routeUrl :: "string option"
  fi_statusCode :: int
  fi_resHeaders :: "header_value dict"
  fi_user :: "string + string option"

definition fastify_buildEvent :: "string \<Rightarrow> int \<Rightarrow> int \<Rightarrow> fastify_info \<Rightarrow> finalize_result \<Rightarrow> finalize_result
    \<Rightarrow> header_matcher list \<Rightarrow> string + event" where
  "fastify_buildEvent eid startWallNs durationNs i reqBody resBody deny =
     (let reqHdr = redactHeaders (fi_headers i) (Some deny);
          resHdr = redactHeaders (fi_resHeaders i) (Some deny)
      in case fi_user i of
           Inl err \<Rightarrow> Inl err
         | Inr user \<Rightarrow>
             Inr (make_event eid startWallNs ''http.fastify'' []
               (red_applied reqHdr @ red_applied resHdr @ fin_redactions reqBody @ fin_redactions resBody)
               (HttpPayload
                 \<lparr>he_method = fi_method i, he_path = fi_url i, he_httpVersion = ''HTTP/1.1'',
                  he_headers = red_headers reqHdr, he_requestBody = fin_body reqBody, he_status = fi_statusCode i,
                  he_responseHeaders = red_headers resHdr, he_responseBody = fin_body resBody,
                  he_durationNs = durationNs, he_sourceIp = or_empty (fi_ip i), he_userId = or_empty user,
                  he_routeTemplate = or_empty (or_else (fi_routeUrl i) (fi_routerPath i))\<rparr>)))"

text \<open>The hooks share a \<open>WeakMap\<close> from requests (numbered here) to their state.\<close>

record fastify =
  fs_state :: "(nat \<times> request_state) list"
  fs_sent :: "event list"
  fs_errors :: "string list"

datatype fastify_hook =
    OnRequest nat rat string int "header_value dict"
  | PreParsingData nat chunk
  | OnSend nat chunk
  | OnResponse nat fastify_info int

fun fastify_step :: "capture_options \<Rightarrow> fastify_hook \<Rightarrow> fastify \<Rightarrow> fastify" where
  "fastify_step opts (OnRequest r draw eid nowMs headers) f =
     (if \<not> sampled_in opts draw then f
      else f\<lparr>fs_state := dict_set r
          \<lparr>rs_eventId = eid, rs_replayId = extractReplayId (NodeHeaders headers), rs_startWallNs = nowMs * 1000000,
           rs_reqBuf = CappedBuffer (buffer_cap opts), rs_resBuf = CappedBuffer (buffer_cap opts),
           rs_reqContentType = stringHeader_num (dict_get headers ''content-type'')\<rparr> (fs_state f)\<rparr>)"
| "fastify_step opts (PreParsingData r c) f =
     (case dict_get (fs_state f) r of
        None \<Rightarrow> f
      | Some s \<Rightarrow> f\<lparr>fs_state := dict_set r (s\<lparr>rs_reqBuf := cb_push (toBuffer c) (rs_reqBuf s)\<rparr>) (fs_state f)\<rparr>)"
| "fastify_step opts (OnSend r c) f =
     (case dict_get (fs_state f) r of
        None \<Rightarrow> f
      | Some s \<Rightarrow>
          (case c of
             ChunkBuffer b \<Rightarrow> f\<lparr>fs_state := dict_set r (s\<lparr>rs_resBuf := cb_push b (rs_resBuf s)\<rparr>) (fs_state f)\<rparr>
           | ChunkString x \<Rightarrow> f\<lparr>fs_state := dict_set r (s\<lparr>rs_resBuf := cb_push (utf8_encode x) (rs_resBuf s)\<rparr>) (fs_state f)\<rparr>
           | _ \<Rightarrow> f))"
| "fastify_step opts (OnResponse r i dur) f =
     (case dict_get (fs_state f) r of
        None \<Rightarrow> f
      | Some s \<Rightarrow>
          (let f = f\<lparr>fs_state := dict_del r (fs_state f)\<rparr>
           in case fastify_buildEvent (rs_eventId s) (rs_startWallNs s) dur i
                     (finalize_with opts (rs_reqContentType s) (rs_reqBuf s))
                     (finalize_with opts (stringHeader_num (dict_get (fi_resHeaders i) ''content-type'')) (rs_resBuf s))
                     (header_deny opts) of
                Inl err \<Rightarrow> f\<lparr>fs_errors := fs_errors f @ [err]\<rparr>
              | Inr ev \<Rightarrow> f\<lparr>fs_sent := fs_sent f @ [ev]\<rparr>))"

definition registerCapture :: "capture_options \<Rightarrow> fastify_hook list \<Rightarrow> fastify" where
  "registerCapture opts hooks = fold (fastify_step opts) hooks \<lparr>fs_state = [], fs_sent = [], fs_errors = []\<rparr>"

fun hook_starts :: "capture_options \<Rightarrow> fastify_hook \<Rightarrow> string list" where
  "hook_starts opts (OnRequest r draw eid nowMs hs) = (if sampled_in opts draw then [eid] else [])"
| "hook_starts opts h = []"

lemma fastify_build_id: "fastify_buildEvent eid ts dur i a b d = Inr ev \<Longrightarrow> ev_id ev = eid"
  by (auto simp: fastify_buildEvent_def make_event_def Let_def split: sum.splits)

definition request_ids :: "(nat \<times> request_state) list \<Rightarrow> string multiset" where
  "request_ids d = mset (map (\<lambda>x. rs_eventId (snd x)) d)"

definition sent_ids :: "fastify \<Rightarrow> string multiset" where
  "sent_ids f = mset (map ev_id (fs_sent f))"

lemma request_ids_simps [simp]:
  "request_ids [] = {#}" "request_ids (x # d) = add_mset (rs_eventId (snd x)) (request_ids d)"
  by (simp_all add: request_ids_def)

lemma request_ids_set: "request_ids (dict_set r s d) \<subseteq># add_mset (rs_eventId s) (request_ids d)"
  by (induction d) (auto simp: add_mset_commute)

lemma request_ids_same:
  "dict_get d r = Some s \<Longrightarrow> rs_eventId s' = rs_eventId s \<Longrightarrow> request_ids (dict_set r s' d) = request_ids d"
  by (induction d) auto

lemma request_ids_del: "request_ids (dict_del r d) \<subseteq># request_ids d"
  by (induction d) (auto intro: subset_mset.order_trans)

lemma request_ids_del_present:
  "dict_get d r = Some s \<Longrightarrow> add_mset (rs_eventId s) (request_ids (dict_del r d)) \<subseteq># request_ids d"
proof (induction d)
  case (Cons x d)
  then show ?case
    using request_ids_del [of r d] by (cases x; cases "fst x = r") (simp_all add: add_mset_commute [of "rs_eventId s"])
qed simp

lemma fastify_step_ids:
  "sent_ids (fastify_step opts h f) + request_ids (fs_state (fastify_step opts h f))
     \<subseteq># sent_ids f + request_ids (fs_state f) + mset (hook_starts opts h)"
proof (cases h)
  case (OnRequest r draw eid nowMs hs)
  then show ?thesis
    using request_ids_set [of r "\<lparr>rs_eventId = eid, rs_replayId = extractReplayId (NodeHeaders hs), rs_startWallNs = nowMs * 1000000,
           rs_reqBuf = CappedBuffer (buffer_cap opts), rs_resBuf = CappedBuffer (buffer_cap opts),
           rs_reqContentType = stringHeader_num (dict_get hs ''content-type'')\<rparr>" "fs_state f"]
    by (simp add: sent_ids_def)
next
  case (PreParsingData r c)
  then show ?thesis by (cases "dict_get (fs_state f) r") (auto simp: request_ids_same sent_ids_def)
next
  case (OnSend r c)
  then show ?thesis
    by (cases "dict_get (fs_state f) r") (auto simp: request_ids_same sent_ids_def split: chunk.splits)
next
  case (OnResponse r i dur)
  then show ?thesis
    using request_ids_del_present [of "fs_state f" r] request_ids_del [of r "fs_state f"]
    by (cases "dict_get (fs_state f) r") (auto simp: sent_ids_def Let_def fastify_build_id split: sum.splits)
qed

text \<open>
  C27. Fastify: no request is captured twice. Whatever hooks fire and in whatever order, the ids of
  the events sent are ids of sampled requests, each used at most once for every time it was drawn.
\<close>

theorem fastify_at_most_once:
  "mset (map ev_id (fs_sent (registerCapture opts hooks))) \<subseteq># mset (concat (map (hook_starts opts) hooks))"
proof -
  let ?run = "\<lambda>hooks f. fold (fastify_step opts) hooks f"
  have run: "sent_ids (?run hooks f) + request_ids (fs_state (?run hooks f))
    \<subseteq># sent_ids f + request_ids (fs_state f) + mset (concat (map (hook_starts opts) hooks))" for f
  proof (induction hooks arbitrary: f)
    case (Cons h hooks)
    from subset_mset.order_trans [OF Cons.IH subset_mset.add_right_mono [OF fastify_step_ids]]
    show ?case by (simp add: add.assoc)
  qed simp
  have "sent_ids (?run hooks \<lparr>fs_state = [], fs_sent = [], fs_errors = []\<rparr>) \<subseteq># mset (concat (map (hook_starts opts) hooks))"
    using subset_mset.order_trans [OF mset_subset_eq_add_left run [of "\<lparr>fs_state = [], fs_sent = [], fs_errors = []\<rparr>"]]
    by (simp add: sent_ids_def)
  then show ?thesis by (simp add: registerCapture_def sent_ids_def)
qed

end
