(* ===== verification/Outbound.thy ===== *)
theory Outbound
  imports Capture
begin

text \<open>
  Outbound capture (\<open>sdk-node/src/outbound/http.ts\<close> and \<open>outbound/fetch.ts\<close>): the patched
  \<open>http.request\<close> as a state machine over the callbacks of one request, and the patched \<open>fetch\<close>
  as a function of the original one's answer. The argument normalisation of \<open>http.ts\<close> is the one of
  the intercept layer, line for line, so \<open>normalizeRequestArgs\<close> of theory \<open>Intercept\<close> serves both.
\<close>

section \<open>Helpers\<close>

definition targetFromHost :: "string \<Rightarrow> string" where
  "targetFromHost host =
     (let parts = filter (\<lambda>p. p \<noteq> []) (split_on (CHR ''.'') host)
      in if length parts \<le> 1 then host
         else if parts ! 0 = ''api'' then parts ! 1 @ ''.api''
         else if last parts = ''local'' then host
         else join_with ''.'' (drop (length parts - 2) parts))"

fun flat_to_record :: "string list \<Rightarrow> header_value dict \<Rightarrow> header_value dict" where
  "flat_to_record (k # v # rest) out = flat_to_record rest (dict_set k (HStr v) out)"
| "flat_to_record _ out = out"

fun dict_to_record :: "header_value dict \<Rightarrow> header_value dict \<Rightarrow> header_value dict" where
  "dict_to_record [] out = out"
| "dict_to_record ((k, v) # rest) out = dict_to_record rest (if v = HUndef then out else dict_set k v out)"

definition outgoingHeadersToRecord :: "out_headers option \<Rightarrow> header_value dict" where
  "outgoingHeadersToRecord h =
     (case h of
        None \<Rightarrow> []
      | Some NoOutHeaders \<Rightarrow> []
      | Some (FlatHeaders hs) \<Rightarrow> flat_to_record hs []
      | Some (DictHeaders hs) \<Rightarrow> dict_to_record hs [])"

definition incomingHeadersToRecord :: "header_value dict \<Rightarrow> header_value dict" where
  "incomingHeadersToRecord h = dict_to_record h []"

definition lookupOutgoingHeader :: "out_headers option \<Rightarrow> string \<Rightarrow> header_value option" where
  "lookupOutgoingHeader h name =
     (case h of
        None \<Rightarrow> None
      | Some NoOutHeaders \<Rightarrow> None
      | Some (FlatHeaders hs) \<Rightarrow> map_option HStr (flat_header hs (toLowerCase name))
      | Some (DictHeaders hs) \<Rightarrow>
          (case dict_get hs name of
             Some HUndef \<Rightarrow> map_option snd (find (\<lambda>(k, v). toLowerCase k = toLowerCase name) hs)
           | Some v \<Rightarrow> Some v
           | None \<Rightarrow> map_option snd (find (\<lambda>(k, v). toLowerCase k = toLowerCase name) hs)))"

text \<open>\<open>protocol.replace(":", "")\<close> removes the first colon.\<close>

definition drop_colon :: "string \<Rightarrow> string" where
  "drop_colon s = (case break_at (CHR '':'') s of None \<Rightarrow> s | Some (a, b) \<Rightarrow> a @ b)"

section \<open>The patched http.request\<close>

record outbound_call =
  ob_options :: request_options
  ob_protocol :: string
  ob_host :: string
  ob_method :: string
  ob_path :: string
  ob_causedBy :: string
  ob_startWallNs :: int
  ob_reqBuf :: capped_buffer
  ob_resBuf :: capped_buffer
  ob_status :: int
  ob_resHeaders :: "header_value dict"
  ob_httpVersion :: string
  ob_listening :: bool
  ob_emitted :: bool
  ob_sent :: "event list"

datatype patched_result = OutPassThrough | OutThrew js_error | Captured outbound_call

definition options_host :: "request_options \<Rightarrow> string" where
  "options_host o' = toLowerCase (case or_else (opt_hostname o') (opt_host o') of None \<Rightarrow> ''localhost'' | Some h \<Rightarrow> h)"

definition patchedRequest :: "url_parser \<Rightarrow> capture_options \<Rightarrow> string list \<Rightarrow> string \<Rightarrow> scope \<Rightarrow> int \<Rightarrow> request_arg list
    \<Rightarrow> patched_result" where
  "patchedRequest parse_url opts skipHosts defaultProtocol scope nowMs args =
     (case normalizeRequestArgs parse_url args defaultProtocol of
        Inl e \<Rightarrow> OutThrew e
      | Inr n \<Rightarrow>
          (let o' = norm_options n; host = options_host o'
           in case currentEventId scope of
                None \<Rightarrow> OutPassThrough
              | Some causedBy \<Rightarrow>
                  if causedBy = [] \<or> host \<in> set (map toLowerCase skipHosts) then OutPassThrough
                  else Captured
                    \<lparr>ob_options = o', ob_protocol = norm_protocol n, ob_host = host,
                     ob_method = toUpperCase (case opt_method o' of None \<Rightarrow> ''GET'' | Some m \<Rightarrow> m),
                     ob_path = (case opt_path o' of None \<Rightarrow> ''/'' | Some p \<Rightarrow> p),
                     ob_causedBy = causedBy, ob_startWallNs = nowMs * 1000000,
                     ob_reqBuf = CappedBuffer (buffer_cap opts), ob_resBuf = CappedBuffer (buffer_cap opts),
                     ob_status = 0, ob_resHeaders = [], ob_httpVersion = ''HTTP/1.1'', ob_listening = False,
                     ob_emitted = False, ob_sent = []\<rparr>))"

record build_outbound_args =
  ba_eventId :: string
  ba_durationNs :: int
  ba_status :: int
  ba_reqHeaders :: "string list dict"
  ba_resHeaders :: "string list dict"
  ba_reqBody :: finalize_result
  ba_resBody :: finalize_result
  ba_responseHash :: bytes
  ba_applied :: "string list"

definition outbound_buildEvent :: "outbound_call \<Rightarrow> build_outbound_args \<Rightarrow> event" where
  "outbound_buildEvent c a =
     make_event (ba_eventId a) (ob_startWallNs c) ''outbound.http''
       [(''host'', ob_host c), (''scheme'', drop_colon (ob_protocol c))] (ba_applied a)
       (OutboundPayload
         \<lparr>oe_target = targetFromHost (ob_host c),
          oe_http =
            \<lparr>he_method = ob_method c, he_path = ob_path c, he_httpVersion = ob_httpVersion c,
             he_headers = ba_reqHeaders a, he_requestBody = fin_body (ba_reqBody a), he_status = ba_status a,
             he_responseHeaders = ba_resHeaders a, he_responseBody = fin_body (ba_resBody a),
             he_durationNs = ba_durationNs a, he_sourceIp = [], he_userId = [], he_routeTemplate = []\<rparr>,
          oe_causedByEventId = ob_causedBy c, oe_responseHash = ba_responseHash a\<rparr>)"

text \<open>\<open>sha\<close> is the raw SHA-256 of the response; the id and the duration are drawn here.\<close>

definition outbound_finish :: "(bytes \<Rightarrow> bytes) \<Rightarrow> capture_options \<Rightarrow> bool \<Rightarrow> string \<Rightarrow> int \<Rightarrow> outbound_call \<Rightarrow> outbound_call" where
  "outbound_finish sha opts errored eid dur c =
     (if ob_emitted c then c
      else
        (let reqFinal = finalize_with opts
               (stringHeader_num (lookupOutgoingHeader (opt_headers (ob_options c)) ''content-type'')) (ob_reqBuf c);
             resFinal = finalize_with opts (stringHeader_num (dict_get (ob_resHeaders c) ''content-type'')) (ob_resBuf c);
             reqHdr = redactHeaders (outgoingHeadersToRecord (opt_headers (ob_options c))) (Some (header_deny opts));
             resHdr = redactHeaders (incomingHeadersToRecord (ob_resHeaders c)) (Some (header_deny opts))
         in c\<lparr>ob_emitted := True,
              ob_sent := ob_sent c @
                [outbound_buildEvent c
                  \<lparr>ba_eventId = eid, ba_durationNs = dur, ba_status = (if errored then 0 else ob_status c),
                   ba_reqHeaders = red_headers reqHdr, ba_resHeaders = red_headers resHdr, ba_reqBody = reqFinal,
                   ba_resBody = resFinal, ba_responseHash = sha (cb_toBuffer (ob_resBuf c)),
                   ba_applied = red_applied reqHdr @ red_applied resHdr @ fin_redactions reqFinal @ fin_redactions resFinal\<rparr>]\<rparr>))"

datatype outbound_signal =
    OutWrite chunk
  | OutEnd chunk
  | OutResponse "int option" "header_value dict" "string option"
  | OutData chunk
  | OutResEnd string int
  | OutResError string int
  | OutReqError string int

fun outbound_step :: "(bytes \<Rightarrow> bytes) \<Rightarrow> capture_options \<Rightarrow> outbound_signal \<Rightarrow> outbound_call \<Rightarrow> outbound_call" where
  "outbound_step sha opts (OutWrite k) c =
     (if k = ChunkNull then c else c\<lparr>ob_reqBuf := cb_push (toBuffer k) (ob_reqBuf c)\<rparr>)"
| "outbound_step sha opts (OutEnd k) c =
     (if k = ChunkNull then c else c\<lparr>ob_reqBuf := cb_push (toBuffer k) (ob_reqBuf c)\<rparr>)"
| "outbound_step sha opts (OutResponse st hs v) c =
     c\<lparr>ob_status := (case st of None \<Rightarrow> 0 | Some n \<Rightarrow> n), ob_resHeaders := hs,
       ob_httpVersion := ''HTTP/'' @ (case v of None \<Rightarrow> ''1.1'' | Some x \<Rightarrow> x), ob_listening := True\<rparr>"
| "outbound_step sha opts (OutData k) c =
     (if ob_listening c then c\<lparr>ob_resBuf := cb_push (toBuffer k) (ob_resBuf c)\<rparr> else c)"
| "outbound_step sha opts (OutResEnd eid dur) c = outbound_finish sha opts False eid dur (c\<lparr>ob_listening := False\<rparr>)"
| "outbound_step sha opts (OutResError eid dur) c = outbound_finish sha opts True eid dur (c\<lparr>ob_listening := False\<rparr>)"
| "outbound_step sha opts (OutReqError eid dur) c = outbound_finish sha opts True eid dur c"

definition patchHttp_run :: "(bytes \<Rightarrow> bytes) \<Rightarrow> capture_options \<Rightarrow> outbound_signal list \<Rightarrow> outbound_call \<Rightarrow> outbound_call" where
  "patchHttp_run sha opts sigs c = fold (outbound_step sha opts) sigs c"

fun is_finish :: "outbound_signal \<Rightarrow> bool" where
  "is_finish (OutResEnd e d) = True"
| "is_finish (OutResError e d) = True"
| "is_finish (OutReqError e d) = True"
| "is_finish s = False"

lemma outbound_step_sent:
  "length (ob_sent (outbound_step sha opts s c)) =
     length (ob_sent c) + (if is_finish s \<and> \<not> ob_emitted c then 1 else 0) \<and>
   ob_emitted (outbound_step sha opts s c) = (ob_emitted c \<or> is_finish s) \<and>
   ob_causedBy (outbound_step sha opts s c) = ob_causedBy c"
  by (cases s) (simp_all add: outbound_finish_def Let_def)

text \<open>The inbound event an outbound event names.\<close>

fun caused_by :: "payload \<Rightarrow> string option" where
  "caused_by (OutboundPayload oe) = Some (oe_causedByEventId oe)"
| "caused_by (DbPayload de) = Some (de_causedByEventId de)"
| "caused_by _ = None"

lemma outbound_step_caused:
  assumes "\<forall>ev \<in> set (ob_sent c). caused_by (ev_payload ev) = Some (ob_causedBy c)"
  shows "\<forall>ev \<in> set (ob_sent (outbound_step sha opts s c)). caused_by (ev_payload ev) = Some (ob_causedBy c)"
  using assms by (cases s) (auto simp: outbound_finish_def outbound_buildEvent_def make_event_def Let_def)

lemma patchHttp_run_sent:
  "length (ob_sent (patchHttp_run sha opts sigs d)) =
     length (ob_sent d) + (if list_ex is_finish sigs \<and> \<not> ob_emitted d then 1 else 0)"
  unfolding patchHttp_run_def
proof (induction sigs arbitrary: d)
  case (Cons s sigs)
  from Cons.IH [of "outbound_step sha opts s d"] outbound_step_sent [of sha opts s d] show ?case by auto
qed simp

lemma patchHttp_run_caused:
  assumes "\<forall>ev \<in> set (ob_sent d). caused_by (ev_payload ev) = Some (ob_causedBy d)"
  shows "\<forall>ev \<in> set (ob_sent (patchHttp_run sha opts sigs d)). caused_by (ev_payload ev) = Some (ob_causedBy d)"
  using assms unfolding patchHttp_run_def
proof (induction sigs arbitrary: d)
  case (Cons s sigs)
  from Cons.IH [of "outbound_step sha opts s d"] Cons.prems show ?case
    using outbound_step_sent [of sha opts s d] outbound_step_caused [of d sha opts s] by simp
qed simp

text \<open>
  C28. An outbound call is recorded exactly once: however many end and error callbacks fire, one
  event is sent as soon as the first of them does and none before, and it names the inbound event
  that caused the call.
\<close>

theorem outbound_recorded_once:
  assumes "patchedRequest parse_url opts skip proto scope nowMs args = Captured c"
  shows "(let c' = patchHttp_run sha opts sigs c
          in length (ob_sent c') = (if list_ex is_finish sigs then 1 else 0) \<and>
             (\<forall>ev \<in> set (ob_sent c'). caused_by (ev_payload ev) = currentEventId scope))"
proof -
  have "ob_sent c = []" "\<not> ob_emitted c" "currentEventId scope = Some (ob_causedBy c)"
    using assms by (auto simp: patchedRequest_def Let_def split: sum.splits option.splits if_splits)
  with patchHttp_run_sent [of sha opts sigs c] patchHttp_run_caused [of c sha opts sigs] show ?thesis
    by (simp add: Let_def)
qed

theorem outbound_recorded_once_witness:
  "\<exists>c. patchedRequest (\<lambda>s. None) plain_options [] ''http:'' (Some \<lparr>ctx_eventId = ''ev1'', ctx_replayId = None\<rparr>) 3
       [ArgOptions no_options] = Captured c \<and>
     length (ob_sent (patchHttp_run id plain_options [OutEnd ChunkNull, OutReqError ''ev2'' 4, OutResEnd ''ev3'' 5] c)) = 1"
proof -
  obtain c where run: "patchedRequest (\<lambda>s. None) plain_options [] ''http:''
      (Some \<lparr>ctx_eventId = ''ev1'', ctx_replayId = None\<rparr>) 3 [ArgOptions no_options] = Captured c"
    by (simp add: patchedRequest_def normalizeRequestArgs_def no_options_def currentEventId_def Let_def)
  with outbound_recorded_once [OF run, of id "[OutEnd ChunkNull, OutReqError ''ev2'' 4, OutResEnd ''ev3'' 5]"]
  show ?thesis by (simp add: Let_def)
qed

section \<open>Capture and replay disagree on ports\<close>

text \<open>
  A call with an explicit port is captured under its bare host name, but hermetic replay looks
  it up under \<open>host:port\<close>: with a collision-free digest, the signature computed at replay can never
  be the one of the captured request, so no mock for such a call is ever found.
\<close>

theorem explicit_port_never_matches:
  assumes "inj (env_sha env)" "\<And>x. CHR ''|'' \<notin> set (env_sha env x)"
    and "opt_port o' = Some p" "p \<noteq> []" "CHR ''|'' \<notin> set p" "CHR ''|'' \<notin> set (options_host o')"
    and "CHR ''|'' \<notin> set m" "opt_method o' = Some m"
  shows "request_signature env (buildHermeticRequest o' proto ev cb) \<noteq>
    signatureOf (env_sha env) (env_parse env)
      \<lparr>sig_method = toUpperCase m, sig_host = options_host o',
       sig_path = hr_path (buildHermeticRequest o' proto ev cb), sig_body = Some [],
       sig_contentType = firstHeader (opt_headers o') ''content-type''\<rparr> (env_canon env)"
proof
  let ?r = "buildHermeticRequest o' proto ev cb"
  let ?i = "\<lparr>sig_method = hr_method ?r, sig_host = hr_host ?r @ hr_port ?r, sig_path = hr_path ?r,
    sig_body = Some (concat (hr_chunks ?r)), sig_contentType = firstHeader (hr_headers ?r) ''content-type''\<rparr>"
  let ?j = "\<lparr>sig_method = toUpperCase m, sig_host = options_host o', sig_path = hr_path ?r, sig_body = Some [],
    sig_contentType = firstHeader (opt_headers o') ''content-type''\<rparr>"
  have host: "hr_host ?r = options_host o'" "hr_port ?r = '':'' @ p" "hr_method ?r = toUpperCase m"
    using assms(3,4,8) by (simp_all add: buildHermeticRequest_def options_host_def)
  assume "request_signature env ?r = signatureOf (env_sha env) (env_parse env) ?j (env_canon env)"
  then have eq: "signatureOf (env_sha env) (env_parse env) ?i (env_canon env) =
      signatureOf (env_sha env) (env_parse env) ?j (env_canon env)"
    by (simp add: request_signature_def)
  have "CHR ''|'' \<notin> set (toUpperCase m)" using assms(7) bar_notin_case by blast
  then have "signature_parts (env_sha env) (env_parse env) ?i (env_canon env) =
      signature_parts (env_sha env) (env_parse env) ?j (env_canon env)"
    using assms(5,6) by (intro signature_parts_eq [OF assms(1,2) _ _ _ _ eq]) (auto simp: host)
  then have "toLowerCase (options_host o' @ '':'' @ p) = toLowerCase (options_host o')"
    by (simp add: signature_parts_def host)
  then have "length (options_host o' @ '':'' @ p) = length (options_host o')" by (metis length_toLowerCase)
  then show False by simp
qed

section \<open>The patched fetch\<close>

datatype capture_body =
    CbString string
  | CbBytes bytes
  | CbParams "(string \<times> string) list"
  | CbBlob bytes string
  | CbForm "(string \<times> string option) list"
  | CbStream "bytes list"
  | CbOther

text \<open>A form is approximated as text; the value of a file is not recorded.\<close>

definition readRequestBody :: "capture_body \<Rightarrow> bytes" where
  "readRequestBody b =
     (case b of
        CbString s \<Rightarrow> utf8_encode s
      | CbBytes bs \<Rightarrow> bs
      | CbParams ps \<Rightarrow> utf8_encode (qs_print ps)
      | CbBlob bs type \<Rightarrow> bs
      | CbForm parts \<Rightarrow>
          utf8_encode (join_with ''&''
            (map (\<lambda>(k, v). k @ ''='' @ (case v of Some s \<Rightarrow> s | None \<Rightarrow> ''[file]'')) parts))
      | CbStream chunks \<Rightarrow> concat chunks
      | CbOther \<Rightarrow> [])"

record capture_init =
  ci_method :: "string option"
  ci_body :: "capture_body option"
  ci_headers :: init_headers

fun set_lower :: "(string \<times> string) list \<Rightarrow> header_value dict \<Rightarrow> header_value dict" where
  "set_lower [] out = out"
| "set_lower ((k, v) # rest) out = set_lower rest (dict_set (toLowerCase k) (HStr v) out)"

definition init_pairs :: "init_headers \<Rightarrow> (string \<times> string) list" where
  "init_pairs h = (case h of NoInitHeaders \<Rightarrow> [] | HeadersObject d \<Rightarrow> d | PairHeaders ps \<Rightarrow> ps | PlainHeaders d \<Rightarrow> d)"

definition mergedRequestHeaders :: "fetch_input \<Rightarrow> capture_init option \<Rightarrow> header_value dict" where
  "mergedRequestHeaders inp ini =
     set_lower (case ini of None \<Rightarrow> [] | Some i \<Rightarrow> init_pairs (ci_headers i))
       (set_lower (case inp of FetchRequest r \<Rightarrow> freq_headers r | _ \<Rightarrow> []) [])"

definition responseHeadersToRecord :: "string dict \<Rightarrow> header_value dict" where
  "responseHeadersToRecord h = set_lower h []"

record patched_fetch =
  pf_forwardedInit :: "capture_init option"
  pf_result :: "js_error + fetch_response"
  pf_sent :: "event list"

definition fetch_target :: "url_parser \<Rightarrow> fetch_input \<Rightarrow> capture_init option \<Rightarrow> (url \<times> string) option" where
  "fetch_target parse_url inp ini =
     (let m = Option.bind ini ci_method
      in case inp of
           FetchString s \<Rightarrow> map_option (\<lambda>u. (u, toUpperCase (case m of None \<Rightarrow> ''GET'' | Some x \<Rightarrow> x))) (parse_url s)
         | FetchUrl u \<Rightarrow> Some (u, toUpperCase (case m of None \<Rightarrow> ''GET'' | Some x \<Rightarrow> x))
         | FetchRequest r \<Rightarrow>
             map_option (\<lambda>u. (u, toUpperCase (case m of None \<Rightarrow> freq_method r | Some x \<Rightarrow> x))) (parse_url (freq_url r)))"

definition fetch_bodyBuf :: "fetch_input \<Rightarrow> capture_init option \<Rightarrow> bytes" where
  "fetch_bodyBuf inp ini =
     (case Option.bind ini ci_body of
        Some b \<Rightarrow> readRequestBody b
      | None \<Rightarrow> (case inp of FetchRequest r \<Rightarrow> (case freq_body r of None \<Rightarrow> [] | Some b \<Rightarrow> b) | _ \<Rightarrow> []))"

definition forward_init :: "bytes \<Rightarrow> capture_init option \<Rightarrow> capture_init option" where
  "forward_init bodyBuf ini =
     map_option (\<lambda>i. if ci_body i \<noteq> None \<and> bodyBuf \<noteq> [] then i\<lparr>ci_body := Some (CbBytes bodyBuf)\<rparr> else i) ini"

text \<open>
  \<open>orig\<close> is the original \<open>fetch\<close>: its answer to the forwarded \<open>init\<close>. The request body is read
  first, and a body that is not empty is replaced by the bytes that were read.
\<close>

definition patchedFetch :: "url_parser \<Rightarrow> (bytes \<Rightarrow> bytes) \<Rightarrow> capture_options \<Rightarrow> string list \<Rightarrow> scope \<Rightarrow> string \<Rightarrow> int \<Rightarrow> int
    \<Rightarrow> (fetch_input \<Rightarrow> capture_init option \<Rightarrow> js_error + fetch_response) \<Rightarrow> fetch_input \<Rightarrow> capture_init option \<Rightarrow> patched_fetch" where
  "patchedFetch parse_url sha opts skipHosts scope eid nowMs dur orig inp ini =
     (let through = \<lparr>pf_forwardedInit = ini, pf_result = orig inp ini, pf_sent = []\<rparr>
      in case currentEventId scope of
           None \<Rightarrow> through
         | Some causedBy \<Rightarrow>
             if causedBy = [] then through
             else (case fetch_target parse_url inp ini of
                None \<Rightarrow> \<lparr>pf_forwardedInit = ini, pf_result = Inl InvalidUrl, pf_sent = []\<rparr>
              | Some (u, method) \<Rightarrow>
                  if toLowerCase (url_hostname u) \<in> set (map toLowerCase skipHosts) then through
                  else
                    (let reqHeaders = mergedRequestHeaders inp ini;
                         bodyBuf = fetch_bodyBuf inp ini;
                         reqBuf = cb_push bodyBuf (CappedBuffer (buffer_cap opts));
                         ini' = forward_init bodyBuf ini
                     in case orig inp ini' of
                          Inl e \<Rightarrow> \<lparr>pf_forwardedInit = ini', pf_result = Inl e, pf_sent = []\<rparr>
                        | Inr response \<Rightarrow>
                            (let resBuf = cb_push (fres_body response) (CappedBuffer (buffer_cap opts));
                                 resRaw = responseHeadersToRecord (fres_headers response);
                                 reqFinal = finalize_with opts (stringHeader (dict_get reqHeaders ''content-type'')) reqBuf;
                                 resFinal = finalize_with opts (stringHeader (dict_get resRaw ''content-type'')) resBuf;
                                 reqHdr = redactHeaders reqHeaders (Some (header_deny opts));
                                 resHdr = redactHeaders resRaw (Some (header_deny opts))
                             in \<lparr>pf_forwardedInit = ini', pf_result = Inr response,
                                  pf_sent = [make_event eid (nowMs * 1000000) ''outbound.fetch''
                                    [(''host'', toLowerCase (url_host u)), (''scheme'', drop_colon (url_protocol u))]
                                    (red_applied reqHdr @ red_applied resHdr @ fin_redactions reqFinal @ fin_redactions resFinal)
                                    (OutboundPayload
                                      \<lparr>oe_target = targetFromHost (url_hostname u),
                                       oe_http =
                                         \<lparr>he_method = method, he_path = url_path u, he_httpVersion = ''HTTP/1.1'',
                                          he_headers = red_headers reqHdr, he_requestBody = fin_body reqFinal,
                                          he_status = fres_status response, he_responseHeaders = red_headers resHdr,
                                          he_responseBody = fin_body resFinal, he_durationNs = dur, he_sourceIp = [],
                                          he_userId = [], he_routeTemplate = []\<rparr>,
                                       oe_causedByEventId = causedBy, oe_responseHash = sha (fres_body response)\<rparr>)]\<rparr>))))"

text \<open>
  What a request sends for a body, by the Fetch standard: its bytes (not fixed here for a form, and unknown for other objects), and
  the content type that is implied when the caller sets none.
\<close>

definition wire_bytes :: "capture_body \<Rightarrow> bytes option" where
  "wire_bytes b = (case b of CbForm parts \<Rightarrow> None | CbOther \<Rightarrow> None | _ \<Rightarrow> Some (readRequestBody b))"

definition implied_type :: "capture_body \<Rightarrow> string option" where
  "implied_type b =
     (case b of
        CbString s \<Rightarrow> Some ''text/plain;charset=UTF-8''
      | CbParams ps \<Rightarrow> Some ''application/x-www-form-urlencoded;charset=UTF-8''
      | CbBlob bs type \<Rightarrow> (if type = [] then None else Some type)
      | CbForm parts \<Rightarrow> Some ''multipart/form-data''
      | _ \<Rightarrow> None)"

lemma forward_init_cases:
  assumes "ci_body i = Some b"
  shows "forward_init (fetch_bodyBuf inp (Some i)) (Some i) =
    Some (if readRequestBody b = [] then i else i\<lparr>ci_body := Some (CbBytes (readRequestBody b))\<rparr>)"
  using assms by (simp add: forward_init_def fetch_bodyBuf_def)


definition post_init :: "capture_body \<Rightarrow> capture_init" where
  "post_init b = \<lparr>ci_method = Some ''post'', ci_body = Some b, ci_headers = NoInitHeaders\<rparr>"


text \<open>A blob that is not empty is sent without its type.\<close>

theorem patchedFetch_drops_blob_type:
  assumes "currentEventId scope = Some ev" "ev \<noteq> []" "skip = []" "fetch_target parse_url inp (Some i) = Some target"
    and "ci_body i = Some (CbBlob bs type)" "bs \<noteq> []" "type \<noteq> []"
  shows "\<exists>i' b'. pf_forwardedInit (patchedFetch parse_url sha opts skip scope eid nowMs dur orig inp (Some i)) = Some i' \<and>
    ci_body i' = Some b' \<and> implied_type (CbBlob bs type) = Some type \<and> implied_type b' = None"
proof -
  have "forward_init (fetch_bodyBuf inp (Some i)) (Some i) = Some (i\<lparr>ci_body := Some (CbBytes bs)\<rparr>)"
    using forward_init_cases [OF assms(5), of inp] assms(6) by (simp add: readRequestBody_def)
  with assms show ?thesis
    by (auto simp: patchedFetch_def implied_type_def Let_def split: prod.splits sum.splits)
qed

text \<open>
  A form is not forwarded as a form: the request that is really sent carries the text the
  capture made of it, without the files, instead of the caller's multipart body.
\<close>

theorem patchedFetch_corrupts_forms:
  assumes "currentEventId scope = Some ev" "ev \<noteq> []" "skip = []"
    and "fetch_target parse_url inp (Some i) = Some target" "ci_body i = Some (CbForm ((k, v) # parts))"
  shows "\<exists>i'. pf_forwardedInit (patchedFetch parse_url sha opts skip scope eid nowMs dur orig inp (Some i)) = Some i' \<and>
    ci_body i' = Some (CbBytes (readRequestBody (CbForm ((k, v) # parts)))) \<and>
    pf_result (patchedFetch parse_url sha opts skip scope eid nowMs dur orig inp (Some i)) = orig inp (Some i')"
proof -
  have "readRequestBody (CbForm ((k, v) # parts)) \<noteq> []"
  proof -
    have "join_with ''&'' (map (\<lambda>(k, v). k @ ''='' @ (case v of Some s \<Rightarrow> s | None \<Rightarrow> ''[file]'')) ((k, v) # parts)) \<noteq> []"
      by (cases parts) auto
    then show ?thesis by (cases "join_with ''&'' (map (\<lambda>(k, v). k @ ''='' @ (case v of Some s \<Rightarrow> s | None \<Rightarrow> ''[file]'')) ((k, v) # parts))")
      (auto simp: readRequestBody_def utf8_encode_def)
  qed
  with assms(5) have "forward_init (fetch_bodyBuf inp (Some i)) (Some i) =
      Some (i\<lparr>ci_body := Some (CbBytes (readRequestBody (CbForm ((k, v) # parts))))\<rparr>)"
    by (simp add: forward_init_def fetch_bodyBuf_def)
  with assms(1-4) show ?thesis
    by (auto simp: patchedFetch_def Let_def split: prod.splits sum.splits)
qed

end
