(* ===== verification/Hermetic.thy ===== *)
theory Hermetic
  imports Intercept
begin

text \<open>
  Hermetic mode around the intercept layer: the cron registry and the killed scheduler
  (\<open>sdk-node/src/hermetic/cron-killer.ts\<close>), the two endpoints through which the engine fires
  registered jobs (\<open>invoke-server.ts\<close>, \<open>invoke-middleware.ts\<close>), and activation
  (\<open>hermetic/client.ts\<close>: environment, mock pack, install and uninstall order).

  \<open>JSON.parse\<close> of a request body and the base64 decoder are arguments, as are the jobs: a handler gets its
  arguments and the state of the application, and gives the message of the error it throws, or
  \<open>None\<close>, with the state it leaves, so that running a job twice is not the same as running it once.
\<close>

section \<open>The cron registry\<close>

datatype invoke_args = ArgsUndefined | ArgsJson json | ArgsRaw string

type_synonym 'w cron_handler = "invoke_args \<Rightarrow> 'w \<Rightarrow> string option \<times> 'w"
type_synonym 'w cron_registry = "'w cron_handler dict"

definition registerCronHandler :: "string \<Rightarrow> 'w cron_handler \<Rightarrow> 'w cron_registry \<Rightarrow> 'w cron_registry" where
  "registerCronHandler name fn reg = dict_set name fn reg"

definition cron_names :: "'w cron_registry \<Rightarrow> string list" where
  "cron_names reg = dict_keys reg"

text \<open>
  A call of \<open>schedule\<close>: the handler with its function name (\<open>None\<close> when it is not a function) and
  the \<open>name\<close> option. The state of the patch is the counter; \<open>nameFromArgs\<close> may be overridden.
\<close>

record 'w schedule_call =
  sc_handler :: "(string \<times> 'w cron_handler) option"
  sc_optName :: "string option"

record 'w cron_patch =
  cp_registry :: "'w cron_registry"
  cp_counter :: nat
  cp_nameFromArgs :: "('w schedule_call \<Rightarrow> string option) option"

definition cron_next :: "nat \<Rightarrow> string" where
  "cron_next n = ''cron_'' @ nat_to_string (Suc n)"

definition default_name :: "'w schedule_call \<Rightarrow> nat \<Rightarrow> string \<times> nat" where
  "default_name call n =
     (case sc_optName call of
        Some (c # cs) \<Rightarrow> (c # cs, n)
      | _ \<Rightarrow>
          (case sc_handler call of
             Some (fname, _) \<Rightarrow>
               if fname \<noteq> [] \<and> fname \<noteq> ''anonymous'' then (fname, n) else (cron_next n, Suc n)
           | None \<Rightarrow> (cron_next n, Suc n)))"

definition patchedSchedule :: "'w schedule_call \<Rightarrow> 'w cron_patch \<Rightarrow> 'w cron_patch" where
  "patchedSchedule call p =
     (let (name, n) =
        (case cp_nameFromArgs p of
           None \<Rightarrow> default_name call (cp_counter p)
         | Some f \<Rightarrow>
             (case f call of
                Some nm \<Rightarrow> (nm, cp_counter p)
              | None \<Rightarrow> (cron_next (cp_counter p), Suc (cp_counter p))));
          p = p\<lparr>cp_counter := n\<rparr>
      in case sc_handler call of
           Some (_, fn) \<Rightarrow> p\<lparr>cp_registry := registerCronHandler name fn (cp_registry p)\<rparr>
         | None \<Rightarrow> p)"

text \<open>What \<open>schedule\<close> returns: a task that can be started, stopped and triggered without any job running.\<close>

datatype task_call = TaskStart | TaskStop | TaskGetStatus | TaskNow

datatype task_answer = TaskNothing | TaskStatus string | TaskResolved

fun stubTask :: "task_call \<Rightarrow> task_answer" where
  "stubTask TaskStart = TaskNothing"
| "stubTask TaskStop = TaskNothing"
| "stubTask TaskGetStatus = TaskStatus ''stopped''"
| "stubTask TaskNow = TaskResolved"

section \<open>Invoking a job\<close>

definition INVOKE_PATH :: string where
  "INVOKE_PATH = ''/__clearvoiance/cron/invoke''"

record invoke_request =
  inv_method :: string
  inv_url :: "string option"
  inv_authorization :: "string option"
  inv_raw :: string

datatype invoke_reply =
    Unauthorized
  | NotFound
  | NameRequired
  | UnknownHandler string
  | MalformedBody
  | HandlerOk
  | HandlerFailed string
  | NextHandler
  | UncaughtTypeError

fun reply_status :: "invoke_reply \<Rightarrow> nat option" where
  "reply_status Unauthorized = Some 401"
| "reply_status NotFound = Some 404"
| "reply_status NameRequired = Some 400"
| "reply_status (UnknownHandler n) = Some 404"
| "reply_status MalformedBody = Some 400"
| "reply_status HandlerOk = Some 200"
| "reply_status (HandlerFailed m) = Some 500"
| "reply_status NextHandler = None"
| "reply_status UncaughtTypeError = None"

text \<open>\<open>String(v)\<close> of a JSON value.\<close>

fun js_String :: "json \<Rightarrow> string" where
  "js_String JNull = ''null''"
| "js_String (JBool b) = (if b then ''true'' else ''false'')"
| "js_String (JNum n) = n"
| "js_String (JStr s) = s"
| "js_String (JArr vs) = join_with '','' (map (\<lambda>v. if v = JNull then [] else js_String v) vs)"
| "js_String (JObj kvs) = ''[object Object]''"

text \<open>A property of a parsed body; on \<open>null\<close> the access throws.\<close>

fun json_field :: "json \<Rightarrow> string \<Rightarrow> json option" where
  "json_field (JObj kvs) k = dict_get kvs k"
| "json_field v k = None"

definition body_name :: "json \<Rightarrow> string" where
  "body_name body = (case json_field body ''name'' of None \<Rightarrow> [] | Some JNull \<Rightarrow> [] | Some v \<Rightarrow> js_String v)"

definition decodeArgs :: "(string \<Rightarrow> json option) \<Rightarrow> (string \<Rightarrow> string) \<Rightarrow> json \<Rightarrow> invoke_args" where
  "decodeArgs parse b64 body =
     (case json_field body ''args_base64'' of
        Some (JStr (c # cs)) \<Rightarrow>
          (let raw = b64 (c # cs) in case parse raw of Some v \<Rightarrow> ArgsJson v | None \<Rightarrow> ArgsRaw raw)
      | _ \<Rightarrow> (case json_field body ''args'' of None \<Rightarrow> ArgsUndefined | Some v \<Rightarrow> ArgsJson v))"

definition bearer_ok :: "string option \<Rightarrow> string option \<Rightarrow> bool" where
  "bearer_ok token auth \<longleftrightarrow>
     (case token of None \<Rightarrow> True | Some t \<Rightarrow> t = [] \<or> auth = Some (''Bearer '' @ t))"

text \<open>
  The part the two endpoints share: find the job, run it in the application's state. The second component is what
  \<open>onError\<close> is told, the third the state of the application afterwards.
\<close>

definition run_named :: "(string \<Rightarrow> json option) \<Rightarrow> (string \<Rightarrow> string) \<Rightarrow> 'w cron_registry \<Rightarrow> json \<Rightarrow> 'w
    \<Rightarrow> invoke_reply \<times> string list \<times> 'w" where
  "run_named parse b64 reg body w =
     (let name = body_name body
      in if name = [] then (NameRequired, [], w)
         else (case dict_get reg name of
                 None \<Rightarrow> (UnknownHandler name, [], w)
               | Some handler \<Rightarrow>
                   (let args = decodeArgs parse b64 body
                    in case handler args w of
                         (None, w) \<Rightarrow> (HandlerOk, [], w)
                       | (Some msg, w) \<Rightarrow> (HandlerFailed msg, [msg], w))))"

definition parse_body :: "(string \<Rightarrow> json option) \<Rightarrow> string \<Rightarrow> json option" where
  "parse_body parse raw = (if raw = [] then Some (JObj []) else parse raw)"

text \<open>The invoke server: everything after the routing is inside one \<open>try\<close>.\<close>

definition invokeServer :: "string option \<Rightarrow> (string \<Rightarrow> json option) \<Rightarrow> (string \<Rightarrow> string) \<Rightarrow> 'w cron_registry
    \<Rightarrow> invoke_request \<Rightarrow> 'w \<Rightarrow> invoke_reply \<times> string list \<times> 'w" where
  "invokeServer token parse b64 reg req w =
     (if \<not> bearer_ok token (inv_authorization req) then (Unauthorized, [], w)
      else if inv_method req \<noteq> ''POST'' \<or> inv_url req \<noteq> Some INVOKE_PATH then (NotFound, [], w)
      else (case parse_body parse (inv_raw req) of
              None \<Rightarrow> (MalformedBody, [], w)
            | Some body \<Rightarrow>
                if body = JNull then (MalformedBody, [], w) else run_named parse b64 reg body w))"

definition isInvokePath :: "string option \<Rightarrow> bool" where
  "isInvokePath url =
     (case url of None \<Rightarrow> False | Some u \<Rightarrow> u \<noteq> [] \<and> hd (split_on (CHR ''?'') u) = INVOKE_PATH)"

text \<open>The middleware: only the parser is inside a \<open>try\<close>.\<close>

definition invokeMiddleware :: "string option \<Rightarrow> (string \<Rightarrow> json option) \<Rightarrow> (string \<Rightarrow> string) \<Rightarrow> 'w cron_registry
    \<Rightarrow> invoke_request \<Rightarrow> 'w \<Rightarrow> invoke_reply \<times> string list \<times> 'w" where
  "invokeMiddleware token parse b64 reg req w =
     (if inv_method req \<noteq> ''POST'' \<or> \<not> isInvokePath (inv_url req) then (NextHandler, [], w)
      else if \<not> bearer_ok token (inv_authorization req) then (Unauthorized, [], w)
      else (case parse_body parse (inv_raw req) of
              None \<Rightarrow> (MalformedBody, [], w)
            | Some body \<Rightarrow>
                if body = JNull then (UncaughtTypeError, [], w) else run_named parse b64 reg body w))"

text \<open>
  What a request must have for a job to run, said of the request alone: the token, where one is configured; the method and the path;
  and a body that names a registered job.
\<close>

definition carries_token :: "string option \<Rightarrow> invoke_request \<Rightarrow> bool" where
  "carries_token token req \<longleftrightarrow> (\<forall>t. token = Some t \<longrightarrow> t \<noteq> [] \<longrightarrow> inv_authorization req = Some (''Bearer '' @ t))"

definition asks_for :: "(string \<Rightarrow> json option) \<Rightarrow> (string \<Rightarrow> string) \<Rightarrow> 'w cron_registry \<Rightarrow> invoke_request
    \<Rightarrow> 'w cron_handler \<Rightarrow> invoke_args \<Rightarrow> bool" where
  "asks_for parse b64 reg req job args \<longleftrightarrow>
     (\<exists>body. parse_body parse (inv_raw req) = Some body \<and> body \<noteq> JNull \<and> body_name body \<noteq> [] \<and>
        dict_get reg (body_name body) = Some job \<and> args = decodeArgs parse b64 body)"

definition nameless :: "(string \<Rightarrow> json option) \<Rightarrow> invoke_request \<Rightarrow> bool" where
  "nameless parse req \<longleftrightarrow>
     (\<forall>body. parse_body parse (inv_raw req) = Some body \<longrightarrow> body \<noteq> JNull \<longrightarrow> body_name body = [])"

lemma bearer_ok_iff: "bearer_ok token (inv_authorization req) \<longleftrightarrow> carries_token token req"
  by (auto simp: bearer_ok_def carries_token_def split: option.splits)

lemma run_named_asked:
  assumes "asks_for parse b64 reg req job args" "parse_body parse (inv_raw req) = Some body"
  shows "body \<noteq> JNull \<and> run_named parse b64 reg body w =
    (case job args w of (None, w') \<Rightarrow> (HandlerOk, [], w') | (Some m, w') \<Rightarrow> (HandlerFailed m, [m], w'))"
  using assms by (auto simp: asks_for_def run_named_def)

lemma run_named_not_asked:
  assumes "\<forall>job args. \<not> asks_for parse b64 reg req job args" "parse_body parse (inv_raw req) = Some body" "body \<noteq> JNull"
  shows "snd (run_named parse b64 reg body w) = ([], w) \<and>
    reply_status (fst (run_named parse b64 reg body w)) = Some (if nameless parse req then 400 else 404)"
  using assms by (cases "dict_get reg (body_name body)") (auto simp: asks_for_def run_named_def nameless_def Let_def)

lemma isInvokePath_exact: "isInvokePath (Some INVOKE_PATH)"
  by code_simp

definition clean_request :: invoke_request where
  "clean_request = \<lparr>inv_method = ''POST'', inv_url = Some INVOKE_PATH, inv_authorization = Some ''Bearer tok'', inv_raw = ''x''\<rparr>"

definition clean_parse :: "string \<Rightarrow> json option" where
  "clean_parse s = (if s = ''x'' then Some (JObj [(''name'', JStr ''clean'')]) else if s = ''n'' then Some JNull else None)"

text \<open>A job that counts its runs and fails on the second one.\<close>

definition clean_registry :: "nat cron_registry" where
  "clean_registry = [(''clean'', \<lambda>args n. (if n = 1 then Some ''again'' else None, Suc n))]"

text \<open>
  C22. The invoke endpoints, the server of its own and the middleware. A POST to the invoke path that carries the token (where a
  token is configured) and whose body names a registered job runs that job, once and with the
  decoded arguments; the status tells whether it threw, and then \<open>onError\<close> is told. Any other request runs nothing
  and leaves the application as it was, and the server says why: 401 without the token,
  404 off the path or for an unknown name, 400 for a body that cannot be read or has no name. The middleware hands what is not a
  POST to the path on to the application.
\<close>

theorem invoke_runs_registered_job:
  "(carries_token token req \<and> inv_method req = ''POST'' \<and> inv_url req = Some INVOKE_PATH \<and> asks_for parse b64 reg req job args \<longrightarrow>
      invokeServer token parse b64 reg req w =
        (case job args w of (None, w') \<Rightarrow> (HandlerOk, [], w') | (Some m, w') \<Rightarrow> (HandlerFailed m, [m], w'))) \<and>
   (\<not> (carries_token token req \<and> inv_method req = ''POST'' \<and> inv_url req = Some INVOKE_PATH \<and>
        (\<exists>job args. asks_for parse b64 reg req job args)) \<longrightarrow>
      snd (invokeServer token parse b64 reg req w) = ([], w) \<and>
      reply_status (fst (invokeServer token parse b64 reg req w)) =
        Some (if \<not> carries_token token req then 401
              else if inv_method req \<noteq> ''POST'' \<or> inv_url req \<noteq> Some INVOKE_PATH then 404
              else if nameless parse req then 400 else 404)) \<and>
   (carries_token token req \<and> inv_method req = ''POST'' \<and> isInvokePath (inv_url req) \<and> asks_for parse b64 reg req job args \<longrightarrow>
      invokeMiddleware token parse b64 reg req w =
        (case job args w of (None, w') \<Rightarrow> (HandlerOk, [], w') | (Some m, w') \<Rightarrow> (HandlerFailed m, [m], w'))) \<and>
   (\<not> (carries_token token req \<and> inv_method req = ''POST'' \<and> isInvokePath (inv_url req) \<and>
        (\<exists>job args. asks_for parse b64 reg req job args)) \<longrightarrow>
      snd (invokeMiddleware token parse b64 reg req w) = ([], w) \<and>
      (fst (invokeMiddleware token parse b64 reg req w) = NextHandler \<longleftrightarrow>
         \<not> (inv_method req = ''POST'' \<and> isInvokePath (inv_url req))))"
proof (cases "parse_body parse (inv_raw req)")
  case None
  then have "nameless parse req" "\<not> asks_for parse b64 reg req j a" for j a by (simp_all add: nameless_def asks_for_def)
  with None show ?thesis by (simp add: invokeServer_def invokeMiddleware_def bearer_ok_iff)
next
  case (Some body)
  show ?thesis
  proof (cases "\<exists>job args. asks_for parse b64 reg req job args")
    case True
    then have "body \<noteq> JNull" using Some by (auto simp: asks_for_def)
    with True Some show ?thesis
      using run_named_asked [OF _ Some, of b64 reg job args w]
      by (auto simp: invokeServer_def invokeMiddleware_def bearer_ok_iff)
  next
    case False
    note not_asked = run_named_not_asked [OF _ Some, of b64 reg w]
    have "nameless parse req" if "body = JNull" using that Some by (simp add: nameless_def)
    moreover have "fst (run_named parse b64 reg body w) \<noteq> NextHandler"
      by (auto simp: run_named_def Let_def split: option.splits prod.splits)
    ultimately show ?thesis
      using False Some not_asked by (auto simp: invokeServer_def invokeMiddleware_def bearer_ok_iff)
  qed
qed

theorem invoke_runs_registered_job_witness:
  "invokeServer (Some ''tok'') clean_parse id clean_registry clean_request 1 = (HandlerFailed ''again'', [''again''], 2) \<and>
   snd (invokeServer (Some ''other'') clean_parse id clean_registry clean_request 1) = ([], 1) \<and>
   reply_status (fst (invokeServer (Some ''other'') clean_parse id clean_registry clean_request 1)) = Some 401"
proof -
  have asks: "asks_for clean_parse id clean_registry clean_request (snd (hd clean_registry)) ArgsUndefined"
    by (auto simp: asks_for_def clean_request_def parse_body_def clean_parse_def body_name_def clean_registry_def decodeArgs_def)
  have "carries_token (Some ''tok'') clean_request" "\<not> carries_token (Some ''other'') clean_request"
    "inv_method clean_request = ''POST''" "inv_url clean_request = Some INVOKE_PATH"
    by (simp_all add: carries_token_def clean_request_def)
  with asks invoke_runs_registered_job [of "Some ''tok''" clean_request clean_parse id clean_registry "snd (hd clean_registry)" ArgsUndefined 1]
    invoke_runs_registered_job [of "Some ''other''" clean_request clean_parse id clean_registry "snd (hd clean_registry)" ArgsUndefined 1]
  show ?thesis by (simp add: clean_registry_def)
qed

text \<open>
  The two endpoints agree on every request to the exact path, except for a body that is the JSON
  value \<open>null\<close>: there the server answers 400 and the middleware throws out of its \<open>end\<close> listener.
\<close>

theorem invoke_endpoints_agree:
  assumes "inv_method req = ''POST''" "inv_url req = Some INVOKE_PATH" "bearer_ok token (inv_authorization req)"
  shows "(parse_body parse (inv_raw req) \<noteq> Some JNull \<longrightarrow>
      invokeServer token parse b64 reg req w = invokeMiddleware token parse b64 reg req w) \<and>
    (parse_body parse (inv_raw req) = Some JNull \<longrightarrow>
      fst (invokeServer token parse b64 reg req w) = MalformedBody \<and>
      fst (invokeMiddleware token parse b64 reg req w) = UncaughtTypeError)"
  using assms isInvokePath_exact
  by (auto simp: invokeServer_def invokeMiddleware_def split: option.splits)

theorem invoke_endpoints_agree_witness:
  "invokeServer None clean_parse id clean_registry clean_request 0 = invokeMiddleware None clean_parse id clean_registry clean_request 0 \<and>
   fst (invokeMiddleware None clean_parse id clean_registry (clean_request\<lparr>inv_raw := ''n''\<rparr>) 0) = UncaughtTypeError"
  using invoke_endpoints_agree [of clean_request None clean_parse id clean_registry 0]
    invoke_endpoints_agree [of "clean_request\<lparr>inv_raw := ''n''\<rparr>" None clean_parse id clean_registry 0]
  by (simp add: clean_request_def bearer_ok_def parse_body_def clean_parse_def)

subsection \<open>Names of killed jobs\<close>

text \<open>
  No scheduled job fires by itself, and each stays reachable: after \<open>schedule\<close> is called, the
  handler is in the registry under the name given by the options, else by the function, else under a
  fresh \<open>cron_n\<close>; other registrations are untouched unless they have that very name.
\<close>

theorem patchedSchedule_registers:
  assumes "sc_handler call = Some (fname, fn)" "cp_nameFromArgs p = None"
  shows "(let p' = patchedSchedule call p;
              name = (case sc_optName call of
                        Some (c # cs) \<Rightarrow> c # cs
                      | _ \<Rightarrow> if fname \<noteq> [] \<and> fname \<noteq> ''anonymous'' then fname
                             else ''cron_'' @ nat_to_string (Suc (cp_counter p)))
          in dict_get (cp_registry p') name = Some fn \<and>
             (\<forall>other. other \<noteq> name \<longrightarrow> dict_get (cp_registry p') other = dict_get (cp_registry p) other))"
proof -
  let ?name = "case sc_optName call of
      Some (c # cs) \<Rightarrow> c # cs
    | _ \<Rightarrow> if fname \<noteq> [] \<and> fname \<noteq> ''anonymous'' then fname
           else ''cron_'' @ nat_to_string (Suc (cp_counter p))"
  have "fst (default_name call (cp_counter p)) = ?name"
    using assms(1) by (auto simp: default_name_def cron_next_def split: option.splits list.splits)
  then obtain n where "default_name call (cp_counter p) = (?name, n)" by (metis prod.collapse)
  with assms have "patchedSchedule call p =
      p\<lparr>cp_counter := n, cp_registry := registerCronHandler ?name fn (cp_registry p)\<rparr>"
    by (simp add: patchedSchedule_def)
  then show ?thesis unfolding Let_def by (simp only: registerCronHandler_def) simp
qed

theorem patchedSchedule_registers_witness:
  "dict_get (cp_registry (patchedSchedule \<lparr>sc_handler = Some (''tidy'', \<lambda>a n :: nat. (None, n)), sc_optName = None\<rparr>
     \<lparr>cp_registry = [], cp_counter = 0, cp_nameFromArgs = None\<rparr>)) ''tidy'' = Some (\<lambda>a n :: nat. (None, n))"
  using patchedSchedule_registers
    [of "\<lparr>sc_handler = Some (''tidy'', \<lambda>a n :: nat. (None, n)), sc_optName = None\<rparr>" "''tidy''" "\<lambda>a n :: nat. (None, n)"
      "\<lparr>cp_registry = [], cp_counter = 0, cp_nameFromArgs = None\<rparr>"]
  by (simp add: Let_def)

text \<open>Scheduling a list of anonymous jobs: they never collide.\<close>

lemma cron_next_inject: "cron_next a = cron_next b \<longleftrightarrow> a = b"
proof
  assume "cron_next a = cron_next b"
  then have "string_to_nat (nat_to_string (Suc a)) = string_to_nat (nat_to_string (Suc b))"
    by (simp only: cron_next_def append_same_eq same_append_eq)
  then show "a = b" by simp
qed simp

section \<open>Mock packs\<close>

record pb_mock_entry =
  pb_causedByEventId :: string
  pb_signature :: string
  pb_status :: int
  pb_responseHeaders :: "string list option dict option"
  pb_responseBody :: bytes
  pb_responseContentType :: string

definition mapHeaderValues :: "string list option dict option \<Rightarrow> string list dict" where
  "mapHeaderValues h =
     (case h of
        None \<Rightarrow> []
      | Some hs \<Rightarrow> map (\<lambda>(k, v). (k, case v of None \<Rightarrow> [] | Some vs \<Rightarrow> vs)) hs)"

definition mock_of_pb :: "pb_mock_entry \<Rightarrow> mock_entry" where
  "mock_of_pb e =
     \<lparr>mock_eventId = pb_causedByEventId e, mock_signature = pb_signature e, mock_status = pb_status e,
      mock_responseHeaders = mapHeaderValues (pb_responseHeaders e), mock_responseBody = pb_responseBody e,
      mock_responseContentType = pb_responseContentType e\<rparr>"

datatype pack_event = PackData pb_mock_entry | PackEnd | PackError string | PackTimer

datatype activation_error = PackTimedOut nat | PackFailed string | MissingEnv string | InvokeServerFailed string

text \<open>
  \<open>fetchMockPack\<close>: the events of the stream and the timer in the order they happen, up to the first
  one that settles the promise; \<open>None\<close> while none has.
\<close>

fun fetchMockPack :: "nat \<Rightarrow> pack_event list \<Rightarrow> mock_store \<Rightarrow> (activation_error + mock_store) option" where
  "fetchMockPack timeoutMs [] store = None"
| "fetchMockPack timeoutMs (PackData e # evs) store = fetchMockPack timeoutMs evs (store_add (mock_of_pb e) store)"
| "fetchMockPack timeoutMs (PackEnd # evs) store = Some (Inr store)"
| "fetchMockPack timeoutMs (PackError m # evs) store = Some (Inl (PackFailed m))"
| "fetchMockPack timeoutMs (PackTimer # evs) store = Some (Inl (PackTimedOut timeoutMs))"

lemma fetchMockPack_data: "fetchMockPack t (map PackData es @ evs) s = fetchMockPack t evs (fold store_add (map mock_of_pb es) s)"
  by (induction es arbitrary: s) auto

text \<open>
  C20. Loading is all or nothing: the store is handed out only when the stream ended, and it then
  holds, per event and signature, exactly the responses that were sent for it in the order they
  were sent; a timeout or an error at any point gives no store.
\<close>

theorem fetchMockPack_loads:
  "fetchMockPack t (map PackData es @ PackEnd # evs) MockStore = Some (Inr (fold store_add (map mock_of_pb es) MockStore)) \<and>
   store_content (fold store_add (map mock_of_pb es) MockStore) k = filter (\<lambda>e. entry_key e = k) (map mock_of_pb es) \<and>
   store_size (fold store_add (map mock_of_pb es) MockStore) = length es \<and>
   fetchMockPack t (map PackData es @ PackTimer # evs) MockStore = Some (Inl (PackTimedOut t)) \<and>
   fetchMockPack t (map PackData es @ PackError m # evs) MockStore = Some (Inl (PackFailed m))"
proof -
  have "store_content MockStore k = []" by (simp add: store_content_def MockStore_def)
  then show ?thesis
    by (simp add: fetchMockPack_data ms.content_fold store_size_fold MockStore_def)
qed

section \<open>Activation\<close>

record invoke_options =
  io_port :: "nat option"
  io_host :: "string option"
  io_token :: "string option"

record activate_options =
  ao_engineUrl :: string
  ao_apiKey :: string
  ao_sourceSessionId :: string
  ao_policy :: "policy option"
  ao_killCron :: "bool option"
  ao_recordUnmocked :: bool
  ao_invokeServer :: "invoke_options option"
  ao_fetchTimeoutMs :: "nat option"

definition required :: "string dict \<Rightarrow> string \<Rightarrow> activation_error + string" where
  "required env name =
     (case dict_get env name of
        None \<Rightarrow> Inl (MissingEnv name)
      | Some v \<Rightarrow> if v = [] then Inl (MissingEnv name) else Inr v)"

text \<open>\<open>Number(s)\<close> on decimal digits; any other text is not a port (NaN, which is false).\<close>

definition js_Number :: "string \<Rightarrow> nat" where
  "js_Number s = (if list_all is_digit s then string_to_nat s else 0)"

text \<open>The policy is used only in the comparison with \<open>"strict"\<close>, so any other text means loose.\<close>

definition policy_of :: "string option \<Rightarrow> policy" where
  "policy_of s = (case s of None \<Rightarrow> Strict | Some p \<Rightarrow> if p = ''strict'' then Strict else Loose)"

definition maybeActivateHermetic :: "string dict \<Rightarrow> activation_error + activate_options option" where
  "maybeActivateHermetic env =
     (if dict_get env ''CLEARVOIANCE_HERMETIC'' \<noteq> Some ''true'' then Inr None
      else case required env ''CLEARVOIANCE_ENGINE_URL'' of
             Inl e \<Rightarrow> Inl e
           | Inr engineUrl \<Rightarrow>
      (case required env ''CLEARVOIANCE_API_KEY'' of
             Inl e \<Rightarrow> Inl e
           | Inr apiKey \<Rightarrow>
      (case required env ''CLEARVOIANCE_SOURCE_SESSION_ID'' of
             Inl e \<Rightarrow> Inl e
           | Inr sid \<Rightarrow>
               (let port = js_Number (case dict_get env ''CLEARVOIANCE_HERMETIC_INVOKE_PORT'' of None \<Rightarrow> ''0'' | Some p \<Rightarrow> p)
                in Inr (Some \<lparr>ao_engineUrl = engineUrl, ao_apiKey = apiKey, ao_sourceSessionId = sid,
                     ao_policy = Some (policy_of (dict_get env ''CLEARVOIANCE_HERMETIC_POLICY'')),
                     ao_killCron = Some (dict_get env ''CLEARVOIANCE_HERMETIC_KILL_CRON'' \<noteq> Some ''false''),
                     ao_recordUnmocked = (dict_get env ''CLEARVOIANCE_HERMETIC_RECORD_UNMOCKED'' = Some ''true''),
                     ao_invokeServer = (if port \<noteq> 0
                        then Some \<lparr>io_port = Some port, io_host = None,
                               io_token = dict_get env ''CLEARVOIANCE_HERMETIC_INVOKE_TOKEN''\<rparr>
                        else None),
                     ao_fetchTimeoutMs = None\<rparr>)))))"

text \<open>
  The process that is patched, with the actions taken on it in order and the rejections nobody handles.
  \<open>ps_nodeCron\<close> says whether \<open>node-cron\<close> can be loaded.
\<close>

datatype action = PatchCron | UndoCron | StartInvoke nat | StopInvoke nat | InstallShims | RestoreShims

record process =
  ps_table :: patch_table
  ps_nodeCron :: bool
  ps_cronPatched :: bool
  ps_invokePorts :: "nat list"
  ps_log :: "action list"
  ps_unhandled :: "string list"

datatype cleanup = CleanCron bool | CleanInvoke nat | CleanNothing

record full_handle =
  fh_invokePort :: "nat option"
  fh_originals :: patch_table
  fh_cleanups :: "cleanup list"

definition patch_cron :: "process \<Rightarrow> process \<times> cleanup" where
  "patch_cron ps =
     (if \<not> ps_nodeCron ps then (ps, CleanNothing)
      else (ps\<lparr>ps_cronPatched := True, ps_log := ps_log ps @ [PatchCron]\<rparr>, CleanCron (ps_cronPatched ps)))"

text \<open>
  Starting and stopping the invoke server: \<open>listen\<close> binds the port (an error, or the port it got), and the promise of
  \<open>stop\<close> is rejected when the server is not running.
\<close>

definition startInvokeServer :: "(nat \<Rightarrow> string + nat) \<Rightarrow> invoke_options \<Rightarrow> process \<Rightarrow> (string + nat) \<times> process" where
  "startInvokeServer listen io ps =
     (case listen (case io_port io of None \<Rightarrow> 7777 | Some p \<Rightarrow> p) of
        Inl m \<Rightarrow> (Inl m, ps)
      | Inr port \<Rightarrow>
          (Inr port, ps\<lparr>ps_invokePorts := ps_invokePorts ps @ [port], ps_log := ps_log ps @ [StartInvoke port]\<rparr>))"

definition stopInvokeServer :: "nat \<Rightarrow> process \<Rightarrow> (string + unit) \<times> process" where
  "stopInvokeServer port ps =
     (let ps = ps\<lparr>ps_log := ps_log ps @ [StopInvoke port]\<rparr>
      in if port \<in> set (ps_invokePorts ps)
         then (Inr (), ps\<lparr>ps_invokePorts := remove1 port (ps_invokePorts ps)\<rparr>)
         else (Inl ''ERR_SERVER_NOT_RUNNING'', ps))"

definition activateHermetic :: "nat \<Rightarrow> (nat \<Rightarrow> string + nat) \<Rightarrow> activate_options \<Rightarrow> pack_event list \<Rightarrow> process
    \<Rightarrow> ((activation_error + mock_store \<times> full_handle) option) \<times> process" where
  "activateHermetic shim listen opts pack ps =
     (case fetchMockPack (case ao_fetchTimeoutMs opts of None \<Rightarrow> 30000 | Some t \<Rightarrow> t) pack MockStore of
        None \<Rightarrow> (None, ps)
      | Some (Inl e) \<Rightarrow> (Some (Inl e), ps)
      | Some (Inr store) \<Rightarrow>
          (let (ps, cleanups) =
             (if ao_killCron opts \<noteq> Some False then (case patch_cron ps of (ps, c) \<Rightarrow> (ps, [c])) else (ps, []));
               finish = (\<lambda>ps cleanups port.
                 (case installHermetic shim (ps_table ps) of
                    (t, originals) \<Rightarrow>
                      (Some (Inr (store, \<lparr>fh_invokePort = port, fh_originals = originals, fh_cleanups = cleanups\<rparr>)),
                       ps\<lparr>ps_table := t, ps_log := ps_log ps @ [InstallShims]\<rparr>)))
           in case ao_invokeServer opts of
                None \<Rightarrow> finish ps cleanups None
              | Some io \<Rightarrow>
                  (case startInvokeServer listen io ps of
                     (Inl m, ps) \<Rightarrow> (Some (Inl (InvokeServerFailed m)), ps)
                   | (Inr port, ps) \<Rightarrow> finish ps (cleanups @ [CleanInvoke port]) (Some port))))"

text \<open>A cleanup is called with \<open>void\<close>: nobody handles the promise of \<open>stop\<close>.\<close>

fun run_cleanup :: "cleanup \<Rightarrow> process \<Rightarrow> process" where
  "run_cleanup (CleanCron before) ps = ps\<lparr>ps_cronPatched := before, ps_log := ps_log ps @ [UndoCron]\<rparr>"
| "run_cleanup CleanNothing ps = ps"
| "run_cleanup (CleanInvoke port) ps =
     (case stopInvokeServer port ps of
        (Inr _, ps) \<Rightarrow> ps
      | (Inl m, ps) \<Rightarrow> ps\<lparr>ps_unhandled := ps_unhandled ps @ [m]\<rparr>)"

definition uninstall_full :: "full_handle \<Rightarrow> process \<Rightarrow> process" where
  "uninstall_full h ps =
     fold run_cleanup (rev (fh_cleanups h))
       (ps\<lparr>ps_table := uninstall (fh_originals h) (ps_table ps), ps_log := ps_log ps @ [RestoreShims]\<rparr>)"

text \<open>\<open>cleanups.reverse()\<close> reverses the list of the handle in place, for the next call.\<close>

definition uninstalled_handle :: "full_handle \<Rightarrow> full_handle" where
  "uninstalled_handle h = h\<lparr>fh_cleanups := rev (fh_cleanups h)\<rparr>"

text \<open>The callback wired into the intercept: the log request is made outside every event scope.\<close>

definition postUnmocked :: "activate_options \<Rightarrow> request_options" where
  "postUnmocked opts =
     (case split_on (CHR '':'') (ao_engineUrl opts) of
        host # rest \<Rightarrow>
          no_options\<lparr>opt_host := Some host,
            opt_port := Some (case rest of port # _ \<Rightarrow> if port = [] then ''80'' else port | [] \<Rightarrow> ''80''),
            opt_path := Some ''/hermetic/unmocked'', opt_method := Some ''POST''\<rparr>)"

definition onUnmocked :: "hermetic_env \<Rightarrow> activate_options \<Rightarrow> shim_result option" where
  "onUnmocked env opts =
     (if ao_recordUnmocked opts
      then Some (runOutsideEvent (\<lambda>scope. hermeticRequest env ''http:'' scope [ArgOptions (postUnmocked opts)]))
      else None)"

text \<open>
  C21. Uninstalling what an activation installed gives back the process as it was: the five
  functions, the scheduler and the set of listening ports, with no rejection left unhandled.
\<close>

theorem activate_uninstall:
  assumes "activateHermetic shim listen opts pack ps = (Some (Inr (store, h)), ps')"
    and "\<forall>p r. listen p = Inr r \<longrightarrow> r \<notin> set (ps_invokePorts ps)"
  shows "(let ps'' = uninstall_full h ps'
          in ps_table ps'' = ps_table ps \<and> ps_cronPatched ps'' = ps_cronPatched ps \<and>
             ps_invokePorts ps'' = ps_invokePorts ps \<and> ps_unhandled ps'' = ps_unhandled ps)"
proof -
  obtain st where pack: "fetchMockPack (case ao_fetchTimeoutMs opts of None \<Rightarrow> 30000 | Some t \<Rightarrow> t) pack MockStore = Some (Inr st)"
    using assms(1) by (auto simp: activateHermetic_def split: option.splits sum.splits)
  show ?thesis
  proof (cases "ao_invokeServer opts")
    case None
    with assms(1) pack show ?thesis
      by (cases "ao_killCron opts = Some False"; cases "ps_nodeCron ps")
        (auto simp: activateHermetic_def patch_cron_def installHermetic_def uninstall_full_def uninstall_def)
  next
    case (Some io)
    define port where "port = (case io_port io of None \<Rightarrow> 7777 | Some p \<Rightarrow> p)"
    obtain r where l: "listen port = Inr r"
      using assms(1) pack Some
      by (cases "listen port") (auto simp: activateHermetic_def startInvokeServer_def patch_cron_def port_def Let_def split: if_splits)
    with assms(2) have "remove1 r (ps_invokePorts ps @ [r]) = ps_invokePorts ps" by (simp add: remove1_append)
    with assms(1) pack Some l show ?thesis
      by (cases "ao_killCron opts = Some False"; cases "ps_nodeCron ps")
        (auto simp: activateHermetic_def startInvokeServer_def stopInvokeServer_def patch_cron_def installHermetic_def
          uninstall_full_def uninstall_def Let_def port_def [symmetric])
  qed
qed

definition plain_activation :: activate_options where
  "plain_activation = \<lparr>ao_engineUrl = ''e:9100'', ao_apiKey = ''k'', ao_sourceSessionId = ''s'', ao_policy = None,
     ao_killCron = None, ao_recordUnmocked = True,
     ao_invokeServer = Some \<lparr>io_port = None, io_host = None, io_token = None\<rparr>, ao_fetchTimeoutMs = None\<rparr>"

definition fresh_process :: process where
  "fresh_process = \<lparr>ps_table = \<lparr>fn_httpRequest = Native 0, fn_httpsRequest = Native 1, fn_httpGet = Native 2,
       fn_httpsGet = Native 3, fn_fetch = Native 4\<rparr>,
     ps_nodeCron = True, ps_cronPatched = False, ps_invokePorts = [80], ps_log = [], ps_unhandled = []\<rparr>"

theorem activate_uninstall_witness:
  "\<exists>store h ps'. activateHermetic 1 (\<lambda>p. Inr 7777) plain_activation [PackEnd] fresh_process = (Some (Inr (store, h)), ps') \<and>
     ps_cronPatched ps' \<and> ps_invokePorts (uninstall_full h ps') = [80] \<and> \<not> ps_cronPatched (uninstall_full h ps')"
proof -
  obtain store h ps' where run:
    "activateHermetic 1 (\<lambda>p. Inr 7777) plain_activation [PackEnd] fresh_process = (Some (Inr (store, h)), ps')"
    and p: "ps_cronPatched ps'"
    by (simp add: activateHermetic_def startInvokeServer_def plain_activation_def patch_cron_def installHermetic_def fresh_process_def)
  show ?thesis using activate_uninstall [OF run] run p by (auto simp: Let_def fresh_process_def)
qed

text \<open>
  The order of the teardown is the shims, then the invoke server, then the scheduler.
\<close>

theorem uninstall_order:
  assumes "activateHermetic shim listen opts pack ps = (Some (Inr (store, h)), ps')"
    and "ao_killCron opts \<noteq> Some False" "ps_nodeCron ps" "ao_invokeServer opts = Some io"
  shows "\<exists>port. fh_invokePort h = Some port \<and>
    ps_log (uninstall_full h ps') = ps_log ps' @ [RestoreShims, StopInvoke port, UndoCron]"
  using assms
  by (auto simp: activateHermetic_def startInvokeServer_def stopInvokeServer_def patch_cron_def installHermetic_def
      uninstall_full_def Let_def split: option.splits sum.splits)

text \<open>
  Uninstalling a second time stops a server that is not running any more: its rejected promise is handled by nobody
  (a Node process ends on such a rejection).
\<close>

lemma uninstall_twice_unhandled:
  assumes "activateHermetic shim listen opts pack ps = (Some (Inr (store, h)), ps')"
    and "ao_invokeServer opts = Some io" "\<forall>p r. listen p = Inr r \<longrightarrow> r \<notin> set (ps_invokePorts ps)"
  shows "ps_unhandled (uninstall_full (uninstalled_handle h) (uninstall_full h ps')) = ps_unhandled ps @ [''ERR_SERVER_NOT_RUNNING'']"
  using assms
  by (cases "ao_killCron opts = Some False"; cases "ps_nodeCron ps")
    (auto simp: activateHermetic_def startInvokeServer_def stopInvokeServer_def patch_cron_def installHermetic_def
      uninstall_full_def uninstalled_handle_def remove1_append Let_def split: option.splits sum.splits)

text \<open>
  When the invoke server cannot bind its port, activation fails with the scheduler already
  killed: nothing undoes the patch, and no handle is returned that could.
\<close>

theorem failed_activation_leaves_cron_killed:
  assumes "fetchMockPack 30000 pack MockStore = Some (Inr store)" "ao_fetchTimeoutMs opts = None"
    and "ao_killCron opts = None" "ps_nodeCron ps" "ao_invokeServer opts = Some io" "\<forall>p. listen p = Inl m"
  shows "activateHermetic shim listen opts pack ps =
    (Some (Inl (InvokeServerFailed m)), ps\<lparr>ps_cronPatched := True, ps_log := ps_log ps @ [PatchCron]\<rparr>)"
  using assms by (simp add: activateHermetic_def startInvokeServer_def patch_cron_def)

text \<open>
  Logging an unmocked call never recurses: the request to the engine passes through the patched
  \<open>http.request\<close> even when the unmocked call was made inside a captured event.
\<close>

theorem unmocked_log_not_intercepted:
  assumes "ao_recordUnmocked opts"
  shows "onUnmocked env opts = Some (PassThrough [ArgOptions (postUnmocked opts)])"
  using assms
  by (simp add: onUnmocked_def runOutsideEvent_def hermeticRequest_def normalizeRequestArgs_def Let_def
      currentEventId_def)

end
