(* ===== verification/Replay.thy ===== *)
theory Replay
  imports Outbound Hermetic
begin

text \<open>
  Record and replay end to end: an outbound call is captured (\<open>Outbound\<close>), the engine turns the
  captured event into a mock entry (\<open>engine/internal/hermetic/signature.go\<close> and \<open>mockpack.go\<close>,
  modelled here), the SDK loads the pack (\<open>Hermetic\<close>) and the intercept layer answers the same call
  from it (\<open>Intercept\<close>).

  Go's \<open>encoding/json\<close> is an argument, as \<open>JSON.parse\<close> is: \<open>json.Unmarshal\<close> and an encoder
  without HTML escaping. It does not print like \<open>JSON.stringify\<close> always (it escapes U+2028 and U+2029, orders keys by their
  bytes and formats some numbers in another way), so that it does for the body at hand is a hypothesis of
  the theorems, \<open>go_prints_alike\<close>.
\<close>

section \<open>The engine's side\<close>

record go_json =
  go_unmarshal :: "bytes \<Rightarrow> json option"
  go_encode :: "json \<Rightarrow> bytes option"

definition trimRight_newlines :: "bytes \<Rightarrow> bytes" where
  "trimRight_newlines bs = rev (dropWhile (\<lambda>b. b = 10) (rev bs))"

definition bodyHash :: "sha256 \<Rightarrow> go_json \<Rightarrow> bytes \<Rightarrow> string \<Rightarrow> string" where
  "bodyHash sha go body contentType =
     (if body = [] then []
      else if \<not> str_includes (toLowerCase contentType) ''json'' then sha256Hex sha body
      else (case go_unmarshal go body of
              None \<Rightarrow> sha256Hex sha body
            | Some parsed \<Rightarrow>
                (case go_encode go parsed of
                   None \<Rightarrow> sha256Hex sha body
                 | Some bs \<Rightarrow> sha256Hex sha (trimRight_newlines bs))))"

definition SignatureOf :: "sha256 \<Rightarrow> go_json \<Rightarrow> string \<Rightarrow> string \<Rightarrow> string \<Rightarrow> bytes \<Rightarrow> string \<Rightarrow> string" where
  "SignatureOf sha go method host path body contentType =
     sha (utf8_encode (join_with ''|''
       [toUpperCase method, toLowerCase host, path, bodyHash sha go body contentType]))"

definition inlineBytes :: "body option \<Rightarrow> bytes" where
  "inlineBytes b =
     (case b of None \<Rightarrow> [] | Some x \<Rightarrow> (case body_payload x of Inline bs \<Rightarrow> bs | Blob _ \<Rightarrow> []))"

definition contentTypeOf :: "body option \<Rightarrow> string" where
  "contentTypeOf b = (case b of None \<Rightarrow> [] | Some x \<Rightarrow> body_contentType x)"

definition entryFromEvent :: "sha256 \<Rightarrow> go_json \<Rightarrow> event \<Rightarrow> pb_mock_entry option" where
  "entryFromEvent sha go ev =
     (case ev_payload ev of
        OutboundPayload outbound \<Rightarrow>
          (let httpEv = oe_http outbound;
               host = (case dict_get (ev_metadata ev) ''host'' of None \<Rightarrow> [] | Some h \<Rightarrow> h);
               host = (if host = [] then oe_target outbound else host)
           in Some \<lparr>pb_causedByEventId = oe_causedByEventId outbound,
                pb_signature = SignatureOf sha go (he_method httpEv) host (he_path httpEv)
                  (inlineBytes (he_requestBody httpEv)) (contentTypeOf (he_requestBody httpEv)),
                pb_status = he_status httpEv,
                pb_responseHeaders = Some (map (\<lambda>(k, vs). (k, Some vs)) (he_responseHeaders httpEv)),
                pb_responseBody = inlineBytes (he_responseBody httpEv),
                pb_responseContentType = contentTypeOf (he_responseBody httpEv)\<rparr>)
      | _ \<Rightarrow> None)"

text \<open>The stream the engine sends: an entry per outbound event, then the end or the read error.\<close>

definition BuildMockPack :: "sha256 \<Rightarrow> go_json \<Rightarrow> event list \<Rightarrow> string option \<Rightarrow> pack_event list" where
  "BuildMockPack sha go evs err =
     map PackData (List.map_filter (entryFromEvent sha go) evs) @
     [case err of None \<Rightarrow> PackEnd | Some m \<Rightarrow> PackError m]"

section \<open>The two signatures\<close>

text \<open>
  The engine's signature is the SDK's for the default canonicalisation, whenever the two JSON libraries
  agree on the body: they read the same value or both none, and print it alike.
\<close>

definition go_prints_alike :: "go_json \<Rightarrow> json_parser \<Rightarrow> bytes \<Rightarrow> bool" where
  "go_prints_alike go parse body \<longleftrightarrow> go_unmarshal go body = parse body \<and>
     (\<forall>v. parse body = Some v \<longrightarrow>
        map_option trimRight_newlines (go_encode go v) = Some (utf8_encode (stableStringify v)))"

lemma canonicalPath_default [simp]: "canonicalPath path [] = path"
  by (simp add: canonicalPath_def split: option.splits)

lemma bodyHash_canonical:
  assumes "go_prints_alike go parse body"
  shows "bodyHash sha go body contentType = canonicalBody sha parse (Some body) (Some contentType) []"
  using assms by (auto simp: bodyHash_def canonicalBody_def go_prints_alike_def split: option.splits)

definition default_canon :: canonicalize_config where
  "default_canon = \<lparr>ignoreJsonKeys = None, ignoreQueryParams = None\<rparr>"

lemma SignatureOf_signatureOf:
  assumes "go_prints_alike go parse body" "body \<noteq> [] \<longrightarrow> ct = (case contentType of None \<Rightarrow> [] | Some t \<Rightarrow> t)"
  shows "SignatureOf sha go method host path body ct =
    signatureOf sha parse \<lparr>sig_method = method, sig_host = host, sig_path = path, sig_body = Some body,
      sig_contentType = contentType\<rparr> default_canon"
proof (cases "body = []")
  case False
  then have "bodyHash sha go body ct = canonicalBody sha parse (Some body) contentType []"
    using assms unfolding bodyHash_canonical [OF assms(1)]
    by (cases contentType) (simp_all add: canonicalBody_def)
  then show ?thesis
    by (simp add: SignatureOf_def signatureOf_def signature_parts_def default_canon_def or_nil_def)
qed (simp add: SignatureOf_def signatureOf_def signature_parts_def default_canon_def or_nil_def bodyHash_def
    canonicalBody_def)

section \<open>What a capture records\<close>

lemma outbound_write:
  "outbound_step sha opts (OutWrite k) c = c\<lparr>ob_reqBuf := cb_push (toBuffer k) (ob_reqBuf c)\<rparr>"
  "outbound_step sha opts (OutEnd k) c = c\<lparr>ob_reqBuf := cb_push (toBuffer k) (ob_reqBuf c)\<rparr>"
  by (simp_all add: toBuffer_def cb_push_def)

lemma outbound_writes:
  "fold (outbound_step sha opts) (map OutWrite ks) c = c\<lparr>ob_reqBuf := fold cb_push (map toBuffer ks) (ob_reqBuf c)\<rparr>"
  by (induction ks arbitrary: c) (simp_all del: outbound_step.simps(1) add: outbound_write)

lemma outbound_reads:
  "ob_listening c \<Longrightarrow>
   fold (outbound_step sha opts) (map OutData ks) c = c\<lparr>ob_resBuf := fold cb_push (map toBuffer ks) (ob_resBuf c)\<rparr>"
  by (induction ks arbitrary: c) simp_all

text \<open>A body within both limits is recorded whole.\<close>

lemma finalize_small:
  assumes "length (concat bufs) \<le> max_inline opts" "length (concat bufs) \<le> buffer_cap opts"
  shows "inlineBytes (fin_body (finalize_with opts ct (fold cb_push bufs (CappedBuffer (buffer_cap opts))))) = concat bufs"
    and "concat bufs \<noteq> [] \<longrightarrow>
      contentTypeOf (fin_body (finalize_with opts ct (fold cb_push bufs (CappedBuffer (buffer_cap opts))))) =
        (case ct of None \<Rightarrow> [] | Some t \<Rightarrow> t)"
  using assms capped_buffer_spec [of bufs "buffer_cap opts"]
  by (auto simp: finalize_with_def finalizeBody_def Let_def inlineBytes_def contentTypeOf_def)

text \<open>
  Header names that differ in more than their case, and for the flat form nothing: the capture and
  the replay then read the same content type.
\<close>

fun names_distinct :: "out_headers option \<Rightarrow> bool" where
  "names_distinct (Some (DictHeaders hs)) = distinct (map (toLowerCase \<circ> fst) hs)"
| "names_distinct _ = True"

lemma dict_header_find:
  "dict_header hs target = stringHeader_num (map_option snd (find (\<lambda>(k, v). toLowerCase k = target) hs))"
  by (induction hs)
    (auto simp: stringHeader_num_def stringHeader_def split: header_value.splits list.splits)

lemma find_lower:
  assumes "distinct (map (toLowerCase \<circ> fst) hs)" "(n, v) \<in> set hs" "toLowerCase n = t"
  shows "find (\<lambda>(k, v). toLowerCase k = t) hs = Some (n, v)"
  using assms by (induction hs) (auto simp: rev_image_eqI)

lemma content_type_agrees:
  assumes "names_distinct h"
  shows "stringHeader_num (lookupOutgoingHeader h ''content-type'') = firstHeader h ''content-type''"
proof -
  have l: "toLowerCase ''content-type'' = ''content-type''" by code_simp
  show ?thesis
  proof (cases h)
    case (Some x)
    show ?thesis
    proof (cases x)
      case (DictHeaders hs)
      let ?f = "find (\<lambda>(k, v). toLowerCase k = ''content-type'') hs"
      have "?f = Some (''content-type'', v)" if "dict_get hs ''content-type'' = Some v" for v
        using find_lower [OF _ map_of_SomeD [OF that] l] assms Some DictHeaders by simp
      then have "lookupOutgoingHeader h ''content-type'' = map_option snd ?f"
        by (auto simp: Some DictHeaders lookupOutgoingHeader_def l split: option.splits header_value.splits)
      then show ?thesis by (simp add: Some DictHeaders firstHeader_def dict_header_find l)
    qed (simp_all add: Some lookupOutgoingHeader_def firstHeader_def stringHeader_num_def stringHeader_def split: option.splits)
  qed (simp add: lookupOutgoingHeader_def firstHeader_def stringHeader_num_def stringHeader_def)
qed


section \<open>Replaying a captured call\<close>

text \<open>The callbacks of a call that succeeds: writes, the end, the answer, its data, and its end.\<close>

definition whole_call :: "chunk list \<Rightarrow> chunk \<Rightarrow> int \<Rightarrow> header_value dict \<Rightarrow> string \<Rightarrow> chunk list \<Rightarrow> string \<Rightarrow> int
    \<Rightarrow> outbound_signal list" where
  "whole_call ws k status headers version ds eid dur =
     map OutWrite ws @ [OutEnd k, OutResponse (Some status) headers (Some version)] @ map OutData ds @ [OutResEnd eid dur]"

lemma patchedRequest_Captured:
  assumes "patchedRequest parse_url opts skip proto scope nowMs args = Captured c"
  obtains n where "normalizeRequestArgs parse_url args proto = Inr n" "currentEventId scope = Some (ob_causedBy c)"
    "ob_causedBy c \<noteq> []" "ob_options c = norm_options n" "ob_host c = options_host (norm_options n)"
    "ob_method c = toUpperCase (case opt_method (norm_options n) of None \<Rightarrow> ''GET'' | Some m \<Rightarrow> m)"
    "ob_path c = (case opt_path (norm_options n) of None \<Rightarrow> ''/'' | Some p \<Rightarrow> p)"
    "ob_reqBuf c = CappedBuffer (buffer_cap opts)" "ob_resBuf c = CappedBuffer (buffer_cap opts)"
    "\<not> ob_emitted c" "ob_sent c = []"
  using assms by (auto simp: patchedRequest_def Let_def split: sum.splits option.splits if_splits)

text \<open>What the engine makes of the event of such a call.\<close>

lemma entry_of_call:
  assumes "patchedRequest parse_url opts skip proto scope nowMs args = Captured c"
    and "ob_sent (patchHttp_run sha opts (whole_call ws k status hs v ds eid dur) c) = [ev]"
    and "names_distinct (opt_headers (ob_options c))"
    and "length (concat (map toBuffer (ws @ [k]))) \<le> min (max_inline opts) (buffer_cap opts)"
    and "length (concat (map toBuffer ds)) \<le> min (max_inline opts) (buffer_cap opts)"
    and "go_prints_alike go parse (concat (map toBuffer (ws @ [k])))"
  shows "\<exists>ct. entryFromEvent hex go ev = Some
    \<lparr>pb_causedByEventId = ob_causedBy c,
     pb_signature = signatureOf hex parse \<lparr>sig_method = ob_method c, sig_host = ob_host c, sig_path = ob_path c,
       sig_body = Some (concat (map toBuffer (ws @ [k]))),
       sig_contentType = firstHeader (opt_headers (ob_options c)) ''content-type''\<rparr> default_canon,
     pb_status = status,
     pb_responseHeaders = Some (map (\<lambda>(k, vs). (k, Some vs))
       (red_headers (redactHeaders (incomingHeadersToRecord hs) (Some (header_deny opts))))),
     pb_responseBody = concat (map toBuffer ds), pb_responseContentType = ct\<rparr>"
proof -
  obtain n where c: "ob_reqBuf c = CappedBuffer (buffer_cap opts)" "ob_resBuf c = CappedBuffer (buffer_cap opts)"
    "\<not> ob_emitted c" "ob_sent c = []" using patchedRequest_Captured [OF assms(1)] by metis
  define bs where "bs = map toBuffer (ws @ [k])"
  define req where "req = finalize_with opts (firstHeader (opt_headers (ob_options c)) ''content-type'')
    (fold cb_push bs (CappedBuffer (buffer_cap opts)))"
  define res where "res = finalize_with opts (stringHeader_num (dict_get hs ''content-type''))
    (fold cb_push (map toBuffer ds) (CappedBuffer (buffer_cap opts)))"
  define hdrs where "hdrs h = redactHeaders h (Some (header_deny opts))" for h
  define d where "d = c\<lparr>ob_reqBuf := fold cb_push bs (CappedBuffer (buffer_cap opts)), ob_status := status,
    ob_resHeaders := hs, ob_httpVersion := ''HTTP/'' @ v,
    ob_resBuf := fold cb_push (map toBuffer ds) (CappedBuffer (buffer_cap opts)), ob_listening := False\<rparr>"
  have "patchHttp_run sha opts (whole_call ws k status hs v ds eid dur) c = outbound_finish sha opts False eid dur d"
    by (simp add: patchHttp_run_def whole_call_def outbound_writes outbound_write(2) outbound_reads c d_def bs_def
        del: outbound_step.simps(1,2))
  with assms(2) c have ev: "ev = outbound_buildEvent d
      \<lparr>ba_eventId = eid, ba_durationNs = dur, ba_status = status,
       ba_reqHeaders = red_headers (hdrs (outgoingHeadersToRecord (opt_headers (ob_options c)))),
       ba_resHeaders = red_headers (hdrs (incomingHeadersToRecord hs)), ba_reqBody = req, ba_resBody = res,
       ba_responseHash = sha (cb_toBuffer (ob_resBuf d)),
       ba_applied = red_applied (hdrs (outgoingHeadersToRecord (opt_headers (ob_options c)))) @
         red_applied (hdrs (incomingHeadersToRecord hs)) @ fin_redactions req @ fin_redactions res\<rparr>"
    by (simp add: outbound_finish_def Let_def d_def content_type_agrees [OF assms(3)] req_def res_def hdrs_def)
  have "inlineBytes (fin_body req) = concat bs" "concat bs \<noteq> [] \<longrightarrow>
      contentTypeOf (fin_body req) = (case firstHeader (opt_headers (ob_options c)) ''content-type'' of None \<Rightarrow> [] | Some t \<Rightarrow> t)"
    and res: "inlineBytes (fin_body res) = concat (map toBuffer ds)"
    using assms(4,5) unfolding req_def res_def bs_def [symmetric] by (intro finalize_small; simp)+
  with assms(6) have sig: "SignatureOf hex go m h p (inlineBytes (fin_body req)) (contentTypeOf (fin_body req)) =
      signatureOf hex parse \<lparr>sig_method = m, sig_host = h, sig_path = p, sig_body = Some (concat bs),
        sig_contentType = firstHeader (opt_headers (ob_options c)) ''content-type''\<rparr> default_canon" for m h p
    unfolding bs_def [symmetric] by (simp add: SignatureOf_signatureOf [of go parse])
  have "targetFromHost [] = []" by (simp add: targetFromHost_def Let_def)
  then show ?thesis
    unfolding ev bs_def [symmetric] hdrs_def [symmetric]
    by (simp add: entryFromEvent_def outbound_buildEvent_def make_event_def Let_def d_def sig res)
qed

text \<open>The key a mock entry for an event gets.\<close>

definition pack_key :: "sha256 \<Rightarrow> go_json \<Rightarrow> event \<Rightarrow> string option" where
  "pack_key sha go ev = map_option (entry_key \<circ> mock_of_pb) (entryFromEvent sha go ev)"

lemma BuildMockPack_loads:
  "fetchMockPack t (BuildMockPack sha go evs None) MockStore =
     Some (Inr (fold store_add (map mock_of_pb (List.map_filter (entryFromEvent sha go) evs)) MockStore))"
  by (simp add: BuildMockPack_def fetchMockPack_data)

lemma pack_content:
  "filter (\<lambda>e. entry_key e = k) (map mock_of_pb (List.map_filter (entryFromEvent sha go) evs)) =
     map mock_of_pb (List.map_filter (entryFromEvent sha go) (filter (\<lambda>e. pack_key sha go e = Some k) evs))"
  by (induction evs) (auto simp: map_filter_simps pack_key_def split: option.splits)

text \<open>
  The events of a pack with one key are the answers to the calls with that key, in their order: a call gets the entry
  of the event that has as many of its key before it as lookups of it were made already.
\<close>

lemma count_list_map_Some: "count_list (map Some xs) (Some x) = count_list xs x"
  by (induction xs) simp_all

lemma count_pack_key:
  "length (List.map_filter (entryFromEvent sha go) (filter (\<lambda>e. pack_key sha go e = Some key) evs)) =
     count_list (map (pack_key sha go) evs) (Some key)"
  by (induction evs) (auto simp: map_filter_simps pack_key_def)

lemma pack_next:
  assumes "entryFromEvent sha go ev = Some q"
    and "count_list made (entry_key (mock_of_pb q)) = count_list (map (pack_key sha go) before) (Some (entry_key (mock_of_pb q)))"
    and "s = fold store_add (map mock_of_pb (List.map_filter (entryFromEvent sha go) (before @ ev # after))) MockStore"
  shows "fst (take_key (entry_key (mock_of_pb q)) (snd (takes_with take_key made s))) = Some (mock_of_pb q)"
proof -
  let ?k = "entry_key (mock_of_pb q)"
  let ?old = "map mock_of_pb (List.map_filter (entryFromEvent sha go) (filter (\<lambda>e. pack_key sha go e = Some ?k) before))"
  have new: "store_content MockStore x = []" "store_handed MockStore x = 0" for x
    by (simp_all add: store_content_def store_handed_def MockStore_def)
  obtain rest where "store_content s ?k = ?old @ mock_of_pb q # rest"
    unfolding assms(3) ms.content_fold new pack_content using assms(1) by (simp add: pack_key_def List.map_filter_def)
  moreover have "store_handed s ?k = 0" unfolding assms(3) ms.handed_fold new ..
  moreover have "length ?old = count_list made ?k" using assms(2) by (simp add: count_pack_key)
  ultimately show ?thesis
    using ms.after_takes [of made s ?k] by (simp add: ms.tk_result nth_append)
qed

text \<open>
  C6. Record and replay: take a call that was captured whole (its body and its answer within the limits, no
  explicit port, no two header names equal up to case), and let the same call be made again in the scope of the same event
  when as many calls with its key (event and signature) were replayed as the session has captured before it. It is answered with the status, the
  body and the (redacted) headers that were captured, from the pack the engine builds for the session, whatever other
  events the session holds and whatever other lookups were made; the hook for unmocked calls stays
  silent. The SDK uses the default canonicalisation, and Go's JSON library reads and prints this body as
  JavaScript does.
\<close>

theorem captured_call_replays:
  assumes "patchedRequest (env_url env) opts skip proto scope nowMs args = Captured c"
    and "ob_sent (patchHttp_run sha opts (whole_call ws k status hs v ds eid dur) c) = [ev]"
    and "opt_port (ob_options c) = None" "names_distinct (opt_headers (ob_options c))"
    and "length (concat (map toBuffer (ws @ [k]))) \<le> min (max_inline opts) (buffer_cap opts)"
    and "length (concat (map toBuffer ds)) \<le> min (max_inline opts) (buffer_cap opts)"
    and "env_canon env = default_canon"
    and "go_prints_alike go (env_parse env) (concat (map toBuffer (ws @ [k])))"
    and "count_list (map Some made) (pack_key (env_sha env) go ev) =
      count_list (map (pack_key (env_sha env) go) before) (pack_key (env_sha env) go ev)"
  shows "\<exists>r store. hermeticRequest env proto scope args = Hermetic r \<and>
    fetchMockPack t (BuildMockPack (env_sha env) go (before @ ev # after) None) MockStore = Some (Inr store) \<and>
    snd (snd (hermeticEnd env k (fold hermeticWrite ws r) (snd (takes_with take_key made store)))) =
      (Some (Response \<lparr>res_statusCode = status, res_statusMessage = defaultStatusMessage status,
         res_headers = flattenHeadersForIncoming
           (red_headers (redactHeaders (incomingHeadersToRecord hs) (Some (header_deny opts)))) [],
         res_body = concat (map toBuffer ds)\<rparr>), [])"
proof -
  let ?sha = "env_sha env" and ?body = "concat (map toBuffer (ws @ [k]))"
  obtain n where n: "normalizeRequestArgs (env_url env) args proto = Inr n" "currentEventId scope = Some (ob_causedBy c)"
    "ob_causedBy c \<noteq> []" "ob_options c = norm_options n" "ob_host c = options_host (norm_options n)"
    "ob_method c = toUpperCase (case opt_method (norm_options n) of None \<Rightarrow> ''GET'' | Some m \<Rightarrow> m)"
    "ob_path c = (case opt_path (norm_options n) of None \<Rightarrow> ''/'' | Some p \<Rightarrow> p)"
    by (rule patchedRequest_Captured [OF assms(1)])
  obtain q where q: "entryFromEvent ?sha go ev = Some q" "pb_causedByEventId q = ob_causedBy c"
    "pb_signature q = signatureOf ?sha (env_parse env) \<lparr>sig_method = ob_method c, sig_host = ob_host c, sig_path = ob_path c,
       sig_body = Some ?body, sig_contentType = firstHeader (opt_headers (ob_options c)) ''content-type''\<rparr> default_canon"
    "pb_status q = status" "pb_responseBody q = concat (map toBuffer ds)"
    "mapHeaderValues (pb_responseHeaders q) = red_headers (redactHeaders (incomingHeadersToRecord hs) (Some (header_deny opts)))"
    using entry_of_call [where parse = "env_parse env" and go = go and hex = ?sha, OF assms(1,2,4-6,8)]
    by (auto simp: mapHeaderValues_def comp_def case_prod_beta)
  define r where "r = buildHermeticRequest (norm_options n) (norm_protocol n) (ob_causedBy c) (norm_callback n)"
  define s where "s = fold store_add (map mock_of_pb (List.map_filter (entryFromEvent ?sha go) (before @ ev # after))) MockStore"
  have r: "hermeticRequest env proto scope args = Hermetic r" using n(1-3) by (simp add: hermeticRequest_def r_def)
  obtain zs where zs: "fold hermeticWrite ws r = r\<lparr>hr_chunks := zs\<rparr>" "concat zs = concat (map toBuffer ws)"
    using fold_hermeticWrite [of ws r] by (auto simp: r_def buildHermeticRequest_def)
  have live: "\<not> hr_ended (r\<lparr>hr_chunks := zs\<rparr>)" by (simp add: r_def buildHermeticRequest_def)
  define r' where "r' = hermeticWrite k (r\<lparr>hr_chunks := zs, hr_ended := True\<rparr>)"
  have "request_signature env r' = pb_signature q"
    using n(4-7) assms(3,7) zs(2) unfolding q(3)
    by (simp add: r'_def request_signature_def hermeticWrite_def toBuffer_def [of ChunkNull] r_def buildHermeticRequest_def
        options_host_def)
  moreover have "hr_causedBy r = ob_causedBy c" by (simp add: r_def buildHermeticRequest_def)
  ultimately have key: "keyOf (hr_causedBy r) (request_signature env r') = entry_key (mock_of_pb q)"
    using q(2) by (simp add: entry_key_def mock_of_pb_def)
  have "pack_key ?sha go ev = Some (entry_key (mock_of_pb q))" using q(1) by (simp add: pack_key_def)
  then have "count_list made (entry_key (mock_of_pb q)) = count_list (map (pack_key ?sha go) before) (Some (entry_key (mock_of_pb q)))"
    using assms(9) by (simp add: count_list_map_Some)
  from pack_next [OF q(1) this s_def]
  have "let mine = store_content (snd (takes_with take_key made s)) (entry_key (mock_of_pb q))
    in mine \<noteq> [] \<and> mine ! (store_handed (snd (takes_with take_key made s)) (entry_key (mock_of_pb q)) mod length mine) = mock_of_pb q"
    by (simp add: ms.tk_result Let_def split: if_splits)
  then have "snd (snd (hermeticEnd env k (fold hermeticWrite ws r) (snd (takes_with take_key made s)))) = (Some (Response (emitResponse (mock_of_pb q))), [])"
    unfolding zs(1) hermeticEnd_live [OF live] Let_def
    using key by (simp add: r'_def Let_def)
  moreover have "emitResponse (mock_of_pb q) = \<lparr>res_statusCode = status, res_statusMessage = defaultStatusMessage status,
      res_headers = flattenHeadersForIncoming
        (red_headers (redactHeaders (incomingHeadersToRecord hs) (Some (header_deny opts)))) [],
      res_body = concat (map toBuffer ds)\<rparr>"
    using q(4-6) by (simp add: emitResponse_def mock_of_pb_def)
  ultimately show ?thesis using r BuildMockPack_loads [of t ?sha go "before @ ev # after"] s_def by metis
qed


text \<open>A JSON library that reads nothing, which two parsers can agree on.\<close>

definition mute_json :: go_json where
  "mute_json = \<lparr>go_unmarshal = \<lambda>_. None, go_encode = \<lambda>_. None\<rparr>"

theorem captured_call_replays_witness:
  "\<exists>c ev r store. patchedRequest (\<lambda>_. None) plain_options [] ''http:'' (Some \<lparr>ctx_eventId = ''ev1'', ctx_replayId = None\<rparr>) 3
       [ArgOptions no_options] = Captured c \<and>
     ob_sent (patchHttp_run id plain_options
       (whole_call [ChunkString ''a''] ChunkNull 200 [] ''1.1'' [ChunkString ''o'', ChunkString ''k''] ''ev2'' 9) c) = [ev] \<and>
     hermeticRequest (sample_env\<lparr>env_canon := default_canon\<rparr>) ''http:'' (Some \<lparr>ctx_eventId = ''ev1'', ctx_replayId = None\<rparr>)
       [ArgOptions no_options] = Hermetic r \<and>
     fetchMockPack 30000 (BuildMockPack to_hex mute_json [ev] None) MockStore = Some (Inr store) \<and>
     (\<exists>res. snd (snd (hermeticEnd (sample_env\<lparr>env_canon := default_canon\<rparr>) ChunkNull
       (fold hermeticWrite [ChunkString ''a''] r) store)) = (Some (Response res), []) \<and>
       res_statusCode res = 200 \<and> res_body res = utf8_encode ''ok'')"
proof -
  let ?scope = "Some \<lparr>ctx_eventId = ''ev1'', ctx_replayId = None\<rparr>" and ?env = "sample_env\<lparr>env_canon := default_canon\<rparr>"
  let ?sigs = "whole_call [ChunkString ''a''] ChunkNull 200 [] ''1.1'' [ChunkString ''o'', ChunkString ''k''] ''ev2'' 9"
  obtain c where c: "patchedRequest (\<lambda>_. None) plain_options [] ''http:'' ?scope 3 [ArgOptions no_options] = Captured c"
    and o: "ob_options c = no_options" "ob_sent c = []" "\<not> ob_emitted c"
    by (simp add: patchedRequest_def normalizeRequestArgs_def no_options_def currentEventId_def Let_def merge_options_def
        spread_field_def or_else_def)
  have "length (ob_sent (patchHttp_run id plain_options ?sigs c)) = 1"
    using patchHttp_run_sent [of id plain_options ?sigs c] o by (simp add: whole_call_def)
  then obtain ev where ev: "ob_sent (patchHttp_run id plain_options ?sigs c) = [ev]" by (auto simp: length_Suc_conv)
  have env: "env_url ?env = (\<lambda>_. None)" "env_sha ?env = to_hex" "env_parse ?env = (\<lambda>_. None)" "env_canon ?env = default_canon"
    by (simp_all add: sample_env_def)
  have len: "length (concat (map toBuffer ([ChunkString ''a''] @ [ChunkNull]))) \<le> min (max_inline plain_options) (buffer_cap plain_options)"
    "length (concat (map toBuffer [ChunkString ''o'', ChunkString ''k''])) \<le> min (max_inline plain_options) (buffer_cap plain_options)"
    by code_simp+
  have body: "concat (map toBuffer [ChunkString ''o'', ChunkString ''k'']) = utf8_encode ''ok''" by code_simp
  have o': "opt_port (ob_options c) = None" "names_distinct (opt_headers (ob_options c))"
    unfolding o by (simp_all add: no_options_def)
  have c': "patchedRequest (env_url ?env) plain_options [] ''http:'' ?scope 3 [ArgOptions no_options] = Captured c"
    using c env(1) by simp
  have alike: "go_prints_alike mute_json (env_parse ?env) body" for body
    by (simp add: go_prints_alike_def mute_json_def env(3))
  have none: "count_list (map Some []) key = count_list (map (pack_key (env_sha ?env) mute_json) []) key" for key by simp
  obtain r store where "hermeticRequest ?env ''http:'' ?scope [ArgOptions no_options] = Hermetic r"
    "fetchMockPack 30000 (BuildMockPack (env_sha ?env) mute_json ([] @ ev # []) None) MockStore = Some (Inr store)"
    "\<exists>res. snd (snd (hermeticEnd ?env ChunkNull (fold hermeticWrite [ChunkString ''a''] r) store)) = (Some (Response res), []) \<and>
       res_statusCode res = 200 \<and> res_body res = concat (map toBuffer [ChunkString ''o'', ChunkString ''k''])"
    using captured_call_replays [OF c' ev o' len env(4) alike none, of 30000 "[]"] by fastforce
  with c ev show ?thesis unfolding env body by (metis append_Nil)
qed

section \<open>Calls that do not replay\<close>

text \<open>
  A request body that was uploaded as a blob does not take part in the engine's signature, so with
  a collision-free digest the signature at replay is never that of the captured call, and the call
  stays unmocked although it was captured.
\<close>

theorem uploaded_body_never_matches:
  assumes "inj (env_sha env)" "\<And>x. env_sha env x \<noteq> []" "\<And>x. CHR ''|'' \<notin> set (env_sha env x)"
    and "concat (hr_chunks r) \<noteq> []" "body_payload b = Blob ref"
  shows "request_signature env r \<noteq> SignatureOf (env_sha env) go m h p (inlineBytes (Some b)) (contentTypeOf (Some b))"
proof
  define hash where "hash = canonicalBody (env_sha env) (env_parse env) (Some (concat (hr_chunks r)))
    (firstHeader (hr_headers r) ''content-type'') (or_nil (ignoreJsonKeys (env_canon env)))"
  define path where "path = canonicalPath (hr_path r) (or_nil (ignoreQueryParams (env_canon env)))"
  have hash: "hash \<noteq> []" "CHR ''|'' \<notin> set hash"
    using assms(2-4) canonicalBody_no_bar [OF assms(3)]
    by (auto simp: hash_def canonicalBody_def sha256Hex_def Let_def split: option.splits)
  assume "request_signature env r = SignatureOf (env_sha env) go m h p (inlineBytes (Some b)) (contentTypeOf (Some b))"
  moreover have "inlineBytes (Some b) = []" using assms(5) by (simp add: inlineBytes_def)
  ultimately have "utf8_encode (join_with ''|'' [toUpperCase (hr_method r), toLowerCase (hr_host r @ hr_port r), path, hash]) =
      utf8_encode (join_with ''|'' [toUpperCase m, toLowerCase h, p, []])"
    using assms(1) by (simp add: request_signature_def signatureOf_def signature_parts_def SignatureOf_def bodyHash_def
        hash_def path_def inj_eq)
  then have "(toUpperCase (hr_method r) @ CHR ''|'' # toLowerCase (hr_host r @ hr_port r) @ CHR ''|'' # path) @ CHR ''|'' # hash =
      (toUpperCase m @ CHR ''|'' # toLowerCase h @ CHR ''|'' # p) @ CHR ''|'' # []"
    by (auto dest!: utf8_encode_inject)
  from bar_split_last [OF hash(2) _ this] hash(1) show False by simp
qed


text \<open>
  The engine does not know the keys and parameters an SDK is told to ignore: for a JSON body with
  one member, and this one ignored, the signature at replay is never the engine's for the very
  same request.
\<close>

theorem ignored_keys_never_match:
  assumes "inj (env_sha env)" "\<And>x. CHR ''|'' \<notin> set (env_sha env x)"
    and "env_canon env = \<lparr>ignoreJsonKeys = Some [key], ignoreQueryParams = None\<rparr>"
    and "env_parse env body = Some (JObj [(key, v)])" "go_prints_alike go (env_parse env) body"
    and "concat (hr_chunks r) = body" "body \<noteq> []" "firstHeader (hr_headers r) ''content-type'' = Some ct" "str_includes (toLowerCase ct) ''json''"
  shows "request_signature env r \<noteq>
    SignatureOf (env_sha env) go (hr_method r) (hr_host r @ hr_port r) (hr_path r) body ct"
proof
  let ?e = "\<lambda>v. env_sha env (utf8_encode (stableStringify v))"
  assume "request_signature env r =
    SignatureOf (env_sha env) go (hr_method r) (hr_host r @ hr_port r) (hr_path r) body ct"
  then have "utf8_encode (join_with ''|'' [toUpperCase (hr_method r), toLowerCase (hr_host r @ hr_port r), hr_path r, ?e (JObj [])]) =
      utf8_encode (join_with ''|'' [toUpperCase (hr_method r), toLowerCase (hr_host r @ hr_port r), hr_path r, ?e (JObj [(key, v)])])"
    using assms bodyHash_canonical [OF assms(5), of "env_sha env" ct]
    by (simp add: request_signature_def signatureOf_def signature_parts_def SignatureOf_def
        canonicalBody_def or_nil_def sha256Hex_def inj_eq)
  then have "?e (JObj []) = ?e (JObj [(key, v)])" by (auto dest!: utf8_encode_inject)
  then have "stableStringify (JObj []) = stableStringify (JObj [(key, v)])"
    using assms(1) by (auto simp only: inj_eq dest!: utf8_encode_inject)
  then show False by (simp add: json_quote_def)
qed

end
