(* ===== verification/Sql.thy ===== *)
theory Sql
  imports Events
begin

text \<open>
  The texts of database instrumentation (\<open>sdk-node/src/db\<close>): the statement fingerprint
  (\<open>sql-fingerprint.ts\<close>), the \<open>application_name\<close> that carries event and replay ids to the server
  (\<open>pg-wrap.ts\<close>, \<open>emit.ts\<close>) and its parser (\<open>postgres.ts\<close>), and the quoting of the \<open>SET\<close> statement.
\<close>

section \<open>Statement fingerprints\<close>

definition is_space :: "char \<Rightarrow> bool" where
  "is_space c = (let n = of_char c :: nat in 9 \<le> n \<and> n \<le> 13 \<or> n = 32 \<or> n = 160)"

definition is_word :: "char \<Rightarrow> bool" where
  "is_word c = (let n = of_char c :: nat
     in 48 \<le> n \<and> n \<le> 57 \<or> 65 \<le> n \<and> n \<le> 90 \<or> 97 \<le> n \<and> n \<le> 122 \<or> n = 95)"

definition ltrim :: "string \<Rightarrow> string" where
  "ltrim s = dropWhile is_space s"

definition rtrim :: "string \<Rightarrow> string" where
  "rtrim s = rev (dropWhile is_space (rev s))"

definition trim :: "string \<Rightarrow> string" where
  "trim s = rtrim (ltrim s)"

text \<open>The end of a trimmed statement: at most one semicolon is dropped.\<close>

definition drop_semicolon :: "string \<Rightarrow> string" where
  "drop_semicolon s = (if s \<noteq> [] \<and> last s = CHR '';'' then butlast s else s)"

text \<open>
  The rest of a literal after its opening quote, with the backtracking of the pattern: a doubled
  quote belongs to the literal when the literal is closed later on, else its first quote closes it.
\<close>

fun close_single :: "string \<Rightarrow> string option" where
  "close_single [] = None"
| "close_single [c] = (if c = CHR 0x27 then Some [] else None)"
| "close_single (c # d # rest) =
     (if c = CHR 0x27
      then (if d = CHR 0x27
            then (case close_single rest of Some r \<Rightarrow> Some r | None \<Rightarrow> Some (d # rest))
            else Some (d # rest))
      else close_single (d # rest))"

fun close_double :: "string \<Rightarrow> string option" where
  "close_double [] = None"
| "close_double [c] = (if c = CHR 0x22 then Some [] else None)"
| "close_double (c # d # rest) =
     (if c = CHR 0x22 then Some (d # rest)
      else if c = CHR 0x5C then (if of_char d \<in> {10, 13 :: nat} then None else close_double rest)
      else close_double (d # rest))"

lemma close_single_shorter: "close_single s = Some r \<Longrightarrow> length r < length s"
  by (induction s arbitrary: r rule: close_single.induct) (fastforce split: if_splits option.splits)+

lemma close_double_shorter: "close_double s = Some r \<Longrightarrow> length r < length s"
  by (induction s arbitrary: r rule: close_double.induct) (fastforce split: if_splits)+

function replace_single :: "string \<Rightarrow> string" where
  "replace_single [] = []"
| "replace_single (c # s) =
     (if c = CHR 0x27
      then (case close_single s of Some r \<Rightarrow> CHR ''?'' # replace_single r | None \<Rightarrow> c # replace_single s)
      else c # replace_single s)"
  by pat_completeness auto
termination
  by (relation "measure length") (auto dest: close_single_shorter)

function replace_double :: "string \<Rightarrow> string" where
  "replace_double [] = []"
| "replace_double (c # s) =
     (if c = CHR 0x22
      then (case close_double s of Some r \<Rightarrow> CHR ''?'' # replace_double r | None \<Rightarrow> c # replace_double s)
      else c # replace_double s)"
  by pat_completeness auto
termination
  by (relation "measure length") (auto dest: close_double_shorter)

text \<open>A maximal run of word characters that are all digits is a number.\<close>

function replace_numbers :: "string \<Rightarrow> string" where
  "replace_numbers [] = []"
| "replace_numbers (c # s) =
     (if is_word c
      then (let w = takeWhile is_word (c # s)
            in (if list_all is_digit w then ''?'' else w) @ replace_numbers (dropWhile is_word (c # s)))
      else c # replace_numbers s)"
  by pat_completeness auto
termination
  by (relation "measure length") (auto simp: le_imp_less_Suc length_dropWhile_le)

function collapse_spaces :: "string \<Rightarrow> string" where
  "collapse_spaces [] = []"
| "collapse_spaces (c # s) =
     (if is_space c then CHR '' '' # collapse_spaces (dropWhile is_space s) else c # collapse_spaces s)"
  by pat_completeness auto
termination
  by (relation "measure length") (auto simp: le_imp_less_Suc length_dropWhile_le)

definition sqlFingerprint :: "string \<Rightarrow> string" where
  "sqlFingerprint sql =
     (if sql = [] then []
      else (let s = drop_semicolon (trim sql);
                s = replace_single s;
                s = replace_double s;
                s = replace_numbers s;
                s = trim (collapse_spaces s)
            in if length s > 200 then take 200 s else s))"

subsection \<open>Numbers do not count\<close>

lemma is_digit_word: "is_digit c \<Longrightarrow> is_word c"
  by (simp add: is_digit_def is_word_def Let_def)

lemma is_digit_not_space: "is_digit c \<Longrightarrow> \<not> is_space c"
  by (auto simp: is_digit_def is_space_def Let_def)

lemma digit_not_quote: "is_digit c \<Longrightarrow> c \<noteq> CHR 0x27 \<and> c \<noteq> CHR 0x22"
  by (auto simp: is_digit_def)

lemma replace_single_prefix: "CHR 0x27 \<notin> set a \<Longrightarrow> replace_single (a @ b) = a @ replace_single b"
  by (induction a) auto

lemma replace_double_prefix: "CHR 0x22 \<notin> set a \<Longrightarrow> replace_double (a @ b) = a @ replace_double b"
  by (induction a) auto

lemma replace_numbers_boundary:
  "a = [] \<or> \<not> is_word (last a) \<Longrightarrow> replace_numbers (a @ b) = replace_numbers a @ replace_numbers b"
proof (induction a rule: replace_numbers.induct)
  case (2 c s)
  show ?case
  proof (cases "is_word c")
    case True
    have "\<not> is_word (last (c # s))" using 2 by simp
    then have ne: "\<exists>x \<in> set (c # s). \<not> is_word x" by (metis last_in_set list.distinct(1))
    then have tw: "takeWhile is_word ((c # s) @ b) = takeWhile is_word (c # s)"
      "dropWhile is_word ((c # s) @ b) = dropWhile is_word (c # s) @ b"
      by (meson takeWhile_append1, meson dropWhile_append1)
    have dne: "dropWhile is_word (c # s) \<noteq> []" using ne by (metis dropWhile_eq_Nil_conv)
    then have "last (dropWhile is_word (c # s)) = last (c # s)" by (metis last_append takeWhile_dropWhile_id)
    with 2 True have "replace_numbers (dropWhile is_word (c # s) @ b) =
        replace_numbers (dropWhile is_word (c # s)) @ replace_numbers b" by (auto simp: Let_def)
    with True tw show ?thesis by (simp add: Let_def)
  next
    case False
    with 2 show ?thesis by (cases s) auto
  qed
qed simp

lemma replace_numbers_number:
  assumes "list_all is_digit n" "n \<noteq> []" "b = [] \<or> \<not> is_word (hd b)"
  shows "replace_numbers (n @ b) = ''?'' @ replace_numbers b"
proof -
  have all: "\<forall>x \<in> set n. is_word x" using assms(1) by (auto simp: list_all_iff is_digit_word)
  have "takeWhile is_word b = []" "dropWhile is_word b = b" using assms(3) by (cases b; auto)+
  with all have tw: "takeWhile is_word (n @ b) = n" "dropWhile is_word (n @ b) = b"
    by (simp_all add: takeWhile_append2 dropWhile_append2)
  obtain c s where n: "n = c # s" using assms(2) by (cases n) auto
  then have "is_word c" using all by simp
  with tw assms(1) show ?thesis unfolding n by (simp add: Let_def)
qed

lemma trim_number:
  assumes "list_all is_digit n" "n \<noteq> []"
  shows "trim (a @ n @ b) = ltrim a @ n @ rtrim b"
proof -
  have ex: "\<exists>x \<in> set n. \<not> is_space x" using assms by (cases n) (auto simp: is_digit_not_space)
  have hd: "\<not> is_space (hd n)" "\<not> is_space (last n)" using assms by (auto simp: list_all_iff is_digit_not_space)
  have n0: "dropWhile is_space (n @ b) = n @ b" using hd(1) assms(2) by (cases n) auto
  have l: "ltrim (a @ n @ b) = ltrim a @ n @ b"
  proof (cases "\<exists>x \<in> set a. \<not> is_space x")
    case True
    then show ?thesis unfolding ltrim_def by (meson dropWhile_append1)
  next
    case False
    then have "dropWhile is_space a = []" "dropWhile is_space (a @ n @ b) = dropWhile is_space (n @ b)"
      by (auto simp: dropWhile_append2)
    then show ?thesis by (simp add: ltrim_def n0)
  qed
  have n1: "dropWhile is_space (rev n @ rev (ltrim a)) = rev n @ rev (ltrim a)"
    using hd(2) assms(2) by (cases "rev n") (auto simp: hd_rev [symmetric])
  have "rtrim (ltrim a @ n @ b) = ltrim a @ n @ rtrim b"
  proof (cases "\<exists>x \<in> set (rev b). \<not> is_space x")
    case True
    then have "dropWhile is_space (rev b @ rev n @ rev (ltrim a)) = dropWhile is_space (rev b) @ rev n @ rev (ltrim a)"
      by (meson dropWhile_append1)
    then show ?thesis by (simp add: rtrim_def)
  next
    case False
    then have "dropWhile is_space (rev b) = []" by simp
    moreover have "dropWhile is_space (rev b @ rev n @ rev (ltrim a)) = dropWhile is_space (rev n @ rev (ltrim a))"
      by (rule dropWhile_append2) (use False in blast)
    ultimately show ?thesis by (simp add: rtrim_def n1)
  qed
  with l show ?thesis by (simp add: trim_def)
qed

lemma drop_semicolon_number:
  assumes "list_all is_digit n" "n \<noteq> []"
  shows "drop_semicolon (a @ n @ b) = a @ n @ drop_semicolon b"
proof (cases b rule: rev_cases)
  case Nil
  have "is_digit (last n)" using assms by (auto simp: list_all_iff)
  then have "last n \<noteq> CHR '';''" by (auto simp: is_digit_def)
  with Nil assms(2) show ?thesis by (simp add: drop_semicolon_def)
next
  case (snoc ys y)
  then show ?thesis by (simp add: drop_semicolon_def butlast_append)
qed

lemma rtrim_Cons: "rtrim (x # s) = [] \<or> hd (rtrim (x # s)) = x"
  by (cases "\<exists>y \<in> set (rev s). \<not> is_space y") (auto simp: rtrim_def dropWhile_append)

text \<open>
  Grouping: two statements that differ only in an unquoted number get the same fingerprint.
\<close>

theorem fingerprint_ignores_numbers:
  assumes "list_all is_digit n" "n \<noteq> []" "list_all is_digit m" "m \<noteq> []"
    and "a = [] \<or> \<not> is_word (last a)" "b = [] \<or> \<not> is_word (hd b)"
    and "CHR 0x27 \<notin> set a" "CHR 0x22 \<notin> set a"
  shows "sqlFingerprint (a @ n @ b) = sqlFingerprint (a @ m @ b)"
proof -
  let ?a = "ltrim a"
  let ?b = "replace_double (replace_single (drop_semicolon (rtrim b)))"
  have sub: "set ?a \<subseteq> set a" by (auto simp: ltrim_def dest: set_dropWhileD)
  have la: "?a = [] \<or> \<not> is_word (last ?a)"
    using assms(5) by (metis append_is_Nil_conv dropWhile_eq_Nil_conv last_appendR ltrim_def takeWhile_dropWhile_id)
  have hb: "?b = [] \<or> \<not> is_word (hd ?b)"
  proof -
    have q: "\<not> is_word (CHR ''?'')" by code_simp
    have 1: "rtrim b = [] \<or> \<not> is_word (hd (rtrim b))"
      using assms(6) rtrim_Cons [of "hd b" "tl b"] by (cases b) (auto simp: rtrim_def)
    have 2: "drop_semicolon (rtrim b) = [] \<or> \<not> is_word (hd (drop_semicolon (rtrim b)))"
      using 1 by (cases "rtrim b") (auto simp: drop_semicolon_def)
    have 3: "replace_single s = [] \<or> \<not> is_word (hd (replace_single s))" if "s = [] \<or> \<not> is_word (hd s)" for s
      using that q by (cases s) (auto split: option.splits)
    have 4: "replace_double s = [] \<or> \<not> is_word (hd (replace_double s))" if "s = [] \<or> \<not> is_word (hd s)" for s
      using that q by (cases s) (auto split: option.splits)
    show ?thesis by (rule 4 [OF 3 [OF 2]])
  qed
  have run: "replace_numbers (replace_double (replace_single (drop_semicolon (trim (a @ k @ b))))) =
      replace_numbers ?a @ ''?'' @ replace_numbers ?b" if k: "list_all is_digit k" "k \<noteq> []" for k
  proof -
    have nq: "CHR 0x27 \<notin> set (?a @ k)" "CHR 0x22 \<notin> set (?a @ k)"
      using sub assms(7,8) k(1) digit_not_quote by (auto simp: list_all_iff)
    have "drop_semicolon (trim (a @ k @ b)) = (?a @ k) @ drop_semicolon (rtrim b)"
      by (simp add: trim_number [OF k] drop_semicolon_number [OF k])
    then have "replace_double (replace_single (drop_semicolon (trim (a @ k @ b)))) = (?a @ k) @ ?b"
      using replace_single_prefix [OF nq(1)] replace_double_prefix [OF nq(2)] by metis
    then show ?thesis
      by (simp only: append_assoc replace_numbers_boundary [OF la] replace_numbers_number [OF k hb])
  qed
  have "a @ k @ b \<noteq> []" if "k \<noteq> []" for k using that by simp
  then show ?thesis
    using assms(2,4) by (simp add: sqlFingerprint_def Let_def run [OF assms(1,2)] run [OF assms(3,4)])
qed

lemma fingerprint_bound: "length (sqlFingerprint s) \<le> 200"
  by (simp add: sqlFingerprint_def Let_def)

section \<open>Application names\<close>

record app_name_options =
  an_appPrefix :: "string option"
  an_replayId :: "string option"

text \<open>
  \<open>makeAppNameBuilder\<close> of \<open>pg-wrap.ts\<close>; \<open>buildAppName\<close> of \<open>emit.ts\<close> and \<open>appNameFor\<close> of
  \<open>prisma.ts\<close> compute the same text.
\<close>

definition app_name :: "string \<Rightarrow> string \<Rightarrow> string \<Rightarrow> string" where
  "app_name pfx replayId eventId =
     (let raw = (if replayId \<noteq> [] then pfx @ replayId @ '':'' @ eventId else pfx @ eventId)
      in if length raw > 63 then take 63 raw else raw)"

definition makeAppNameBuilder :: "app_name_options \<Rightarrow> string \<Rightarrow> string option \<Rightarrow> string" where
  "makeAppNameBuilder opts eventId contextReplayId =
     app_name (case an_appPrefix opts of None \<Rightarrow> ''clv:'' | Some p \<Rightarrow> p)
       (case contextReplayId of Some r \<Rightarrow> r | None \<Rightarrow> (case an_replayId opts of None \<Rightarrow> [] | Some r \<Rightarrow> r)) eventId"

record parsed_app_name =
  pan_eventId :: string
  pan_replayId :: "string option"

definition parseClvAppName :: "string \<Rightarrow> string \<Rightarrow> parsed_app_name option" where
  "parseClvAppName appName pfx =
     (if \<not> startsWith appName pfx then None
      else (let tail = drop (length pfx) appName
            in if tail = [] then None
               else (case break_at (CHR '':'') tail of
                       None \<Rightarrow> Some \<lparr>pan_eventId = tail, pan_replayId = None\<rparr>
                     | Some (r, e) \<Rightarrow> Some \<lparr>pan_eventId = e, pan_replayId = Some r\<rparr>)))"

text \<open>
  C30. The observer's parser recovers both ids from a name that fits into the 63 characters
  Postgres keeps.
\<close>

theorem app_name_roundtrip:
  assumes "CHR '':'' \<notin> set r" "CHR '':'' \<notin> set e" "e \<noteq> []"
    and "length p + length r + 1 + length e \<le> 63"
  shows "parseClvAppName (app_name p r e) p =
    Some \<lparr>pan_eventId = e, pan_replayId = (if r = [] then None else Some r)\<rparr>"
proof (cases "r = []")
  case True
  have "break_at (CHR '':'') e = None" using assms(2) by (simp add: break_at_None_iff)
  with True assms(3,4) show ?thesis by (simp add: app_name_def parseClvAppName_def)
next
  case False
  have "break_at (CHR '':'') (r @ CHR '':'' # e) = Some (r, e)" using assms(1) by (rule break_at_append)
  with False assms(4) show ?thesis by (simp add: app_name_def parseClvAppName_def)
qed

theorem app_name_roundtrip_witness:
  "parseClvAppName (app_name ''clv:'' ''r1'' ''ev1'') ''clv:'' = Some \<lparr>pan_eventId = ''ev1'', pan_replayId = Some ''r1''\<rparr>"
  using app_name_roundtrip [of "''r1''" "''ev1''" "''clv:''"] by simp

text \<open>
  During a replay the ids never fit: with the default prefix, a replay id of 36 characters and an
  event id of 35, the name is cut and the parser returns only the first 22 characters of the event
  id.
\<close>

theorem replay_app_name_loses_event_id:
  assumes "length r = 36" "length e = 35" "CHR '':'' \<notin> set r"
  shows "parseClvAppName (app_name ''clv:'' r e) ''clv:'' =
    Some \<lparr>pan_eventId = take 22 e, pan_replayId = Some r\<rparr> \<and> take 22 e \<noteq> e"
proof -
  have n: "r \<noteq> []" using assms(1) by auto
  have "app_name ''clv:'' r e = take 63 (''clv:'' @ r @ '':'' @ e)"
    using n assms(1,2) by (simp add: app_name_def)
  also have "\<dots> = ''clv:'' @ r @ CHR '':'' # take 22 e" using assms(1) by (simp add: numeral_eq_Suc)
  finally have name: "app_name ''clv:'' r e = ''clv:'' @ r @ CHR '':'' # take 22 e" .
  have "length (take 22 e) \<noteq> length e" using assms(2) by simp
  then have "take 22 e \<noteq> e" by metis
  moreover have "break_at (CHR '':'') (r @ CHR '':'' # take 22 e) = Some (r, take 22 e)"
    using assms(3) by (rule break_at_append)
  ultimately show ?thesis unfolding name parseClvAppName_def by (simp add: startsWith_def)
qed

subsection \<open>Quoting\<close>

definition sql_escape :: "string \<Rightarrow> string" where
  "sql_escape s = concat (map (\<lambda>c. if c = CHR 0x27 then [c, c] else [c]) s)"

definition set_statement :: "string \<Rightarrow> string" where
  "set_statement appName = ''SET application_name = '' @ [CHR 0x27] @ sql_escape appName @ [CHR 0x27]"

text \<open>The value of a Postgres string literal, read after its opening quote, and what follows it.\<close>

fun read_literal :: "string \<Rightarrow> (string \<times> string) option" where
  "read_literal [] = None"
| "read_literal [c] = (if c = CHR 0x27 then Some ([], []) else None)"
| "read_literal (c # d # rest) =
     (if c = CHR 0x27
      then (if d = CHR 0x27 then map_option (\<lambda>(v, r). (CHR 0x27 # v, r)) (read_literal rest) else Some ([], d # rest))
      else map_option (\<lambda>(v, r). (c # v, r)) (read_literal (d # rest)))"

lemma read_escaped: "read_literal (sql_escape s @ [CHR 0x27]) = Some (s, [])"
proof (induction s)
  case (Cons c s)
  show ?case
  proof (cases "c = CHR 0x27")
    case True
    with Cons show ?thesis by (simp add: sql_escape_def)
  next
    case False
    obtain d rest where "sql_escape s @ [CHR 0x27] = d # rest" by (cases "sql_escape s") auto
    with False Cons show ?thesis by (simp add: sql_escape_def)
  qed
qed (simp add: sql_escape_def)

text \<open>
  No event or replay id can break out of the statement: the server reads the literal back as
  exactly the application name, with nothing left over.
\<close>

theorem set_statement_no_injection:
  "\<exists>lit. set_statement appName = ''SET application_name = '' @ [CHR 0x27] @ lit \<and> read_literal lit = Some (appName, [])"
  unfolding set_statement_def using read_escaped by blast

end
