(* ===== verification/Db.thy ===== *)
theory Db
  imports Capture Sql
begin

text \<open>
  Database instrumentation (\<open>sdk-node/src/db\<close>): the emission of observations (\<open>emit.ts\<close>) and the
  wrapped \<open>pg\<close> client (\<open>pg-wrap.ts\<close>) with the adapters that install it (\<open>postgres.ts\<close>,
  \<open>knex.ts\<close>).

  A connection runs one statement at a time, so a connection is a state that each statement
  updates; its history records every user statement with the \<open>application_name\<close> the server had when
  it ran. Clock readings and the outcomes of statements are arguments, and so is what a statement of the application does to
  that name: it may set or reset it, or roll back the transaction in which it was set.
\<close>

section \<open>Emitting observations\<close>

record emit_config =
  em_slowThresholdMs :: "rat option"
  em_replayId :: "string option"
  em_appPrefix :: "string option"

record db_input =
  di_adapter :: string
  di_startNs :: int
  di_endNs :: int
  di_queryText :: string
  di_fingerprint :: string
  di_metadata :: "string dict"
  di_rowsAffected :: "int option"

definition emitDbObservation :: "emit_config \<Rightarrow> db_input \<Rightarrow> scope \<Rightarrow> string \<Rightarrow> int \<Rightarrow> event list" where
  "emitDbObservation cfg i scope newId nowMs =
     (case currentEventId scope of
        None \<Rightarrow> []
      | Some eventId \<Rightarrow>
          if eventId = [] then []
          else
            (let replayId = (case currentReplayId scope of Some r \<Rightarrow> Some r | None \<Rightarrow> em_replayId cfg);
                 durationNs = di_endNs i - di_startNs i;
                 thresholdNs = max 0 \<lfloor>case em_slowThresholdMs cfg of None \<Rightarrow> 0 | Some t \<Rightarrow> t\<rfloor> * 1000000
             in if durationNs < thresholdNs then []
                else [make_event newId (nowMs * 1000000 - durationNs) (di_adapter i) (di_metadata i) []
                  (DbPayload
                    \<lparr>de_queryFingerprint = di_fingerprint i, de_queryText = di_queryText i,
                     de_durationNs = durationNs, de_rowsAffected = (case di_rowsAffected i of None \<Rightarrow> 0 | Some n \<Rightarrow> n),
                     de_applicationName = app_name (case em_appPrefix cfg of None \<Rightarrow> ''clv:'' | Some p \<Rightarrow> p)
                       (case replayId of None \<Rightarrow> [] | Some r \<Rightarrow> r) eventId,
                     de_causedByEventId = eventId\<rparr>)]))"

section \<open>The wrapped pg client\<close>

record pg_conn =
  pg_wrapped :: bool
  pg_lastPinned :: "string option"
  pg_appName :: string
  pg_history :: "(string \<times> string) list"
  pg_events :: "event list"

text \<open>What a statement does: its row count, if the driver reports one, or an error.\<close>

type_synonym pg_result = "string + int option"

record wrap_options =
  wo_names :: app_name_options
  wo_emit :: "(string \<times> emit_config) option"

datatype sql_arg = SqlText string | SqlConfig "string option" "string option" | SqlOther

definition extractSqlText :: "sql_arg \<Rightarrow> string" where
  "extractSqlText a =
     (case a of SqlText s \<Rightarrow> s | SqlConfig (Some t) n \<Rightarrow> t | SqlConfig None (Some n) \<Rightarrow> n | _ \<Rightarrow> [])"

definition truncate_text :: "string \<Rightarrow> nat \<Rightarrow> string" where
  "truncate_text s m = (if length s \<le> m then s else take m s)"

definition pin_key :: "scope \<Rightarrow> string option" where
  "pin_key scope =
     (case currentEventId scope of
        None \<Rightarrow> None
      | Some e \<Rightarrow> if e = [] then None
          else Some ((case currentReplayId scope of None \<Rightarrow> [] | Some r \<Rightarrow> r) @ ''|'' @ e))"

text \<open>Running a user statement on the connection; \<open>renames\<close> is the name it leaves, if it changes it.\<close>

definition pg_run :: "sql_arg \<Rightarrow> string option \<Rightarrow> pg_conn \<Rightarrow> pg_conn" where
  "pg_run a renames c = c\<lparr>pg_history := pg_history c @ [(pg_appName c, extractSqlText a)],
     pg_appName := (case renames of None \<Rightarrow> pg_appName c | Some n \<Rightarrow> n)\<rparr>"

definition observe :: "string \<Rightarrow> emit_config \<Rightarrow> sql_arg \<Rightarrow> pg_result \<Rightarrow> scope \<Rightarrow> string \<Rightarrow> int \<Rightarrow> int \<Rightarrow> int \<Rightarrow> event list" where
  "observe adapter cfg a res scope newId nowMs startNs endNs =
     emitDbObservation cfg
       \<lparr>di_adapter = adapter, di_startNs = startNs, di_endNs = endNs,
        di_queryText = truncate_text (extractSqlText a) 1000, di_fingerprint = sqlFingerprint (extractSqlText a),
        di_metadata = (case res of Inl e \<Rightarrow> [(''status'', ''error'')] | Inr n \<Rightarrow> []),
        di_rowsAffected = (case res of Inl e \<Rightarrow> None | Inr n \<Rightarrow> n)\<rparr> scope newId nowMs"

text \<open>
  \<open>patchedQuery\<close> in promise mode: pin the name if the scope changed, run the statement whether or not
  that worked, and report it. The result is the driver's.
\<close>

definition patchedQuery :: "wrap_options \<Rightarrow> scope \<Rightarrow> sql_arg \<Rightarrow> string option \<Rightarrow> pg_result \<Rightarrow> string option \<Rightarrow> string \<Rightarrow> int \<Rightarrow> int \<Rightarrow> int
    \<Rightarrow> pg_conn \<Rightarrow> pg_result \<times> pg_conn" where
  "patchedQuery opts scope a setFails res renames newId nowMs startNs endNs c =
     (let pinKey = pin_key scope;
          needsSet = (pinKey \<noteq> None \<and> pinKey \<noteq> pg_lastPinned c)
      in if \<not> needsSet \<and> wo_emit opts = None then (res, pg_run a renames c)
         else
           (let c = (if needsSet \<and> setFails = None
                     then c\<lparr>pg_lastPinned := pinKey,
                            pg_appName := makeAppNameBuilder (wo_names opts)
                              (case currentEventId scope of None \<Rightarrow> [] | Some e \<Rightarrow> e) (currentReplayId scope)\<rparr>
                     else c);
                c = pg_run a renames c
            in case wo_emit opts of
                 None \<Rightarrow> (res, c)
               | Some (adapter, cfg) \<Rightarrow>
                   (res, c\<lparr>pg_events := pg_events c @ observe adapter cfg a res scope newId nowMs startNs endNs\<rparr>)))"

text \<open>
  \<open>patchedQuery\<close> in callback mode, which \<open>pool.query\<close> uses. The statement runs under the same name as in
  promise mode. The report differs: it is made when the driver calls back, so the scope it reads is
  the one active there (an argument: which one it is depends on the driver), and its clock
  was started when the call was made, before the name was set.
\<close>

datatype pg_raw = RawOther | RawObject "int option"

primrec rowsAffectedFromPgResult :: "pg_raw \<Rightarrow> int option" where
  "rowsAffectedFromPgResult RawOther = None"
| "rowsAffectedFromPgResult (RawObject rowCount) = rowCount"

definition wrapCallbackForEmit :: "string \<Rightarrow> emit_config \<Rightarrow> sql_arg \<Rightarrow> int
    \<Rightarrow> string option \<Rightarrow> pg_raw \<Rightarrow> scope \<Rightarrow> string \<Rightarrow> int \<Rightarrow> int \<Rightarrow> event list" where
  "wrapCallbackForEmit adapter cfg a startNs err res cbScope newId nowMs endNs =
     emitDbObservation cfg
       \<lparr>di_adapter = adapter, di_startNs = startNs, di_endNs = endNs,
        di_queryText = truncate_text (extractSqlText a) 1000, di_fingerprint = sqlFingerprint (extractSqlText a),
        di_metadata = (case err of Some e \<Rightarrow> [(''status'', ''error'')] | None \<Rightarrow> []),
        di_rowsAffected = rowsAffectedFromPgResult res\<rparr> cbScope newId nowMs"

definition patchedQuery_callback :: "wrap_options \<Rightarrow> scope \<Rightarrow> sql_arg \<Rightarrow> string option \<Rightarrow> string option \<Rightarrow> pg_raw
    \<Rightarrow> string option \<Rightarrow> scope \<Rightarrow> string \<Rightarrow> int \<Rightarrow> int \<Rightarrow> int \<Rightarrow> pg_conn \<Rightarrow> (string option \<times> pg_raw) \<times> pg_conn" where
  "patchedQuery_callback opts scope a setFails err res renames cbScope newId nowMs callNs endNs c =
     (let pinKey = pin_key scope;
          needsSet = (pinKey \<noteq> None \<and> pinKey \<noteq> pg_lastPinned c)
      in if \<not> needsSet \<and> wo_emit opts = None then ((err, res), pg_run a renames c)
         else
           (let c = (if needsSet \<and> setFails = None
                     then c\<lparr>pg_lastPinned := pinKey,
                            pg_appName := makeAppNameBuilder (wo_names opts)
                              (case currentEventId scope of None \<Rightarrow> [] | Some e \<Rightarrow> e) (currentReplayId scope)\<rparr>
                     else c);
                c = pg_run a renames c;
                reported = (case wo_emit opts of
                              None \<Rightarrow> []
                            | Some (adapter, cfg) \<Rightarrow>
                                wrapCallbackForEmit adapter cfg a callNs err res cbScope newId nowMs endNs)
            in ((err, res), c\<lparr>pg_events := pg_events c @ reported\<rparr>)))"

definition wrapPgClientWithAppName :: "pg_conn \<Rightarrow> pg_conn" where
  "wrapPgClientWithAppName c = (if pg_wrapped c then c else c\<lparr>pg_wrapped := True, pg_lastPinned := None\<rparr>)"

text \<open>
  The two modes compared. The caller's result is the driver's in both. A driver that calls back in the scope of the
  caller makes them agree; one that calls back outside every scope loses the observation, though not the statement or
  its name.
\<close>

definition outcome_of :: "string option \<Rightarrow> pg_raw \<Rightarrow> pg_result" where
  "outcome_of err res = (case err of Some e \<Rightarrow> Inl e | None \<Rightarrow> Inr (rowsAffectedFromPgResult res))"

lemma callback_observes:
  assumes "err \<noteq> None \<Longrightarrow> rowsAffectedFromPgResult res = None"
  shows "wrapCallbackForEmit adapter cfg a t err res s newId nowMs endNs = observe adapter cfg a (outcome_of err res) s newId nowMs t endNs"
  using assms by (cases err) (simp_all add: wrapCallbackForEmit_def observe_def outcome_of_def)

lemma patchedQuery_callback_agrees:
  assumes "err \<noteq> None \<Longrightarrow> rowsAffectedFromPgResult res = None"
  shows "snd (patchedQuery_callback opts s a setFails err res renames s newId nowMs t endNs c)
       = snd (patchedQuery opts s a setFails (outcome_of err res) renames newId nowMs t endNs c)"
  by (simp add: patchedQuery_callback_def patchedQuery_def Let_def callback_observes [OF assms] split: option.splits prod.splits)

lemma patchedQuery_callback_result [simp]:
  "fst (patchedQuery_callback opts s a setFails err res renames s' newId nowMs t endNs c) = (err, res)"
  by (simp add: patchedQuery_callback_def Let_def)

lemma callback_scope_only_reports:
  "(snd (patchedQuery_callback opts s a setFails err res renames s' newId nowMs t endNs c))\<lparr>pg_events := evs\<rparr>
   = (snd (patchedQuery_callback opts s a setFails err res renames s'' newId nowMs t endNs c))\<lparr>pg_events := evs\<rparr>"
  by (simp add: patchedQuery_callback_def Let_def)

lemma callback_outside_scope_unreported:
  "pg_events (snd (patchedQuery_callback opts s a setFails err res renames None newId nowMs t endNs c)) = pg_events c"
  by (auto simp: patchedQuery_callback_def Let_def wrapCallbackForEmit_def emitDbObservation_def currentEventId_def pg_run_def
      split: option.splits prod.splits)

text \<open>
  In callback mode the time the name took to be set counts as time of the statement: with the name set between
  \<open>t\<close> and \<open>t'\<close> the event of the promise mode lasts from \<open>t'\<close>, that of the callback mode from \<open>t\<close>.
\<close>

lemma emitted_duration:
  assumes "e \<in> set (emitDbObservation cfg i s newId nowMs)" "ev_payload e = DbPayload d"
  shows "de_durationNs d = di_endNs i - di_startNs i"
proof (cases "currentEventId s")
  case None
  with assms(1) show ?thesis by (simp add: emitDbObservation_def)
next
  case (Some eventId)
  with assms show ?thesis by (force simp: emitDbObservation_def Let_def make_event_def split: if_split_asm)
qed

lemma callback_duration_includes_set:
  assumes "e \<in> set (wrapCallbackForEmit adapter cfg a t err res s newId nowMs endNs)" "ev_payload e = DbPayload d"
    and "e' \<in> set (observe adapter cfg a r s newId nowMs t' endNs)" "ev_payload e' = DbPayload d'"
  shows "de_durationNs d = de_durationNs d' + (t' - t)"
  using emitted_duration [OF assms(1) [unfolded wrapCallbackForEmit_def] assms(2)]
    emitted_duration [OF assms(3) [unfolded observe_def] assms(4)] by simp

text \<open>A statement of a workload: its scope and what happens to it.\<close>

record pg_call =
  call_scope :: scope
  call_sql :: sql_arg
  call_setFails :: "string option"
  call_result :: pg_result
  call_renames :: "string option"

definition pg_step :: "wrap_options \<Rightarrow> pg_call \<Rightarrow> pg_conn \<Rightarrow> pg_conn" where
  "pg_step opts q c = snd (patchedQuery opts (call_scope q) (call_sql q) (call_setFails q) (call_result q) (call_renames q) [] 0 0 0 c)"

definition scope_ok :: "scope \<Rightarrow> bool" where
  "scope_ok s \<longleftrightarrow> (case s of None \<Rightarrow> True
     | Some x \<Rightarrow> ctx_eventId x \<noteq> [] \<and> CHR ''|'' \<notin> set (ctx_eventId x) \<and> ctx_replayId x \<noteq> Some [])"

definition name_of :: "wrap_options \<Rightarrow> event_context \<Rightarrow> string" where
  "name_of opts x = makeAppNameBuilder (wo_names opts) (ctx_eventId x) (ctx_replayId x)"

definition pinned_ok :: "wrap_options \<Rightarrow> pg_conn \<Rightarrow> bool" where
  "pinned_ok opts c \<longleftrightarrow> (\<forall>x. scope_ok (Some x) \<and> pg_lastPinned c = pin_key (Some x) \<longrightarrow> pg_appName c = name_of opts x)"

lemma pin_key_inject:
  assumes "scope_ok (Some x)" "scope_ok (Some y)" "pin_key (Some x) = pin_key (Some y)"
  shows "ctx_eventId x = ctx_eventId y \<and> ctx_replayId x = ctx_replayId y"
proof -
  let ?r = "\<lambda>x. case ctx_replayId x of None \<Rightarrow> [] | Some r \<Rightarrow> r"
  have "?r x @ CHR ''|'' # ctx_eventId x = ?r y @ CHR ''|'' # ctx_eventId y"
    using assms by (simp add: pin_key_def scope_ok_def currentEventId_def currentReplayId_def)
  with bar_split_last [of "ctx_eventId x" "ctx_eventId y" "?r x" "?r y"] assms(1,2)
  have "?r x = ?r y" "ctx_eventId x = ctx_eventId y" by (simp_all add: scope_ok_def)
  with assms(1,2) show ?thesis by (auto simp: scope_ok_def split: option.splits)
qed

lemma pg_step_pinned:
  assumes "pinned_ok opts c" "scope_ok (call_scope q)" "call_renames q = None"
  shows "pinned_ok opts (pg_step opts q c)"
proof -
  have keep: "pinned_ok opts (c\<lparr>pg_lastPinned := pin_key (Some x), pg_appName := name_of opts x\<rparr>)" if "scope_ok (Some x)" for x
    unfolding pinned_ok_def
    using pin_key_inject [OF that] by (auto simp: name_of_def)
  have run: "pinned_ok opts (pg_run a None c') = pinned_ok opts c'" "pinned_ok opts (c'\<lparr>pg_events := es\<rparr>) = pinned_ok opts c'" for a c' es
    by (simp_all add: pinned_ok_def pg_run_def)
  show ?thesis
  proof (cases "call_scope q")
    case None
    then have "pin_key (call_scope q) = None" by (simp add: pin_key_def currentEventId_def)
    with assms(1,3) show ?thesis
      by (simp add: pg_step_def patchedQuery_def Let_def run split: option.splits prod.splits)
  next
    case (Some x)
    have "makeAppNameBuilder (wo_names opts) (ctx_eventId x) (ctx_replayId x) = name_of opts x" by (simp add: name_of_def)
    with assms keep [of x] Some show ?thesis
      by (simp add: pg_step_def patchedQuery_def Let_def run currentEventId_def currentReplayId_def
          split: option.splits prod.splits)
  qed
qed

text \<open>
  The reference: a wrapper that remembers nothing and sets the name before every statement of an event. A statement then runs
  under the name of its event when its \<open>SET\<close> works, and else, or outside every event, under the name the one before it had.
\<close>

fun attributed :: "wrap_options \<Rightarrow> string \<Rightarrow> pg_call list \<Rightarrow> string list" where
  "attributed opts name [] = []"
| "attributed opts name (q # qs) =
     (let name = (case call_scope q of Some x \<Rightarrow> if call_setFails q = None then name_of opts x else name | None \<Rightarrow> name)
      in name # attributed opts name qs)"

lemma pg_step_history:
  assumes "pinned_ok opts c" "scope_ok (call_scope q)" "call_renames q = None"
    and "n = (case call_scope q of Some x \<Rightarrow> if call_setFails q = None then name_of opts x else pg_appName c | None \<Rightarrow> pg_appName c)"
  shows "pg_history (pg_step opts q c) = pg_history c @ [(n, extractSqlText (call_sql q))] \<and> pg_appName (pg_step opts q c) = n"
proof (cases "call_scope q")
  case None
  with assms(3,4) show ?thesis
    by (simp add: pg_step_def patchedQuery_def Let_def pin_key_def currentEventId_def pg_run_def
        split: option.splits prod.splits)
next
  case (Some x)
  show ?thesis
  proof (cases "pin_key (Some x) \<noteq> None \<and> pin_key (Some x) \<noteq> pg_lastPinned c")
    case True
    with Some assms(3,4) show ?thesis
      by (auto simp: pg_step_def patchedQuery_def Let_def pg_run_def currentEventId_def currentReplayId_def name_of_def
          split: option.splits prod.splits)
  next
    case False
    then have "pg_appName c = name_of opts x"
      using assms(1,2) Some by (auto simp: pinned_ok_def pin_key_def scope_ok_def currentEventId_def)
    with Some False assms(3,4) show ?thesis
      by (auto simp: pg_step_def patchedQuery_def Let_def pg_run_def split: option.splits prod.splits)
  qed
qed

text \<open>
  C31. Attribution on a reused connection. The wrapper sets the application name only when the event has changed since the last
  \<open>SET\<close> that worked; still, however events alternate and whichever \<open>SET\<close>s fail, the statements run in the order they were
  made, none lost or doubled, and under the very names a wrapper would give that sets the name before each: the event's own when its \<open>SET\<close>
  works, and else the name the statement before it had, which may be another event's. Assumed: the calls are
  awaited one after another, the statements themselves do not change the name, event ids are not empty
  and have no bar, and no replay id is the empty string.
\<close>

theorem pg_attribution:
  assumes "\<forall>q \<in> set qs. scope_ok (call_scope q) \<and> call_renames q = None"
  shows "pg_history (fold (pg_step opts) qs
        \<lparr>pg_wrapped = True, pg_lastPinned = None, pg_appName = server, pg_history = [], pg_events = []\<rparr>) =
      zip (attributed opts server qs) (map (\<lambda>q. extractSqlText (call_sql q)) qs) \<and>
    length (attributed opts server qs) = length qs"
proof -
  have "pg_history (fold (pg_step opts) qs c) =
      pg_history c @ zip (attributed opts (pg_appName c) qs) (map (\<lambda>q. extractSqlText (call_sql q)) qs)"
    if "pinned_ok opts c" "\<forall>q \<in> set qs. scope_ok (call_scope q) \<and> call_renames q = None" for c qs
    using that
  proof (induction qs arbitrary: c)
    case (Cons q qs)
    from Cons.prems have q: "scope_ok (call_scope q)" "call_renames q = None" by auto
    note step = pg_step_history [OF Cons.prems(1) q refl]
    from Cons.IH [OF pg_step_pinned [OF Cons.prems(1) q]] Cons.prems(2) step show ?case by (simp add: Let_def)
  qed simp
  from this [OF _ assms, of "\<lparr>pg_wrapped = True, pg_lastPinned = None, pg_appName = server, pg_history = [], pg_events = []\<rparr>"]
  have "pg_history (fold (pg_step opts) qs
        \<lparr>pg_wrapped = True, pg_lastPinned = None, pg_appName = server, pg_history = [], pg_events = []\<rparr>) =
      zip (attributed opts server qs) (map (\<lambda>q. extractSqlText (call_sql q)) qs)"
    by (auto simp: pinned_ok_def pin_key_def scope_ok_def currentEventId_def)
  moreover have "length (attributed opts name qs) = length qs" for name
    by (induction qs arbitrary: name) (simp_all add: Let_def)
  ultimately show ?thesis by blast
qed

definition fresh_conn :: "string \<Rightarrow> pg_conn" where
  "fresh_conn server = \<lparr>pg_wrapped = True, pg_lastPinned = None, pg_appName = server, pg_history = [], pg_events = []\<rparr>"

definition call_in :: "string \<Rightarrow> string \<Rightarrow> pg_call" where
  "call_in e sql = \<lparr>call_scope = Some \<lparr>ctx_eventId = e, ctx_replayId = None\<rparr>, call_sql = SqlText sql,
     call_setFails = None, call_result = Inr None, call_renames = None\<rparr>"

definition default_names :: wrap_options where
  "default_names = \<lparr>wo_names = \<lparr>an_appPrefix = None, an_replayId = None\<rparr>, wo_emit = None\<rparr>"

theorem pg_attribution_witness:
  "pg_history (fold (pg_step default_names) [call_in ''e1'' ''q1'', call_in ''e2'' ''q2'', (call_in ''e3'' ''q3'')\<lparr>call_setFails := Some ''x''\<rparr>]
     (fresh_conn [])) = [(''clv:e1'', ''q1''), (''clv:e2'', ''q2''), (''clv:e2'', ''q3'')]"
proof -
  let ?qs = "[call_in ''e1'' ''q1'', call_in ''e2'' ''q2'', (call_in ''e3'' ''q3'')\<lparr>call_setFails := Some ''x''\<rparr>]"
  have "\<forall>q \<in> set ?qs. scope_ok (call_scope q) \<and> call_renames q = None" by (simp add: call_in_def scope_ok_def)
  from pg_attribution [OF this, of default_names "[]"]
  have "pg_history (fold (pg_step default_names) ?qs (fresh_conn [])) =
      zip (attributed default_names [] ?qs) (map (\<lambda>q. extractSqlText (call_sql q)) ?qs)"
    by (simp only: fresh_conn_def)
  also have "\<dots> = [(''clv:e1'', ''q1''), (''clv:e2'', ''q2''), (''clv:e2'', ''q3'')]" by code_simp
  finally show ?thesis .
qed

text \<open>
  A statement that changes the name itself breaks the attribution of what follows in the same event: when the transaction in which
  the name was set is rolled back, the server takes the \<open>SET\<close> back, but \<open>lastPinned\<close> stays, and the next statements of the event
  run under the old name.
\<close>

lemma rollback_undoes_name:
  assumes "scope_ok (Some x)" "call_scope q = Some x" "call_scope q' = Some x"
    and "call_setFails q = None" "call_renames q = Some old"
  shows "last (pg_history (pg_step opts q' (pg_step opts q (fresh_conn server)))) = (old, extractSqlText (call_sql q'))"
  using assms
  by (auto simp: pg_step_def patchedQuery_def Let_def pg_run_def pin_key_def scope_ok_def currentEventId_def fresh_conn_def
      split: option.splits prod.splits)

text \<open>
  A statement made outside every event keeps the name of whatever event used the connection
  last, so the observer attributes it to that event.
\<close>

theorem unscoped_statement_misattributed:
  assumes "scope_ok (Some x)" "call_scope q = Some x" "call_setFails q = None" "call_scope q' = None"
    and "call_renames q = None" "call_renames q' = None"
  shows "snd (last (pg_history (pg_step opts q' (pg_step opts q
      \<lparr>pg_wrapped = True, pg_lastPinned = None, pg_appName = server, pg_history = [], pg_events = []\<rparr>)))) =
      extractSqlText (call_sql q') \<and>
    fst (last (pg_history (pg_step opts q' (pg_step opts q
      \<lparr>pg_wrapped = True, pg_lastPinned = None, pg_appName = server, pg_history = [], pg_events = []\<rparr>)))) =
      makeAppNameBuilder (wo_names opts) (ctx_eventId x) (ctx_replayId x)"
proof -
  let ?c = "\<lparr>pg_wrapped = True, pg_lastPinned = None, pg_appName = server, pg_history = [], pg_events = []\<rparr>"
  have p: "pinned_ok opts ?c" by (auto simp: pinned_ok_def pin_key_def scope_ok_def currentEventId_def)
  have q: "scope_ok (call_scope q)" "scope_ok (call_scope q')" using assms by (simp_all add: scope_ok_def)
  note step = pg_step_history [OF p q(1) assms(5) refl]
  from pg_step_history [OF pg_step_pinned [OF p q(1) assms(5)] q(2) assms(6) refl] step assms(2-4)
  show ?thesis by (simp add: name_of_def)
qed

subsection \<open>Overlapping statements\<close>

text \<open>
  The driver queues statements per connection and runs them in order, and \<open>patchedQuery\<close> is two of
  them: the \<open>SET\<close> is queued when the call is made, the statement itself only when the \<open>SET\<close> has
  returned. A call decides from \<open>lastPinned\<close> as it is when the call is made.
\<close>

datatype pg_item = SetItem pg_call | UserItem pg_call

record pg_session =
  ps_conn :: pg_conn
  ps_queue :: "pg_item list"

definition needs_set :: "pg_call \<Rightarrow> pg_conn \<Rightarrow> bool" where
  "needs_set q c \<longleftrightarrow> pin_key (call_scope q) \<noteq> None \<and> pin_key (call_scope q) \<noteq> pg_lastPinned c"

definition pg_submit :: "pg_call \<Rightarrow> pg_session \<Rightarrow> pg_session" where
  "pg_submit q s =
     s\<lparr>ps_queue := ps_queue s @ [if needs_set q (ps_conn s) then SetItem q else UserItem q]\<rparr>"

definition serve_set :: "wrap_options \<Rightarrow> pg_call \<Rightarrow> pg_conn \<Rightarrow> pg_conn" where
  "serve_set opts q c =
     (if call_setFails q = None
      then c\<lparr>pg_lastPinned := pin_key (call_scope q),
             pg_appName := makeAppNameBuilder (wo_names opts)
               (case currentEventId (call_scope q) of None \<Rightarrow> [] | Some e \<Rightarrow> e) (currentReplayId (call_scope q))\<rparr>
      else c)"

definition serve_user :: "wrap_options \<Rightarrow> pg_call \<Rightarrow> pg_conn \<Rightarrow> pg_conn" where
  "serve_user opts q c =
     (let c = pg_run (call_sql q) (call_renames q) c
      in case wo_emit opts of
           None \<Rightarrow> c
         | Some (adapter, cfg) \<Rightarrow>
             c\<lparr>pg_events := pg_events c @ observe adapter cfg (call_sql q) (call_result q) (call_scope q) [] 0 0 0\<rparr>)"

definition pg_serve :: "wrap_options \<Rightarrow> pg_session \<Rightarrow> pg_session" where
  "pg_serve opts s =
     (case ps_queue s of
        [] \<Rightarrow> s
      | SetItem q # rest \<Rightarrow> \<lparr>ps_conn = serve_set opts q (ps_conn s), ps_queue = rest @ [UserItem q]\<rparr>
      | UserItem q # rest \<Rightarrow> \<lparr>ps_conn = serve_user opts q (ps_conn s), ps_queue = rest\<rparr>)"

text \<open>A caller that waits for each statement before it makes the next.\<close>

definition pg_await :: "wrap_options \<Rightarrow> pg_call \<Rightarrow> pg_session \<Rightarrow> pg_session" where
  "pg_await opts q s = pg_serve opts (pg_serve opts (pg_submit q s))"

lemma serve_user_step:
  "serve_user opts q (if needs_set q c then serve_set opts q c else c) = pg_step opts q c"
  by (auto simp: serve_user_def serve_set_def needs_set_def pg_step_def patchedQuery_def Let_def
      split: option.splits prod.splits)

lemma pg_await_step:
  assumes "ps_queue s = []"
  shows "pg_await opts q s = s\<lparr>ps_conn := pg_step opts q (ps_conn s), ps_queue := []\<rparr>"
  unfolding pg_await_def pg_submit_def pg_serve_def
  using assms serve_user_step [of opts q "ps_conn s"] by (cases "needs_set q (ps_conn s)") simp_all

text \<open>
  The queue refines the one-step wrapper: for a caller that awaits every statement, the connection
  goes through exactly the states of \<open>pg_step\<close>, and nothing stays queued.
\<close>

lemma pg_await_refines:
  assumes "ps_queue s = []"
  shows "ps_conn (fold (pg_await opts) qs s) = fold (pg_step opts) qs (ps_conn s) \<and>
    ps_queue (fold (pg_await opts) qs s) = []"
  using assms by (induction qs arbitrary: s) (simp_all add: pg_await_step)

text \<open>
  Without that discipline the names are wrong: when two calls of different events overlap on one
  connection, both statements run after both \<open>SET\<close>s, so the first one runs under the name of the
  second event.
\<close>

theorem overlapping_statements_share_name:
  assumes "scope_ok (Some x)" "scope_ok (Some y)" "call_scope q = Some x" "call_scope q' = Some y"
    and "call_setFails q = None" "call_setFails q' = None" "call_renames q = None"
    and "ps_queue s = []" "pg_lastPinned (ps_conn s) = None" "pg_history (ps_conn s) = []"
  shows "pg_history (ps_conn ((pg_serve opts ^^ 4) (pg_submit q' (pg_submit q s)))) =
    [(makeAppNameBuilder (wo_names opts) (ctx_eventId y) (ctx_replayId y), extractSqlText (call_sql q)),
     (makeAppNameBuilder (wo_names opts) (ctx_eventId y) (ctx_replayId y), extractSqlText (call_sql q'))]"
proof -
  have "needs_set q (ps_conn s)" "needs_set q' (ps_conn s)"
    using assms(1-4,9) by (auto simp: needs_set_def pin_key_def scope_ok_def currentEventId_def)
  then have "ps_conn ((pg_serve opts ^^ 4) (pg_submit q' (pg_submit q s))) =
      serve_user opts q' (serve_user opts q (serve_set opts q' (serve_set opts q (ps_conn s))))"
    using assms(8) by (simp add: eval_nat_numeral pg_submit_def pg_serve_def)
  with assms(3-7,10) show ?thesis
    by (simp add: serve_user_def serve_set_def pg_run_def currentEventId_def currentReplayId_def Let_def
        split: option.splits prod.splits)
qed

theorem overlapping_statements_share_name_witness:
  "pg_history (ps_conn ((pg_serve default_names ^^ 4)
     (pg_submit (call_in ''e2'' ''q2'') (pg_submit (call_in ''e1'' ''q1'') \<lparr>ps_conn = fresh_conn [], ps_queue = []\<rparr>)))) =
   [(makeAppNameBuilder (wo_names default_names) ''e2'' None, ''q1''),
    (makeAppNameBuilder (wo_names default_names) ''e2'' None, ''q2'')]"
  using overlapping_statements_share_name [of "\<lparr>ctx_eventId = ''e1'', ctx_replayId = None\<rparr>"
      "\<lparr>ctx_eventId = ''e2'', ctx_replayId = None\<rparr>" "call_in ''e1'' ''q1''" "call_in ''e2'' ''q2''"
      "\<lparr>ps_conn = fresh_conn [], ps_queue = []\<rparr>" default_names]
  by (simp add: call_in_def scope_ok_def fresh_conn_def extractSqlText_def)

section \<open>Installing the wrapper\<close>

definition isPostgresDriver :: "string \<Rightarrow> bool" where
  "isPostgresDriver name \<longleftrightarrow> toLowerCase name \<in> {''pg'', ''pgnative'', ''postgres'', ''postgresql''}"

text \<open>A pool: its open connections (\<open>None\<close> for one that has no \<open>query\<close>), and whether new ones are wrapped.\<close>

record pg_pool =
  pool_driver :: string
  pool_conns :: "pg_conn option list"
  pool_hooked :: bool

definition wrapExistingPoolConnections :: "pg_pool \<Rightarrow> pg_pool" where
  "wrapExistingPoolConnections p = p\<lparr>pool_conns := map (map_option wrapPgClientWithAppName) (pool_conns p)\<rparr>"

definition instrumentKnex :: "pg_pool \<Rightarrow> pg_pool" where
  "instrumentKnex p =
     (if \<not> isPostgresDriver (pool_driver p) then p
      else wrapExistingPoolConnections (p\<lparr>pool_hooked := True\<rparr>))"

text \<open>\<open>instrumentPg\<close> only hooks the connections to come.\<close>

definition instrumentPg :: "pg_pool \<Rightarrow> pg_pool" where
  "instrumentPg p = p\<lparr>pool_hooked := True\<rparr>"

definition pool_connect :: "pg_conn option \<Rightarrow> pg_pool \<Rightarrow> pg_pool" where
  "pool_connect c p =
     p\<lparr>pool_conns := pool_conns p @ [if pool_hooked p then map_option wrapPgClientWithAppName c else c]\<rparr>"

definition uninstall_pool :: "pg_pool \<Rightarrow> pg_pool" where
  "uninstall_pool p = p\<lparr>pool_hooked := False\<rparr>"

text \<open>
  After \<open>instrumentKnex\<close> on a Postgres driver every connection is wrapped, the ones that were
  open before and the ones opened later, and instrumenting twice changes nothing more; on another
  driver nothing is touched.
\<close>

theorem instrumentKnex_covers_pool:
  "(isPostgresDriver (pool_driver p) \<longrightarrow>
     (\<forall>c. Some c \<in> set (pool_conns (fold pool_connect cs (instrumentKnex p))) \<longrightarrow> pg_wrapped c) \<and>
     instrumentKnex (fold pool_connect cs (instrumentKnex p)) = fold pool_connect cs (instrumentKnex p)) \<and>
   (\<not> isPostgresDriver (pool_driver p) \<longrightarrow> instrumentKnex p = p)"
proof -
  have wr: "pg_wrapped (wrapPgClientWithAppName c)" for c by (simp add: wrapPgClientWithAppName_def)
  have all: "(\<forall>c. Some c \<in> set (pool_conns (fold pool_connect cs q)) \<longrightarrow> pg_wrapped c) \<and>
      pool_hooked (fold pool_connect cs q) \<and> pool_driver (fold pool_connect cs q) = pool_driver q"
    if "pool_hooked q" "\<forall>c. Some c \<in> set (pool_conns q) \<longrightarrow> pg_wrapped c" for q
    using that
  proof (induction cs arbitrary: q)
    case (Cons c cs)
    have "pool_hooked (pool_connect c q)" "\<forall>d. Some d \<in> set (pool_conns (pool_connect c q)) \<longrightarrow> pg_wrapped d"
      "pool_driver (pool_connect c q) = pool_driver q"
      using Cons.prems wr by (cases c; auto simp: pool_connect_def)+
    with Cons.IH [of "pool_connect c q"] show ?case by simp
  qed simp
  have id: "instrumentKnex q = q" if "pool_hooked q" "\<forall>c. Some c \<in> set (pool_conns q) \<longrightarrow> pg_wrapped c" for q
  proof -
    have "map (map_option wrapPgClientWithAppName) (pool_conns q) = pool_conns q"
    proof (rule map_idI)
      fix x
      assume "x \<in> set (pool_conns q)"
      with that(2) show "map_option wrapPgClientWithAppName x = x"
        by (cases x) (auto simp: wrapPgClientWithAppName_def)
    qed
    with that(1) show ?thesis by (simp add: instrumentKnex_def wrapExistingPoolConnections_def)
  qed
  show ?thesis
  proof (cases "isPostgresDriver (pool_driver p)")
    case True
    then have "pool_hooked (instrumentKnex p)" "\<forall>c. Some c \<in> set (pool_conns (instrumentKnex p)) \<longrightarrow> pg_wrapped c"
      using wr by (auto simp: instrumentKnex_def wrapExistingPoolConnections_def map_option_case split: option.splits)
    from all [OF this] id [of "fold pool_connect cs (instrumentKnex p)"] True show ?thesis by blast
  qed (simp add: instrumentKnex_def)
qed

theorem instrumentKnex_covers_pool_witness:
  "\<forall>c. Some c \<in> set (pool_conns (fold pool_connect [Some (fresh_conn [])]
      (instrumentKnex \<lparr>pool_driver = ''PG'', pool_conns = [None], pool_hooked = False\<rparr>))) \<longrightarrow> pg_wrapped c"
proof -
  have "isPostgresDriver ''PG''" by code_simp
  with instrumentKnex_covers_pool [of "\<lparr>pool_driver = ''PG'', pool_conns = [None], pool_hooked = False\<rparr>" "[Some (fresh_conn [])]"]
  show ?thesis by simp
qed

end
