(* ===== verification/Orm.thy ===== *)
theory Orm
  imports Db
begin

text \<open>
  The ORM adapters: Prisma (\<open>sdk-node/src/db/prisma.ts\<close>), which names the connection before each
  operation, and Mongoose (\<open>mongoose.ts\<close>), which times operations with middleware hooks.
\<close>

section \<open>Prisma\<close>

record prisma_operation =
  po_model :: "string option"
  po_operation :: "string option"
  po_result :: pg_result

definition prisma_fingerprint :: "prisma_operation \<Rightarrow> string" where
  "prisma_fingerprint o' =
     (case po_model o' of None \<Rightarrow> ''(raw)'' | Some m \<Rightarrow> m) @ ''.'' @ (case po_operation o' of None \<Rightarrow> ''?'' | Some x \<Rightarrow> x)"

text \<open>
  One operation of the extended client: the raw statements it issues, the events, and its result,
  which is the operation's own whatever happens to the \<open>SET\<close>.
\<close>

definition prismaOperation :: "app_name_options \<Rightarrow> emit_config option \<Rightarrow> scope \<Rightarrow> prisma_operation \<Rightarrow> string \<Rightarrow> int \<Rightarrow> int \<Rightarrow> int
    \<Rightarrow> string list \<times> event list \<times> pg_result" where
  "prismaOperation names emit scope o' newId nowMs startNs endNs =
     (case currentEventId scope of
        None \<Rightarrow> ([], [], po_result o')
      | Some eventId \<Rightarrow>
          if eventId = [] then ([], [], po_result o')
          else
            ([set_statement (makeAppNameBuilder names eventId (currentReplayId scope))],
             (case emit of
                None \<Rightarrow> []
              | Some cfg \<Rightarrow>
                  emitDbObservation cfg
                    \<lparr>di_adapter = ''db.prisma'', di_startNs = startNs, di_endNs = endNs,
                     di_queryText = prisma_fingerprint o', di_fingerprint = prisma_fingerprint o',
                     di_metadata = [(''prisma_op'', case po_operation o' of None \<Rightarrow> [] | Some x \<Rightarrow> x),
                       (''prisma_model'', case po_model o' of None \<Rightarrow> [] | Some x \<Rightarrow> x)] @
                       (case po_result o' of Inl e \<Rightarrow> [(''status'', ''error'')] | Inr n \<Rightarrow> []),
                     di_rowsAffected = None\<rparr> scope newId nowMs),
             po_result o'))"

section \<open>Mongoose\<close>

definition QUERY_OPS :: "string list" where
  "QUERY_OPS = [''find'', ''findOne'', ''findOneAndUpdate'', ''findOneAndDelete'', ''findOneAndRemove'',
     ''findOneAndReplace'', ''updateOne'', ''updateMany'', ''deleteOne'', ''deleteMany'', ''replaceOne'',
     ''countDocuments'', ''estimatedDocumentCount'', ''distinct'', ''aggregate'']"

definition DOC_OPS :: "string list" where
  "DOC_OPS = [''save'', ''validate'', ''remove'', ''deleteOne'']"

record query_context =
  qc_startNs :: "int option"
  qc_op :: "string option"
  qc_modelName :: "string option"
  qc_constructorName :: "string option"
  qc_filter :: "string option"

definition preHook :: "int \<Rightarrow> query_context \<Rightarrow> query_context" where
  "preHook now q = q\<lparr>qc_startNs := Some now\<rparr>"

text \<open>The printed filter document is part of the description when it is short.\<close>

definition describeOp :: "string \<Rightarrow> string \<Rightarrow> query_context \<Rightarrow> string" where
  "describeOp op model q =
     (let filter = (case qc_filter q of None \<Rightarrow> [] | Some f \<Rightarrow> f);
          short = (if filter \<noteq> [] \<and> length filter \<le> 200 then filter else [])
      in if short \<noteq> [] then model @ ''.'' @ op @ ''('' @ short @ '')'' else model @ ''.'' @ op @ ''()'')"

definition postHook :: "emit_config \<Rightarrow> scope \<Rightarrow> string \<Rightarrow> int \<Rightarrow> int \<Rightarrow> query_context \<Rightarrow> event list" where
  "postHook cfg scope newId nowMs endNs q =
     (case qc_startNs q of
        None \<Rightarrow> []
      | Some startNs \<Rightarrow>
          (let op = (case qc_op q of None \<Rightarrow> ''save'' | Some x \<Rightarrow> x);
               model = (case or_else (qc_modelName q) (qc_constructorName q) of None \<Rightarrow> ''(unknown)'' | Some m \<Rightarrow> m)
           in emitDbObservation cfg
                \<lparr>di_adapter = ''db.mongoose'', di_startNs = startNs, di_endNs = endNs,
                 di_queryText = describeOp op model q, di_fingerprint = model @ ''.'' @ op,
                 di_metadata = [(''mongoose_op'', op), (''model'', model)], di_rowsAffected = None\<rparr> scope newId nowMs))"

text \<open>
  \<open>instrumentMongoose\<close> registers the same two hooks for both lists; Mongoose then runs every hook
  that is registered under the name of an operation. The operation itself takes from \<open>t0\<close> to \<open>t1\<close>;
  each post hook draws its own id.
\<close>

definition instrumentMongoose :: "string list" where
  "instrumentMongoose = QUERY_OPS @ DOC_OPS"

definition run_hooks :: "emit_config \<Rightarrow> string list \<Rightarrow> scope \<Rightarrow> (nat \<Rightarrow> string) \<Rightarrow> int \<Rightarrow> int \<Rightarrow> int \<Rightarrow> string \<Rightarrow> query_context
    \<Rightarrow> event list" where
  "run_hooks cfg registered scope newId nowMs t0 t1 op q =
     (let mine = filter (\<lambda>h. h = op) registered;
          q = fold (\<lambda>h. preHook t0) mine q
      in concat (map (\<lambda>i. postHook cfg scope (newId i) nowMs t1 q) [0..<length mine]))"

text \<open>
  An observation is sent exactly when the operation ran inside an event and took at least the
  threshold; it then carries the event that caused it, its true duration, and a start time that is
  the end time less the duration.
\<close>

theorem observation_emitted:
  assumes "currentEventId scope = Some e" "e \<noteq> []" "em_slowThresholdMs cfg = Some t" "0 \<le> t"
    and "qc_startNs q = Some startNs"
  shows "(postHook cfg scope newId nowMs endNs q = [] \<longleftrightarrow> endNs - startNs < \<lfloor>t\<rfloor> * 1000000) \<and>
    (\<forall>ev \<in> set (postHook cfg scope newId nowMs endNs q).
       ev_timestampNs ev + (endNs - startNs) = nowMs * 1000000 \<and>
       (\<exists>d. ev_payload ev = DbPayload d \<and> de_causedByEventId d = e \<and> de_durationNs d = endNs - startNs))"
proof -
  have "max 0 \<lfloor>t\<rfloor> = \<lfloor>t\<rfloor>" using assms(4) by simp
  with assms show ?thesis
    by (auto simp: postHook_def emitDbObservation_def Let_def make_event_def)
qed

theorem observation_emitted_witness:
  "postHook \<lparr>em_slowThresholdMs = Some 2, em_replayId = None, em_appPrefix = None\<rparr>
     (Some \<lparr>ctx_eventId = ''ev1'', ctx_replayId = None\<rparr>) ''ev2'' 9 3000000
     \<lparr>qc_startNs = Some 1000000, qc_op = None, qc_modelName = Some ''User'', qc_constructorName = None, qc_filter = None\<rparr> \<noteq> []"
  using observation_emitted [of "Some \<lparr>ctx_eventId = ''ev1'', ctx_replayId = None\<rparr>" "''ev1''"
      "\<lparr>em_slowThresholdMs = Some 2, em_replayId = None, em_appPrefix = None\<rparr>" 2
      "\<lparr>qc_startNs = Some 1000000, qc_op = None, qc_modelName = Some ''User'', qc_constructorName = None, qc_filter = None\<rparr>"
      1000000 "''ev2''" 9 3000000]
  by (simp add: currentEventId_def)

lemma hooks_registered:
  "\<forall>op \<in> set QUERY_OPS. length (filter (\<lambda>h. h = op) instrumentMongoose) = (if op = ''deleteOne'' then 2 else 1)"
  by code_simp

lemma fold_preHook: "fold (\<lambda>h. preHook t0) hs q = (if hs = [] then q else preHook t0 q)"
proof (induction hs arbitrary: q)
  case (Cons h hs)
  then show ?case by (cases hs) (simp_all add: preHook_def)
qed simp

lemma postHook_one:
  assumes "currentEventId scope = Some e" "e \<noteq> []" "em_slowThresholdMs cfg = None" "t0 \<le> t1"
  shows "\<exists>ev. postHook cfg scope newId nowMs t1 (preHook t0 q) = [ev]"
  using assms by (simp add: postHook_def preHook_def emitDbObservation_def Let_def)

text \<open>
  Every operation that issues a command is observed: inside an event, and without a threshold, each
  query operation gives one observation, except that \<open>deleteOne\<close>, which is in both lists, is
  reported twice.
\<close>

theorem mongoose_operation_observed:
  assumes "currentEventId scope = Some e" "e \<noteq> []" "em_slowThresholdMs cfg = None" "t0 \<le> t1" "op \<in> set QUERY_OPS"
  shows "length (run_hooks cfg instrumentMongoose scope newId nowMs t0 t1 op q) = (if op = ''deleteOne'' then 2 else 1)"
proof -
  let ?mine = "filter (\<lambda>h. h = op) instrumentMongoose"
  have n: "length ?mine = (if op = ''deleteOne'' then 2 else 1)"
    using assms(5) hooks_registered by blast
  have "length (postHook cfg scope (newId i) nowMs t1 (preHook t0 q)) = 1" for i
    using postHook_one [OF assms(1-4), of "newId i" nowMs q] by auto
  moreover have "?mine \<noteq> []" using n by (auto split: if_splits)
  ultimately have "length (run_hooks cfg instrumentMongoose scope newId nowMs t0 t1 op q) = length ?mine"
    by (simp add: run_hooks_def fold_preHook length_concat comp_def Let_def sum_list_triv)
  with n show ?thesis by simp
qed

theorem mongoose_operation_observed_witness:
  "length (run_hooks \<lparr>em_slowThresholdMs = None, em_replayId = None, em_appPrefix = None\<rparr> instrumentMongoose
     (Some \<lparr>ctx_eventId = ''ev1'', ctx_replayId = None\<rparr>) nat_to_string 9 1 2 ''deleteOne''
     \<lparr>qc_startNs = None, qc_op = Some ''deleteOne'', qc_modelName = Some ''User'', qc_constructorName = None, qc_filter = None\<rparr>) = 2"
  using mongoose_operation_observed [of "Some \<lparr>ctx_eventId = ''ev1'', ctx_replayId = None\<rparr>" "''ev1''"
      "\<lparr>em_slowThresholdMs = None, em_replayId = None, em_appPrefix = None\<rparr>" 1 2 "''deleteOne''" nat_to_string 9]
  by (simp add: currentEventId_def QUERY_OPS_def)

text \<open>
  The text of a Mongoose observation contains the filter document whenever its printed form has
  at most 200 characters.
\<close>

theorem describeOp_includes_filter:
  assumes "qc_filter q = Some f" "f \<noteq> []" "length f \<le> 200"
  shows "describeOp op model q = model @ ''.'' @ op @ ''('' @ f @ '')''"
  using assms by (simp add: describeOp_def)

end
