(* ===== verification/Jobs.thy ===== *)
theory Jobs
  imports Capture
begin

text \<open>
  The adapters for work that does not arrive over HTTP (\<open>sdk-node/src/adapters\<close>):
  \<open>cron/node-cron.ts\<close>, \<open>queue/bullmq.ts\<close> and \<open>socket/socketio.ts\<close>.

  A job gets its argument, the event scope it runs in and the state of the application, and gives what it throws or
  returns and the state it leaves, so that a job that runs twice is told from one that runs once;
  a wrapped job gives the outcome the scheduler sees and the events handed to \<open>sendBatch\<close>. What happens to a failed
  send is \<open>onError\<close> and does not reach the job. Clock readings and fresh ids are arguments.
\<close>

section \<open>Values of the language\<close>

datatype js_value =
    JsUndefined
  | JsNull
  | JsBool bool
  | JsNumber string
  | JsString string
  | JsErrorObject string
  | JsObject string

text \<open>The conversion to a boolean that \<open>if (v)\<close> makes; \<open>NaN\<close> and zero are false.\<close>

fun truthy :: "js_value \<Rightarrow> bool" where
  "truthy JsUndefined = False"
| "truthy JsNull = False"
| "truthy (JsBool b) = b"
| "truthy (JsNumber n) = (n \<notin> {''0'', ''-0'', ''NaN''})"
| "truthy (JsString s) = (s \<noteq> [])"
| "truthy (JsErrorObject m) = True"
| "truthy (JsObject s) = True"

text \<open>\<open>err instanceof Error ? err.message : String(err)\<close>.\<close>

fun thrown_message :: "js_value \<Rightarrow> string" where
  "thrown_message JsUndefined = ''undefined''"
| "thrown_message JsNull = ''null''"
| "thrown_message (JsBool b) = (if b then ''true'' else ''false'')"
| "thrown_message (JsNumber n) = n"
| "thrown_message (JsString s) = s"
| "thrown_message (JsErrorObject m) = m"
| "thrown_message (JsObject s) = s"

text \<open>\<open>JSON.stringify\<close>: members in insertion order.\<close>

fun json_stringify :: "json \<Rightarrow> string" where
  "json_stringify (JArr vs) = ''['' @ join_with '','' (map json_stringify vs) @ '']''"
| "json_stringify (JObj kvs) =
     ''{'' @ join_with '','' (map (\<lambda>(k, v). json_quote k @ '':'' @ json_stringify v) kvs) @ ''}''"
| "json_stringify JNull = ''null''"
| "json_stringify (JBool b) = (if b then ''true'' else ''false'')"
| "json_stringify (JNum n) = n"
| "json_stringify (JStr s) = json_quote s"

section \<open>Wrapped jobs\<close>

type_synonym ('a, 'w) job = "'a \<Rightarrow> scope \<Rightarrow> 'w \<Rightarrow> (js_value + js_value) \<times> 'w"

record job_run =
  jr_outcome :: "js_value + js_value"
  jr_sent :: "event list"

definition job_status :: "js_value + js_value \<Rightarrow> string" where
  "job_status out = (case out of Inl e \<Rightarrow> ''error'' | Inr v \<Rightarrow> ''success'')"

definition job_error :: "js_value + js_value \<Rightarrow> string" where
  "job_error out = (case out of Inl e \<Rightarrow> thrown_message e | Inr v \<Rightarrow> [])"

subsection \<open>node-cron\<close>

text \<open>The event the \<open>finally\<close> block builds, and the wrapper.\<close>

definition cron_event_of :: "string \<Rightarrow> string option \<Rightarrow> string \<Rightarrow> int \<Rightarrow> int \<Rightarrow> js_value + js_value \<Rightarrow> event" where
  "cron_event_of jobName triggerSource eid startWallNs durationNs out =
     make_event eid startWallNs ''cron.node-cron'' [] []
       (CronPayload
         \<lparr>ce_jobName = jobName, ce_scheduler = ''node-cron'', ce_args = None, ce_durationNs = durationNs,
          ce_status = job_status out, ce_errorMessage = job_error out,
          ce_triggerSource = (case triggerSource of None \<Rightarrow> ''schedule'' | Some t \<Rightarrow> t)\<rparr>)"

definition captureCronJob :: "string \<Rightarrow> string option \<Rightarrow> ('a, 'w) job \<Rightarrow> string \<Rightarrow> int \<Rightarrow> int \<Rightarrow> 'a \<Rightarrow> 'w \<Rightarrow> job_run \<times> 'w" where
  "captureCronJob jobName triggerSource fn eid nowMs durationNs args w =
     (let (out, w) = runWithEvent \<lparr>ctx_eventId = eid, ctx_replayId = None\<rparr> (\<lambda>scope. fn args scope w)
      in (\<lparr>jr_outcome = out, jr_sent = [cron_event_of jobName triggerSource eid (nowMs * 1000000) durationNs out]\<rparr>, w))"

subsection \<open>BullMQ\<close>

text \<open>The data of a job: absent, a JSON value, or something \<open>JSON.stringify\<close> refuses or skips.\<close>

datatype job_data = DataNull | DataJson json | DataUnserializable

datatype job_id = IdString string | IdNumber string

record bull_job =
  bj_id :: "job_id option"
  bj_name :: string
  bj_data :: job_data
  bj_attemptsMade :: "int option"

definition serializeJobData :: "job_data \<Rightarrow> bytes option" where
  "serializeJobData d =
     (case d of DataNull \<Rightarrow> None | DataJson v \<Rightarrow> Some (utf8_encode (json_stringify v)) | DataUnserializable \<Rightarrow> None)"

definition job_body :: "bytes \<Rightarrow> nat \<Rightarrow> body" where
  "job_body bs n = \<lparr>body_payload = Inline bs, body_contentType = ''application/json'', body_sizeBytes = n,
     body_encoding = ''utf-8''\<rparr>"

definition bull_buildEvent :: "string \<Rightarrow> string \<Rightarrow> bull_job \<Rightarrow> int \<Rightarrow> int \<Rightarrow> string \<Rightarrow> string \<Rightarrow> event" where
  "bull_buildEvent eid queueName job startWallNs durationNs status errorMessage =
     make_event eid startWallNs ''queue.bullmq''
       ([(''queue'', queueName), (''job_name'', bj_name job)] @ (if errorMessage \<noteq> [] then [(''error'', errorMessage)] else []))
       []
       (QueuePayload
         \<lparr>qe_queueName = queueName, qe_broker = ''bullmq'',
          qe_messageId = (case bj_id job of None \<Rightarrow> [] | Some (IdString s) \<Rightarrow> s | Some (IdNumber n) \<Rightarrow> n),
          qe_payload = map_option (\<lambda>bs. job_body bs (length bs)) (serializeJobData (bj_data job)),
          qe_retryCount = (case bj_attemptsMade job of None \<Rightarrow> 0 | Some n \<Rightarrow> n),
          qe_durationNs = durationNs, qe_status = status, qe_headers = [(''job_name'', bj_name job)]\<rparr>)"

text \<open>The wrapper keeps what was thrown and throws it again only if it is truthy.\<close>

definition captureBullMQ :: "string \<Rightarrow> (bull_job, 'w) job \<Rightarrow> string \<Rightarrow> int \<Rightarrow> int \<Rightarrow> bull_job \<Rightarrow> 'w \<Rightarrow> job_run \<times> 'w" where
  "captureBullMQ queueName processor eid nowMs durationNs job w =
     (let (out, w) = runWithEvent \<lparr>ctx_eventId = eid, ctx_replayId = None\<rparr> (\<lambda>scope. processor job scope w);
          thrown = (case out of Inl e \<Rightarrow> e | Inr v \<Rightarrow> JsNull);
          result = (case out of Inl e \<Rightarrow> JsUndefined | Inr v \<Rightarrow> v)
      in (\<lparr>jr_outcome = (if truthy thrown then Inl thrown else Inr result),
           jr_sent = [bull_buildEvent eid queueName job (nowMs * 1000000) durationNs (job_status out) (job_error out)]\<rparr>, w))"

text \<open>What the event of a job run says about it.\<close>

fun reported :: "payload \<Rightarrow> (string \<times> int) option" where
  "reported (CronPayload c) = Some (ce_status c, ce_durationNs c)"
| "reported (QueuePayload q) = Some (qe_status q, qe_durationNs q)"
| "reported _ = None"

text \<open>A series of invocations, each with its id, clock readings and argument, threading the application's state.\<close>

record 'a invocation =
  iv_eventId :: string
  iv_nowMs :: int
  iv_durationNs :: int
  iv_arg :: 'a

fun each :: "('i \<Rightarrow> 'w \<Rightarrow> 'o \<times> 'w) \<Rightarrow> 'i list \<Rightarrow> 'w \<Rightarrow> 'o list \<times> 'w" where
  "each f [] w = ([], w)"
| "each f (i # is) w = (case f i w of (out, w) \<Rightarrow> case each f is w of (outs, w) \<Rightarrow> (out # outs, w))"

definition cron_runs :: "string \<Rightarrow> string option \<Rightarrow> ('a, 'w) job \<Rightarrow> 'a invocation list \<Rightarrow> 'w \<Rightarrow> job_run list \<times> 'w" where
  "cron_runs name trigger fn =
     each (\<lambda>i. captureCronJob name trigger fn (iv_eventId i) (iv_nowMs i) (iv_durationNs i) (iv_arg i))"

definition bull_runs :: "string \<Rightarrow> (bull_job, 'w) job \<Rightarrow> bull_job invocation list \<Rightarrow> 'w \<Rightarrow> job_run list \<times> 'w" where
  "bull_runs queue p = each (\<lambda>i. captureBullMQ queue p (iv_eventId i) (iv_nowMs i) (iv_durationNs i) (iv_arg i))"

text \<open>The same jobs without a wrapper, each in the scope of its event.\<close>

definition bare_runs :: "('a, 'w) job \<Rightarrow> 'a invocation list \<Rightarrow> 'w \<Rightarrow> (js_value + js_value) list \<times> 'w" where
  "bare_runs fn = each (\<lambda>i. fn (iv_arg i) (Some \<lparr>ctx_eventId = iv_eventId i, ctx_replayId = None\<rparr>))"

definition said :: "job_run \<Rightarrow> (string \<times> (string \<times> int) option) list" where
  "said r = map (\<lambda>e. (ev_id e, reported (ev_payload e))) (jr_sent r)"

definition truthful :: "'a invocation \<Rightarrow> js_value + js_value \<Rightarrow> (string \<times> (string \<times> int) option) list" where
  "truthful i out = [(iv_eventId i, Some (case out of Inl e \<Rightarrow> ''error'' | Inr v \<Rightarrow> ''success'', iv_durationNs i))]"

text \<open>Wrapping a step of a series commutes with the series.\<close>

lemma each_wrapped:
  assumes "\<And>i w. f i w = (case g i w of (out, w') \<Rightarrow> (h i out, w'))"
  shows "each f is w = (case each g is w of (outs, w') \<Rightarrow> (map2 h is outs, w'))"
  by (induction "is" arbitrary: w) (simp_all add: assms split: prod.splits)

lemma each_length: "each g is w = (outs, w') \<Longrightarrow> length outs = length is"
  by (induction "is" arbitrary: w outs) (auto split: prod.splits)

lemma map_zip_snd: "length ys = length xs \<Longrightarrow> map (\<lambda>x. f (snd x)) (zip xs ys) = map f ys"
  by (induction ys xs rule: list_induct2) simp_all

text \<open>
  C33. Wrapping jobs is transparent. Over any series of invocations, wrapped cron jobs and queue processors leave the
  application in the state the bare jobs leave it in when each runs once, in order, in the scope of its event; the scheduler sees
  the outcome of each job, except that BullMQ sees a rejection with a falsy value as success; and each run sends one event, with the id
  of that scope, which reports the true outcome and the duration in every case.
\<close>

theorem job_capture_transparent:
  fixes fn :: "('a, 'w) job"
  shows "(case bare_runs fn is w of (outs, w') \<Rightarrow>
      (case cron_runs name trigger fn is w of (runs, w'') \<Rightarrow>
         w'' = w' \<and> map jr_outcome runs = outs \<and> map said runs = map2 truthful is outs)) \<and>
   (case bare_runs p js v of (outs, v') \<Rightarrow>
      (case bull_runs queue p js v of (runs, v'') \<Rightarrow>
         v'' = v' \<and>
         map jr_outcome runs = map (\<lambda>out. case out of Inl e \<Rightarrow> if truthy e then Inl e else Inr JsUndefined | Inr r \<Rightarrow> Inr r) outs \<and>
         map said runs = map2 truthful js outs))"
proof -
  let ?scope = "\<lambda>i. Some \<lparr>ctx_eventId = iv_eventId i, ctx_replayId = None\<rparr>"
  define cron where "cron i out = fst (captureCronJob name trigger (\<lambda>a s u. (out, u)) (iv_eventId i) (iv_nowMs i) (iv_durationNs i) (iv_arg i) ())"
    for i :: "'a invocation" and out
  define bull where "bull i out = fst (captureBullMQ queue (\<lambda>a s u. (out, u)) (iv_eventId i) (iv_nowMs i) (iv_durationNs i) (iv_arg i) ())"
    for i :: "bull_job invocation" and out
  have c: "cron_runs name trigger fn is w = (case bare_runs fn is w of (outs, w') \<Rightarrow> (map2 cron is outs, w'))"
    unfolding cron_runs_def bare_runs_def
    by (rule each_wrapped) (simp add: captureCronJob_def cron_def runWithEvent_def split: prod.splits)
  have b: "bull_runs queue p js v = (case bare_runs p js v of (outs, v') \<Rightarrow> (map2 bull js outs, v'))"
    unfolding bull_runs_def bare_runs_def
    by (rule each_wrapped) (simp add: captureBullMQ_def bull_def runWithEvent_def Let_def split: prod.splits)
  have cron: "jr_outcome (cron i out) = out" "said (cron i out) = truthful i out" for i out
    by (simp_all add: cron_def captureCronJob_def cron_event_of_def runWithEvent_def said_def truthful_def make_event_def
        job_status_def)
  have bull: "jr_outcome (bull i out) = (case out of Inl e \<Rightarrow> if truthy e then Inl e else Inr JsUndefined | Inr r \<Rightarrow> Inr r)"
    "said (bull i out) = truthful i out" for i out
    by (simp_all add: bull_def captureBullMQ_def bull_buildEvent_def runWithEvent_def said_def truthful_def make_event_def
        job_status_def Let_def split: sum.splits)
  obtain outs w' where o: "bare_runs fn is w = (outs, w')" by (cases "bare_runs fn is w")
  obtain outs' v' where o': "bare_runs p js v = (outs', v')" by (cases "bare_runs p js v")
  have len: "length outs = length is" "length outs' = length js"
    using each_length [OF o [unfolded bare_runs_def]] each_length [OF o' [unfolded bare_runs_def]] by simp_all
  show ?thesis
    using map_zip_snd [OF len(1), of "\<lambda>out. out"]
      map_zip_snd [OF len(2), of "case_sum (\<lambda>e. if truthy e then Inl e else Inr JsUndefined) Inr"]
    unfolding c b o o' by (simp add: comp_def case_prod_beta' cron bull)
qed

text \<open>
  A BullMQ processor that rejects with \<open>undefined\<close> (a bare \<open>Promise.reject()\<close>) is reported to
  the queue as done, so it is never retried, while the captured event says \<open>error\<close>.
\<close>

theorem bullmq_swallows_falsy_rejection:
  assumes "p job (Some \<lparr>ctx_eventId = eid, ctx_replayId = None\<rparr>) w = (Inl e, w')" "\<not> truthy e"
  shows "\<exists>r ev q. captureBullMQ queue p eid nowMs dur job w = (r, w') \<and> jr_outcome r = Inr JsUndefined \<and>
    jr_sent r = [ev] \<and> ev_payload ev = QueuePayload q \<and> qe_status q = ''error''"
  using assms by (simp add: captureBullMQ_def bull_buildEvent_def runWithEvent_def make_event_def job_status_def Let_def)

theorem bullmq_swallows_falsy_rejection_witness:
  "\<exists>r. captureBullMQ ''q'' (\<lambda>j s n. (Inl JsUndefined, Suc n)) ''ev1'' 0 0
     \<lparr>bj_id = None, bj_name = ''n'', bj_data = DataNull, bj_attemptsMade = None\<rparr> 0 = (r, 1) \<and> jr_outcome r = Inr JsUndefined"
  using bullmq_swallows_falsy_rejection [of "\<lambda>j s n. (Inl JsUndefined, Suc n)"
      "\<lparr>bj_id = None, bj_name = ''n'', bj_data = DataNull, bj_attemptsMade = None\<rparr>" "''ev1''" 0 JsUndefined 1 "''q''" 0 0]
  by auto

section \<open>Socket.io\<close>

text \<open>Arguments of an event: JSON values with binary chunks in them, and big integers, which \<open>JSON.stringify\<close> refuses.\<close>

datatype arg_value =
    AvNull
  | AvBool bool
  | AvNum string
  | AvStr string
  | AvArr "arg_value list"
  | AvObj "arg_value dict"
  | AvBuffer bytes
  | AvUint8Array bytes
  | AvBigInt int

definition base64_digit :: "nat \<Rightarrow> char" where
  "base64_digit n = ''ABCDEFGHIJKLMNOPQRSTUVWXYZabcdefghijklmnopqrstuvwxyz0123456789+/'' ! (n mod 64)"

fun base64 :: "bytes \<Rightarrow> string" where
  "base64 (a # b # c # rest) =
     (let n = unat a * 65536 + unat b * 256 + unat c
      in [base64_digit (n div 262144), base64_digit (n div 4096), base64_digit (n div 64), base64_digit n] @ base64 rest)"
| "base64 [a, b] =
     (let n = unat a * 65536 + unat b * 256
      in [base64_digit (n div 262144), base64_digit (n div 4096), base64_digit (n div 64), CHR ''=''])"
| "base64 [a] = (let n = unat a * 65536 in [base64_digit (n div 262144), base64_digit (n div 4096), CHR ''='', CHR ''=''])"
| "base64 [] = []"

lemma size_arg_arr [termination_simp]: "v \<in> set vs \<Longrightarrow> size v < Suc (size_list size vs)"
  by (induction vs) auto

lemma size_arg_obj [termination_simp]: "(k, v) \<in> set kvs \<Longrightarrow> size v < Suc (size_list (size_prod (\<lambda>_. 0) size) kvs)"
  by (induction kvs) auto

text \<open>
  What \<open>JSON.stringify\<close> prints for a value under the replacer of \<open>serializeArgs\<close>. A \<open>Buffer\<close> has a
  \<open>toJSON\<close> method, which runs before the replacer sees the value.
\<close>

fun arg_json :: "arg_value \<Rightarrow> json" where
  "arg_json AvNull = JNull"
| "arg_json (AvBool b) = JBool b"
| "arg_json (AvNum n) = JNum n"
| "arg_json (AvStr s) = JStr s"
| "arg_json (AvArr vs) = JArr (map arg_json vs)"
| "arg_json (AvObj kvs) = JObj (map (\<lambda>(k, v). (k, arg_json v)) kvs)"
| "arg_json (AvBuffer bs) = JObj [(''type'', JStr ''Buffer''), (''data'', JArr (map (\<lambda>b. JNum (nat_to_string (unat b))) bs))]"
| "arg_json (AvUint8Array bs) = JObj [(''__type'', JStr ''Uint8Array''), (''base64'', JStr (base64 bs))]"
| "arg_json (AvBigInt n) = JNull"

fun serializable :: "arg_value \<Rightarrow> bool" where
  "serializable (AvArr vs) = list_all serializable vs"
| "serializable (AvObj kvs) = list_all (\<lambda>(k, v). serializable v) kvs"
| "serializable (AvBigInt n) = False"
| "serializable _ = True"

definition serializeArgs :: "arg_value list \<Rightarrow> bytes option" where
  "serializeArgs args =
     (if list_all serializable args then Some (utf8_encode (json_stringify (JArr (map arg_json args)))) else None)"

record handshake =
  hs_address :: "string option"
  hs_time :: "string option"
  hs_issued :: "string option"
  hs_xdomain :: bool
  hs_secure :: bool
  hs_url :: "string option"
  hs_auth :: "json option"

record socket =
  so_id :: string
  so_handshake :: handshake

definition bool_string :: "bool \<Rightarrow> string" where
  "bool_string b = (if b then ''true'' else ''false'')"

definition handshakeToMap :: "socket \<Rightarrow> string dict" where
  "handshakeToMap s =
     (let hs = so_handshake s
      in [(''address'', or_empty (hs_address hs)), (''time'', or_empty (hs_time hs)), (''issued'', or_empty (hs_issued hs)),
          (''xdomain'', bool_string (hs_xdomain hs)), (''secure'', bool_string (hs_secure hs)), (''url'', or_empty (hs_url hs))] @
         (case hs_auth hs of
            Some (JObj kvs) \<Rightarrow> [(''auth'', json_stringify (JObj kvs))]
          | Some (JArr vs) \<Rightarrow> [(''auth'', json_stringify (JArr vs))]
          | _ \<Rightarrow> []))"

text \<open>\<open>userExtractor\<close> may throw (\<open>Inl\<close>) or have no answer.\<close>

record hook_options =
  ho_maxPayload :: nat
  ho_userExtractor :: "(socket \<Rightarrow> js_value + string option) option"

record emit_args =
  ea_op :: socket_op
  ea_eventName :: "string option"
  ea_args :: "arg_value list option"
  ea_handshake :: "string dict option"

definition socket_body :: "nat \<Rightarrow> bytes \<Rightarrow> body" where
  "socket_body maxPayload bs = job_body (if length bs > maxPayload then take maxPayload bs else bs) (length bs)"

text \<open>The events one call hands to \<open>sendBatch\<close>: none when the arguments or the extractor throw.\<close>

definition emitSocketEvent :: "string \<Rightarrow> socket \<Rightarrow> hook_options \<Rightarrow> emit_args \<Rightarrow> string \<Rightarrow> int \<Rightarrow> event list" where
  "emitSocketEvent nsp s opts ea eid nowMs =
     (let payload = (case ea_args ea of None \<Rightarrow> Some None | Some args \<Rightarrow> map_option Some (serializeArgs args));
          user = (case ho_userExtractor opts of None \<Rightarrow> Inr [] | Some f \<Rightarrow> map_sum id or_empty (f s))
      in case (payload, user) of
           (Some pl, Inr userId) \<Rightarrow>
             [make_event eid (nowMs * 1000000) ''socket.io'' []
               (case pl of None \<Rightarrow> [] | Some bs \<Rightarrow> if length bs > ho_maxPayload opts then [''body:truncated''] else [])
               (SocketPayload
                 \<lparr>se_socketId = so_id s, se_op = ea_op ea, se_namespace = nsp, se_eventName = or_empty (ea_eventName ea),
                  se_data = map_option (socket_body (ho_maxPayload opts)) pl,
                  se_handshake = (case ea_handshake ea of None \<Rightarrow> [] | Some h \<Rightarrow> h), se_userId = userId, se_durationNs = 0\<rparr>)]
         | _ \<Rightarrow> [])"

subsection \<open>Namespaces and hooks\<close>

text \<open>
  The server: its namespaces, how many of our \<open>connection\<close> handlers each has, whether \<open>of\<close> is
  patched, the sockets our hooks are on, and the events sent. \<open>io_wired\<close> is the \<open>WeakSet\<close>.
\<close>

record socket_server =
  io_namespaces :: "string list"
  io_patched :: bool
  io_wired :: "string list"
  io_handlers :: "string list"
  io_hooked :: "(string \<times> socket) list"
  io_sent :: "event list"

record socket_options =
  sk_sampleRate :: "rat option"
  sk_maxPayloadInlineBytes :: "nat option"
  sk_userExtractor :: "(socket \<Rightarrow> js_value + string option) option"

definition hook_options_of :: "socket_options \<Rightarrow> hook_options" where
  "hook_options_of opts =
     \<lparr>ho_maxPayload = (case sk_maxPayloadInlineBytes opts of None \<Rightarrow> 64 * 1024 | Some n \<Rightarrow> n),
      ho_userExtractor = sk_userExtractor opts\<rparr>"

definition socket_sampled :: "socket_options \<Rightarrow> rat \<Rightarrow> bool" where
  "socket_sampled opts draw \<longleftrightarrow>
     (let rate = (case sk_sampleRate opts of None \<Rightarrow> 1 | Some r \<Rightarrow> r) in \<not> (rate < 1 \<and> rate \<le> draw))"

definition wire :: "string \<Rightarrow> socket_server \<Rightarrow> socket_server" where
  "wire nsp io =
     (if nsp \<in> set (io_wired io) then io
      else io\<lparr>io_wired := nsp # io_wired io, io_handlers := io_handlers io @ [nsp]\<rparr>)"

definition io_of :: "string \<Rightarrow> socket_server \<Rightarrow> socket_server" where
  "io_of nsp io =
     (let io = io\<lparr>io_namespaces := List.insert nsp (io_namespaces io)\<rparr>
      in if io_patched io then wire nsp io else io)"

definition captureSocketIO :: "socket_server \<Rightarrow> socket_server" where
  "captureSocketIO io = (wire ''/'' (io_of ''/'' io))\<lparr>io_patched := True\<rparr>"

definition installSocketHooks :: "hook_options \<Rightarrow> string \<Rightarrow> socket \<Rightarrow> string \<Rightarrow> int \<Rightarrow> socket_server \<Rightarrow> socket_server" where
  "installSocketHooks opts nsp s eid nowMs io =
     io\<lparr>io_hooked := io_hooked io @ [(nsp, s)],
        io_sent := io_sent io @ emitSocketEvent nsp s opts
          \<lparr>ea_op = OpConnect, ea_eventName = None, ea_args = None, ea_handshake = Some (handshakeToMap s)\<rparr> eid nowMs\<rparr>"

datatype io_event =
    OfCall string
  | Connection string socket rat string int
  | Incoming string socket string "arg_value list" string int
  | Outgoing string socket string "arg_value list" string int
  | Disconnected string socket string string int

definition hook_event :: "socket_options \<Rightarrow> string \<Rightarrow> socket \<Rightarrow> emit_args \<Rightarrow> string \<Rightarrow> int \<Rightarrow> socket_server \<Rightarrow> socket_server" where
  "hook_event opts nsp s ea eid nowMs io =
     fold (\<lambda>h io. io\<lparr>io_sent := io_sent io @ emitSocketEvent nsp s (hook_options_of opts) ea eid nowMs\<rparr>)
       (filter (\<lambda>h. h = (nsp, s)) (io_hooked io)) io"

fun io_step :: "socket_options \<Rightarrow> io_event \<Rightarrow> socket_server \<Rightarrow> socket_server" where
  "io_step opts (OfCall nsp) io = io_of nsp io"
| "io_step opts (Connection nsp s draw eid nowMs) io =
     fold (\<lambda>h io. if socket_sampled opts draw then installSocketHooks (hook_options_of opts) nsp s eid nowMs io else io)
       (filter (\<lambda>h. h = nsp) (io_handlers io)) io"
| "io_step opts (Incoming nsp s name args eid nowMs) io =
     hook_event opts nsp s \<lparr>ea_op = OpRecvFromClient, ea_eventName = Some name, ea_args = Some args, ea_handshake = None\<rparr> eid nowMs io"
| "io_step opts (Outgoing nsp s name args eid nowMs) io =
     hook_event opts nsp s \<lparr>ea_op = OpEmitToClient, ea_eventName = Some name, ea_args = Some args, ea_handshake = None\<rparr> eid nowMs io"
| "io_step opts (Disconnected nsp s reason eid nowMs) io =
     hook_event opts nsp s \<lparr>ea_op = OpDisconnect, ea_eventName = Some reason, ea_args = None, ea_handshake = None\<rparr> eid nowMs io"

definition io_run :: "socket_options \<Rightarrow> io_event list \<Rightarrow> socket_server \<Rightarrow> socket_server" where
  "io_run opts evs io = fold (io_step opts) evs io"

subsection \<open>Every signal is captured once\<close>

fun of_calls :: "io_event list \<Rightarrow> string list" where
  "of_calls (OfCall n # evs) = n # of_calls evs"
| "of_calls (e # evs) = of_calls evs"
| "of_calls [] = []"

fun connections :: "io_event list \<Rightarrow> (string \<times> socket) list" where
  "connections (Connection n s draw eid now # evs) = (n, s) # connections evs"
| "connections (e # evs) = connections evs"
| "connections [] = []"

text \<open>The socket a signal is about, when it is about one.\<close>

fun signal_socket :: "io_event \<Rightarrow> (string \<times> socket) option" where
  "signal_socket (Incoming n s name args eid now) = Some (n, s)"
| "signal_socket (Outgoing n s name args eid now) = Some (n, s)"
| "signal_socket (Disconnected n s reason eid now) = Some (n, s)"
| "signal_socket _ = None"

fun signal_args :: "io_event \<Rightarrow> arg_value list" where
  "signal_args (Incoming n s name args eid now) = args"
| "signal_args (Outgoing n s name args eid now) = args"
| "signal_args _ = []"

definition io_inv :: "socket_server \<Rightarrow> bool" where
  "io_inv io \<longleftrightarrow> io_patched io \<and> set (io_handlers io) = set (io_wired io) \<and> distinct (io_handlers io) \<and> distinct (io_hooked io)"

lemma filter_eq_distinct: "distinct xs \<Longrightarrow> filter (\<lambda>y. y = x) xs = (if x \<in> set xs then [x] else [])"
  by (induction xs) auto

lemma hook_event_once:
  assumes "io_inv io"
  shows "hook_event opts n s ea eid now io =
    (if (n, s) \<in> set (io_hooked io)
     then io\<lparr>io_sent := io_sent io @ emitSocketEvent n s (hook_options_of opts) ea eid now\<rparr> else io)"
  using assms by (simp add: hook_event_def io_inv_def filter_eq_distinct)

lemma connection_once:
  assumes "io_inv io"
  shows "io_step opts (Connection n s draw eid now) io =
    (if n \<in> set (io_handlers io) \<and> socket_sampled opts draw
     then installSocketHooks (hook_options_of opts) n s eid now io else io)"
  using assms by (simp add: io_inv_def filter_eq_distinct)

lemma io_step_inv:
  assumes "io_inv io" "set (connections [e]) \<inter> set (io_hooked io) = {}"
  shows "io_inv (io_step opts e io) \<and>
    set (io_handlers (io_step opts e io)) = set (io_handlers io) \<union> set (of_calls [e]) \<and>
    set (io_hooked (io_step opts e io)) \<subseteq> set (io_hooked io) \<union> set (connections [e])"
proof (cases e)
  case (OfCall n)
  with assms show ?thesis by (auto simp: io_of_def wire_def io_inv_def Let_def)
next
  case (Connection n s draw eid now)
  with assms show ?thesis unfolding Connection connection_once [OF assms(1)]
    by (auto simp: io_inv_def installSocketHooks_def)
qed (use assms in \<open>simp_all add: hook_event_once io_inv_def\<close>)

lemma io_run_inv:
  assumes "io_inv io" "distinct (connections evs)" "set (connections evs) \<inter> set (io_hooked io) = {}"
  shows "io_inv (io_run opts evs io) \<and> set (io_handlers (io_run opts evs io)) = set (io_handlers io) \<union> set (of_calls evs)"
  using assms unfolding io_run_def
proof (induction evs arbitrary: io)
  case (Cons e evs)
  have conn: "connections (e # evs) = connections [e] @ connections evs" "of_calls (e # evs) = of_calls [e] @ of_calls evs"
    by (cases e; simp)+
  from Cons.prems have "set (connections [e]) \<inter> set (io_hooked io) = {}" unfolding conn by auto
  from io_step_inv [OF Cons.prems(1) this, of opts] have
    st: "io_inv (io_step opts e io)" "set (io_handlers (io_step opts e io)) = set (io_handlers io) \<union> set (of_calls [e])"
    "set (io_hooked (io_step opts e io)) \<subseteq> set (io_hooked io) \<union> set (connections [e])" by auto
  have "set (connections evs) \<inter> set (io_hooked (io_step opts e io)) = {}"
    using st(3) Cons.prems(2,3) unfolding conn by auto
  from Cons.IH [OF st(1) _ this] Cons.prems(2) st(2) show ?case unfolding conn by auto
qed simp

lemma captureSocketIO_inv:
  assumes "io_handlers io = []" "io_wired io = []" "io_hooked io = []" "\<not> io_patched io"
  shows "io_inv (captureSocketIO io)" "set (io_handlers (captureSocketIO io)) = {''/''}" "io_hooked (captureSocketIO io) = []"
  using assms by (auto simp: captureSocketIO_def io_of_def wire_def io_inv_def Let_def)

lemma emitSocketEvent_length:
  "length (emitSocketEvent n s opts ea eid now) \<le> 1 \<and>
   ((\<forall>f. ho_userExtractor opts = Some f \<longrightarrow> (\<exists>u. f s = Inr u)) \<and> list_all serializable (case ea_args ea of None \<Rightarrow> [] | Some a \<Rightarrow> a) \<longrightarrow>
     length (emitSocketEvent n s opts ea eid now) = 1)"
  by (auto simp: emitSocketEvent_def serializeArgs_def Let_def split: option.splits sum.splits)

text \<open>
  C32. Socket.io, for a server on which every socket connects to a namespace once. However often \<open>io.of\<close> is called,
  a namespace has at most one of our handlers: exactly the default namespace and those asked for by \<open>io.of\<close>
  after the installation have one (a namespace that existed before is not captured until it is asked for again, though the
  comment of \<open>captureSocketIO\<close> promises every namespace). A socket gets our hooks, once, when it is sampled and
  connects to such a namespace; a signal on a socket without them sends nothing, and a signal on one with them
  sends one event, or none when its arguments cannot be serialized or the extractor throws.
\<close>

theorem socket_signals_captured_once:
  assumes "io_handlers io0 = []" "io_wired io0 = []" "io_hooked io0 = []" "\<not> io_patched io0"
    and "distinct (connections evs)" "io = io_run opts evs (captureSocketIO io0)"
  shows "distinct (io_handlers io) \<and> set (io_handlers io) = insert ''/'' (set (of_calls evs)) \<and>
    (\<forall>nsp s draw eid now. io_hooked (io_step opts (Connection nsp s draw eid now) io) =
       io_hooked io @ (if nsp \<in> insert ''/'' (set (of_calls evs)) \<and> socket_sampled opts draw then [(nsp, s)] else [])) \<and>
    (\<forall>e ns. signal_socket e = Some ns \<longrightarrow>
       (\<exists>new. io_sent (io_step opts e io) = io_sent io @ new \<and> length new \<le> 1 \<and>
         (ns \<notin> set (io_hooked io) \<longrightarrow> new = []) \<and>
         (ns \<in> set (io_hooked io) \<and> (\<forall>f. sk_userExtractor opts = Some f \<longrightarrow> (\<exists>u. f (snd ns) = Inr u)) \<and>
           list_all serializable (signal_args e) \<longrightarrow> length new = 1)))"
proof -
  note cap = captureSocketIO_inv [OF assms(1-4)]
  have inv: "io_inv io" "set (io_handlers io) = insert ''/'' (set (of_calls evs))"
    using io_run_inv [OF cap(1) assms(5), of opts] cap(2,3) assms(6) by auto
  have once: "\<exists>new. io_sent (io_step opts e io) = io_sent io @ new \<and> length new \<le> 1 \<and>
         (ns \<notin> set (io_hooked io) \<longrightarrow> new = []) \<and>
         (ns \<in> set (io_hooked io) \<and> (\<forall>f. sk_userExtractor opts = Some f \<longrightarrow> (\<exists>u. f (snd ns) = Inr u)) \<and>
           list_all serializable (signal_args e) \<longrightarrow> length new = 1)"
    if "signal_socket e = Some ns" for e ns
    using that emitSocketEvent_length
    by (cases e) (auto simp: hook_event_once [OF inv(1)] hook_options_of_def)
  show ?thesis using inv once connection_once [OF inv(1)] by (simp add: io_inv_def installSocketHooks_def)
qed

definition empty_server :: socket_server where
  "empty_server = \<lparr>io_namespaces = [''/'', ''/old''], io_patched = False, io_wired = [], io_handlers = [], io_hooked = [], io_sent = []\<rparr>"

theorem socket_signals_captured_once_witness:
  "set (io_handlers (io_run \<lparr>sk_sampleRate = None, sk_maxPayloadInlineBytes = None, sk_userExtractor = None\<rparr>
     [OfCall ''/chat'', OfCall ''/chat''] (captureSocketIO empty_server))) = {''/'', ''/chat''}"
  using socket_signals_captured_once [of empty_server "[OfCall ''/chat'', OfCall ''/chat'']"
      "io_run \<lparr>sk_sampleRate = None, sk_maxPayloadInlineBytes = None, sk_userExtractor = None\<rparr>
         [OfCall ''/chat'', OfCall ''/chat''] (captureSocketIO empty_server)"
      "\<lparr>sk_sampleRate = None, sk_maxPayloadInlineBytes = None, sk_userExtractor = None\<rparr>"]
  by (simp add: empty_server_def)

text \<open>
  A captured socket payload is at most the configured size, is a prefix of the serialized
  arguments whose full length is recorded, and is flagged exactly when something was cut.
\<close>

theorem socket_payload_bounded:
  assumes "ev \<in> set (emitSocketEvent nsp s opts ea eid nowMs)" "ea_args ea = Some args"
  shows "\<exists>bs se b pre. serializeArgs args = Some bs \<and> ev_payload ev = SocketPayload se \<and> se_data se = Some b \<and>
    body_payload b = Inline pre \<and> pre = take (ho_maxPayload opts) bs \<and> body_sizeBytes b = length bs \<and>
    (''body:truncated'' \<in> set (ev_redactionsApplied ev) \<longleftrightarrow> pre \<noteq> bs)"
proof -
  obtain bs where "serializeArgs args = Some bs"
    using assms by (cases "serializeArgs args") (auto simp: emitSocketEvent_def Let_def)
  with assms show ?thesis
    by (auto simp: emitSocketEvent_def Let_def make_event_def socket_body_def job_body_def split: sum.splits if_splits)
qed

theorem socket_payload_bounded_witness:
  "\<exists>ev b. emitSocketEvent ''/'' \<lparr>so_id = ''s'', so_handshake = \<lparr>hs_address = None, hs_time = None, hs_issued = None,
      hs_xdomain = False, hs_secure = False, hs_url = None, hs_auth = None\<rparr>\<rparr>
     \<lparr>ho_maxPayload = 2, ho_userExtractor = None\<rparr>
     \<lparr>ea_op = OpRecvFromClient, ea_eventName = Some ''m'', ea_args = Some [AvNull], ea_handshake = None\<rparr> ''ev1'' 0 = [ev] \<and>
     (\<exists>se. ev_payload ev = SocketPayload se \<and> se_data se = Some b \<and> body_sizeBytes b = 6)"
proof -
  let ?s = "\<lparr>so_id = ''s'', so_handshake = \<lparr>hs_address = None, hs_time = None, hs_issued = None,
      hs_xdomain = False, hs_secure = False, hs_url = None, hs_auth = None\<rparr>\<rparr>"
  let ?o = "\<lparr>ho_maxPayload = 2, ho_userExtractor = None\<rparr>"
  let ?ea = "\<lparr>ea_op = OpRecvFromClient, ea_eventName = Some ''m'', ea_args = Some [AvNull], ea_handshake = None\<rparr>"
  have "length (emitSocketEvent ''/'' ?s ?o ?ea ''ev1'' 0) = 1"
    using emitSocketEvent_length [of "''/''" ?s ?o ?ea "''ev1''" 0] by simp
  then obtain ev where ev: "emitSocketEvent ''/'' ?s ?o ?ea ''ev1'' 0 = [ev]" by (auto simp: length_Suc_conv)
  have len: "length bs = 6" if "serializeArgs [AvNull] = Some bs" for bs
    using that by (auto simp: serializeArgs_def utf8_encode_def utf8_char_def)
  from socket_payload_bounded [of ev "''/''" ?s ?o ?ea "''ev1''" 0] ev len show ?thesis by fastforce
qed

end
