(* ===== verification/Format.thy ===== *)
theory Format
  imports Prelude Complex_Main
begin

text \<open>
  How the dashboard prints numbers and times (\<open>ui/src/lib/utils.ts\<close>, and \<open>formatBytes\<close> of
  \<open>replays/[id]/db/page.tsx\<close>). Numbers are exact, as in theory \<open>Stats\<close>; the clock and \<open>Date\<close>'s
  parser are arguments. A text is its UTF-8 bytes, so the dash that stands for a missing value is
  three characters.
\<close>

section \<open>Numbers\<close>

definition DASH :: string where
  "DASH = [CHR 0xE2, CHR 0x80, CHR 0x94]"

text \<open>\<open>Math.round\<close>, and the integer \<open>toFixed\<close> prints: the nearest one, the larger of two.\<close>

definition js_round :: "rat \<Rightarrow> int" where
  "js_round x = \<lfloor>x + 1 / 2\<rfloor>"

definition fixed_digits :: "nat \<Rightarrow> rat \<Rightarrow> string" where
  "fixed_digits d x =
     (let m = padStart (Suc d) (CHR ''0'') (nat_to_string (nat (js_round (x * 10 ^ d))));
          k = length m - d
      in if d = 0 then m else take k m @ ''.'' @ drop k m)"

definition toFixed :: "nat \<Rightarrow> rat \<Rightarrow> string" where
  "toFixed d x = (if x < 0 then ''-'' @ fixed_digits d (- x) else fixed_digits d x)"

definition int_to_string :: "int \<Rightarrow> string" where
  "int_to_string i = (if i < 0 then ''-'' @ nat_to_string (nat (- i)) else nat_to_string (nat i))"

text \<open>Reading a printed number back: the digits, scaled by those after the point.\<close>

definition fixed_value :: "string \<Rightarrow> rat" where
  "fixed_value s =
     (let rest = dropWhile (\<lambda>c. c \<noteq> CHR ''.'') s
      in of_nat (string_to_nat (filter (\<lambda>c. c \<noteq> CHR ''.'') s)) / 10 ^ (length rest - 1))"

lemma js_round_near: "\<bar>of_int (js_round x) - x\<bar> \<le> 1 / 2"
  unfolding js_round_def by linarith

lemma js_round_nonneg: "0 \<le> x \<Longrightarrow> 0 \<le> js_round x"
  by (simp add: js_round_def)

lemma js_round_of_int [simp]: "js_round (of_int k) = k"
  by (simp add: js_round_def floor_eq_iff)

lemma js_round_mono: "x \<le> y \<Longrightarrow> js_round x \<le> js_round y"
  unfolding js_round_def by (rule floor_mono) simp

lemma padded_digits: "\<forall>c \<in> set (padStart k (CHR ''0'') (nat_to_string n)). is_digit c"
  using nat_to_string_digits [of n] by (auto simp: padStart_def CHR_zero)

lemma digit_not_point: "is_digit c \<Longrightarrow> c \<noteq> CHR ''.''"
  by (auto simp: is_digit_def)

lemma padded_value: "string_to_nat (padStart k (CHR ''0'') (nat_to_string n)) = n"
  unfolding padStart_def CHR_zero by (simp add: string_to_nat_zeros)

text \<open>
  A printed number is the number, rounded to the nearest at the digits that are shown.
\<close>

lemma fixed_digits_value:
  assumes "0 \<le> x"
  shows "fixed_value (fixed_digits d x) = of_int (js_round (x * 10 ^ d)) / 10 ^ d"
proof -
  define n where "n = nat (js_round (x * 10 ^ d))"
  define m where "m = padStart (Suc d) (CHR ''0'') (nat_to_string n)"
  define k where "k = length m - d"
  have len: "length m = k + d" "0 < k" by (auto simp: k_def m_def)
  have dig: "\<forall>c \<in> set m. c \<noteq> CHR ''.''" using padded_digits digit_not_point unfolding m_def by metis
  have keep: "filter (\<lambda>c. c \<noteq> CHR ''.'') s = s" "dropWhile (\<lambda>c. c \<noteq> CHR ''.'') (s @ r) = dropWhile (\<lambda>c. c \<noteq> CHR ''.'') r"
    if "set s \<subseteq> set m" for s r
    using that dig by (auto simp: filter_id_conv dropWhile_append2 intro: dropWhile_append2)
  have n: "of_nat n = (of_int (js_round (x * 10 ^ d)) :: rat)"
    using js_round_nonneg [of "x * 10 ^ d"] assms by (simp add: n_def of_nat_nat)
  have digits: "fixed_digits d x = (if d = 0 then m else take k m @ ''.'' @ drop k m)"
    by (simp add: fixed_digits_def Let_def m_def n_def k_def)
  have point: "length (dropWhile (\<lambda>c. c \<noteq> CHR ''.'') (fixed_digits d x)) - 1 = d"
  proof (cases "d = 0")
    case True
    have "fixed_digits d x = m" by (rule trans [OF digits]) (simp add: True)
    moreover have drop: "dropWhile (\<lambda>c. c \<noteq> CHR ''.'') m = []" using dig by (simp add: dropWhile_eq_Nil_conv)
    ultimately show ?thesis by (simp only: drop True) simp
  next
    case False
    then show ?thesis using keep(2) [of "take k m" "''.'' @ drop k m"] len by (simp add: digits set_take_subset)
  qed
  have "filter (\<lambda>c. c \<noteq> CHR ''.'') (fixed_digits d x) = m"
    using keep(1) [of m] keep(1) [of "take k m"] keep(1) [of "drop k m"]
    by (simp add: digits set_take_subset set_drop_subset)
  then show ?thesis by (simp only: fixed_value_def Let_def point) (simp add: m_def padded_value n)
qed

theorem toFixed_accurate:
  assumes "0 \<le> x"
  shows "\<bar>fixed_value (toFixed d x) - x\<bar> \<le> 1 / (2 * 10 ^ d)"
proof -
  have "toFixed d x = fixed_digits d x" using assms by (simp add: toFixed_def)
  then have "fixed_value (toFixed d x) - x = (of_int (js_round (x * 10 ^ d)) - x * 10 ^ d) / 10 ^ d"
    by (simp only: fixed_digits_value [OF assms] diff_divide_distrib) simp
  moreover have "\<bar>(of_int (js_round (x * 10 ^ d)) - x * 10 ^ d) / 10 ^ d\<bar> \<le> (1 / 2) / 10 ^ d"
    using js_round_near [of "x * 10 ^ d"] unfolding abs_divide by (simp only: divide_right_mono abs_of_nonneg zero_le_power zero_le_numeral)
  ultimately show ?thesis by simp
qed

section \<open>Times\<close>

text \<open>The number that is shown, the seconds of its unit and the unit's text.\<close>

definition relative_parts :: "rat \<Rightarrow> int \<times> nat \<times> string" where
  "relative_parts diff =
     (if diff < 60 then (max 0 (js_round diff), 1, ''s ago'')
      else if diff < 3600 then (js_round (diff / 60), 60, ''m ago'')
      else if diff < 86400 then (js_round (diff / 3600), 3600, ''h ago'')
      else (js_round (diff / 86400), 86400, ''d ago''))"

definition relativeTime :: "(string \<Rightarrow> rat option) \<Rightarrow> rat \<Rightarrow> string option \<Rightarrow> string" where
  "relativeTime parse now stamp =
     (case Option.bind (case stamp of None \<Rightarrow> None | Some s \<Rightarrow> if s = [] then None else Some s) parse of
        None \<Rightarrow> DASH
      | Some before \<Rightarrow> (case relative_parts ((now - before) / 1000) of (n, _, unit) \<Rightarrow> int_to_string n @ unit))"

text \<open>
  The age that is shown is at most half a unit off, and the units change where they should: minutes
  and hours are never shown as zero. A time in the future is shown as zero seconds ago.
\<close>

theorem relative_accurate:
  "case relative_parts diff of (n, unit, text) \<Rightarrow>
     (0 \<le> diff \<longrightarrow> \<bar>of_int n * of_nat unit - diff\<bar> \<le> of_nat unit / 2) \<and>
     (diff < 0 \<longrightarrow> n = 0 \<and> unit = 1) \<and>
     (unit = 1 \<and> 0 \<le> n \<and> n \<le> 60 \<or> unit = 60 \<and> 1 \<le> n \<and> n \<le> 60 \<or> unit = 3600 \<and> 1 \<le> n \<and> n \<le> 24 \<or>
      unit = 86400 \<and> 1 \<le> n)"
proof -
  have near: "\<bar>of_int (js_round (diff / u)) * u - diff\<bar> \<le> u / 2" if "0 < u" for u :: rat
  proof -
    have "\<bar>(of_int (js_round (diff / u)) - diff / u) * u\<bar> \<le> 1 / 2 * u"
      using js_round_near [of "diff / u"] that by (simp add: abs_mult mult_right_mono)
    moreover have "(of_int (js_round (diff / u)) - diff / u) * u = of_int (js_round (diff / u)) * u - diff"
      using that by (simp add: left_diff_distrib)
    ultimately show ?thesis by simp
  qed
  have lo: "a \<le> diff / u \<Longrightarrow> of_int k = a \<Longrightarrow> k \<le> js_round (diff / u)" for a u :: rat and k
    using js_round_mono [of a "diff / u"] by auto
  have hi: "diff / u < a \<Longrightarrow> of_int k = a \<Longrightarrow> js_round (diff / u) \<le> k" for a u :: rat and k
    using js_round_mono [of "diff / u" a] by auto
  consider "diff < 0" | "0 \<le> diff" "diff < 60" | "60 \<le> diff" "diff < 3600" | "3600 \<le> diff" "diff < 86400" | "86400 \<le> diff"
    by linarith
  then show ?thesis
  proof cases
    case 1
    then have "js_round diff \<le> 0" using js_round_mono [of diff 0] js_round_of_int [of 0] by simp
    with 1 show ?thesis by (simp add: relative_parts_def)
  next
    case 2
    with near [of 1] js_round_nonneg [of diff] hi [of 1 60 60] show ?thesis by (simp add: relative_parts_def)
  next
    case 3
    with near [of 60] lo [of 1 60 1] hi [of 60 60 60] show ?thesis by (simp add: relative_parts_def)
  next
    case 4
    with near [of 3600] lo [of 1 3600 1] hi [of 3600 24 24] show ?thesis by (simp add: relative_parts_def)
  next
    case 5
    with near [of 86400] lo [of 1 86400 1] show ?thesis by (simp add: relative_parts_def)
  qed
qed

text \<open>The unit is chosen before rounding, so the last half unit is shown as 60 seconds, 60 minutes or 24 hours.\<close>

lemma relative_rounds_up:
  "relative_parts (119 / 2) = (60, 1, ''s ago'')" "relative_parts 3599 = (60, 60, ''m ago'')"
  "relative_parts 86399 = (24, 3600, ''h ago'')"
  by (simp_all add: relative_parts_def js_round_def floor_eq_iff)

section \<open>Sizes\<close>

definition fmtBytes :: "nat \<Rightarrow> string" where
  "fmtBytes n =
     (if n < 1024 then nat_to_string n @ '' B''
      else if n < 1024 * 1024 then toFixed 1 (of_nat n / 1024) @ '' KB''
      else if n < 1024 * 1024 * 1024 then toFixed 1 (of_nat n / 1024 / 1024) @ '' MB''
      else toFixed 2 (of_nat n / 1024 / 1024 / 1024) @ '' GB'')"

definition nsToMs :: "rat option \<Rightarrow> string" where
  "nsToMs ns = (case ns of None \<Rightarrow> DASH | Some n \<Rightarrow> toFixed 1 (n / 1000000) @ ''ms'')"

text \<open>The loop of \<open>formatBytes\<close>: divide while it is too large and there is a larger unit.\<close>

function scale_bytes :: "rat \<Rightarrow> nat \<Rightarrow> rat \<times> nat" where
  "scale_bytes v u = (if v \<ge> 1024 \<and> u < 3 then scale_bytes (v / 1024) (u + 1) else (v, u))"
  by pat_completeness auto
termination by (relation "measure (\<lambda>(v, u). 3 - u)") auto

declare scale_bytes.simps [simp del]

text \<open>
  The size that is shown is the size: scaled back it is the number of bytes, the unit is one of the
  four, and the number is below 1024 unless there is no larger unit.
\<close>

theorem scale_bytes_spec:
  assumes "0 \<le> bytes"
  shows "case scale_bytes bytes 0 of (v, u) \<Rightarrow>
    v * 1024 ^ u = bytes \<and> u \<le> 3 \<and> (v < 1024 \<or> u = 3) \<and> (u = 0 \<or> 1 \<le> v)"
proof -
  have "u \<le> 3 \<Longrightarrow> 0 \<le> v \<Longrightarrow> u = 0 \<or> 1 \<le> v \<Longrightarrow>
    (case scale_bytes v u of (w, t) \<Rightarrow> w * 1024 ^ t = v * 1024 ^ u \<and> t \<le> 3 \<and> (w < 1024 \<or> t = 3) \<and> (t = 0 \<or> 1 \<le> w))" for v u
  proof (induction v u rule: scale_bytes.induct)
    case (1 v u)
    show ?case
    proof (cases "v \<ge> 1024 \<and> u < 3")
      case True
      with 1 show ?thesis by (subst scale_bytes.simps) (auto simp: split: prod.splits)
    next
      case False
      with 1 show ?thesis by (subst scale_bytes.simps) auto
    qed
  qed
  from this [of 0 bytes] assms show ?thesis by simp
qed

definition formatBytes :: "rat \<Rightarrow> string" where
  "formatBytes bytes =
     (if bytes = 0 then DASH
      else (case scale_bytes bytes 0 of (v, u) \<Rightarrow> toFixed (if v \<ge> 10 then 0 else 1) v @ '' '' @ [''B'', ''KB'', ''MB'', ''GB''] ! u))"

end
