(* ===== verification/Runtime.thy ===== *)
theory Runtime
  imports Capture Format
begin

text \<open>
  The runtime sampler (\<open>sdk-node/src/runtime/index.ts\<close>): a timer that turns the counters of the
  process into one \<open>RuntimeSampleEvent\<close> per interval. What Node reports (memory, CPU clocks, the
  event-loop histogram, handles, the Knex pool) is the argument of a tick; the garbage collections
  observed since the last tick are state of the sampler.
\<close>

section \<open>The sampler\<close>

text \<open>A pool function: absent, or a call that throws (\<open>None\<close>) or gives a number (\<open>None\<close> inside for one that is not finite).\<close>

definition callSafe :: "int option option option \<Rightarrow> int \<Rightarrow> int" where
  "callSafe fn fallback =
     (case fn of Some (Some (Some v)) \<Rightarrow> v | _ \<Rightarrow> fallback)"

record pool_stats =
  pl_max :: "int option"
  pl_numUsed :: "int option option option"
  pl_numFree :: "int option option option"
  pl_numPendingAcquires :: "int option option option"

text \<open>
  What one tick reads. The CPU clock is read twice: once for the difference to the previous reading,
  once for the reading that the next tick is compared with.
\<close>

record readings =
  rd_rss :: int
  rd_heapUsed :: int
  rd_heapTotal :: int
  rd_external :: int
  rd_arrayBuffers :: "int option"
  rd_cpu :: "int \<times> int"
  rd_cpuAgain :: "int \<times> int"
  rd_p50 :: rat
  rd_p99 :: rat
  rd_max :: "rat option"
  rd_handles :: "nat option"
  rd_requests :: "nat option"
  rd_pool :: "pool_stats option"
  rd_nowMs :: int
  rd_newId :: string

record sampler =
  sp_intervalMs :: int
  sp_gcCount :: nat
  sp_gcTotalNs :: int
  sp_lastCpu :: "int \<times> int"
  sp_running :: bool
  sp_observing :: bool
  sp_sent :: "event list"

definition instrumentRuntime :: "int option \<Rightarrow> int \<times> int \<Rightarrow> sampler" where
  "instrumentRuntime intervalMs cpu =
     \<lparr>sp_intervalMs = max 100 (case intervalMs of None \<Rightarrow> 1000 | Some n \<Rightarrow> n), sp_gcCount = 0, sp_gcTotalNs = 0,
      sp_lastCpu = cpu, sp_running = True, sp_observing = True, sp_sent = []\<rparr>"

text \<open>A garbage collection of the given duration in milliseconds.\<close>

definition on_gc :: "rat \<Rightarrow> sampler \<Rightarrow> sampler" where
  "on_gc ms s =
     (if sp_observing s
      then s\<lparr>sp_gcCount := sp_gcCount s + 1, sp_gcTotalNs := sp_gcTotalNs s + js_round (ms * 1000000)\<rparr> else s)"

definition or_zero :: "'a::zero option \<Rightarrow> 'a" where
  "or_zero x = (case x of None \<Rightarrow> 0 | Some n \<Rightarrow> n)"

definition tick_sample :: "readings \<Rightarrow> sampler \<Rightarrow> runtime_sample" where
  "tick_sample r s =
     (let pool = (\<lambda>f. callSafe (Option.bind (rd_pool r) f) 0)
      in \<lparr>rs_memRss = rd_rss r, rs_memHeapUsed = rd_heapUsed r, rs_memHeapTotal = rd_heapTotal r,
          rs_memExternal = rd_external r, rs_memArrayBuffers = or_zero (rd_arrayBuffers r),
          rs_cpuUserUs = fst (rd_cpu r) - fst (sp_lastCpu s), rs_cpuSystemUs = snd (rd_cpu r) - snd (sp_lastCpu s),
          rs_eventLoopP50Ns = js_round (rd_p50 r), rs_eventLoopP99Ns = js_round (rd_p99 r),
          rs_eventLoopMaxNs = (case rd_max r of None \<Rightarrow> 0 | Some m \<Rightarrow> js_round m),
          rs_gcCount = sp_gcCount s, rs_gcTotalPauseNs = sp_gcTotalNs s,
          rs_activeHandles = or_zero (rd_handles r), rs_activeRequests = or_zero (rd_requests r),
          rs_dbPoolUsed = pool pl_numUsed, rs_dbPoolFree = pool pl_numFree, rs_dbPoolPending = pool pl_numPendingAcquires,
          rs_dbPoolMax = (case Option.bind (rd_pool r) pl_max of None \<Rightarrow> 0 | Some m \<Rightarrow> m)\<rparr>)"

text \<open>A tick of the timer; once the timer is cleared there are none.\<close>

definition tick :: "readings \<Rightarrow> sampler \<Rightarrow> sampler" where
  "tick r s =
     (if \<not> sp_running s then s
      else s\<lparr>sp_lastCpu := rd_cpuAgain r, sp_gcCount := 0, sp_gcTotalNs := 0,
             sp_sent := sp_sent s @
               [make_event (rd_newId r) (rd_nowMs r * 1000000) ''runtime.node'' [] [] (RuntimePayload (tick_sample r s))]\<rparr>)"

definition stop_sampler :: "sampler \<Rightarrow> sampler" where
  "stop_sampler s = s\<lparr>sp_running := False, sp_observing := False\<rparr>"

datatype runtime_event = Tick readings | Gc rat | StopSampler

fun runtime_step :: "runtime_event \<Rightarrow> sampler \<Rightarrow> sampler" where
  "runtime_step (Tick r) s = tick r s"
| "runtime_step (Gc ms) s = on_gc ms s"
| "runtime_step StopSampler s = stop_sampler s"

section \<open>Windows add up\<close>

fun sample_of :: "payload \<Rightarrow> runtime_sample option" where
  "sample_of (RuntimePayload rs) = Some rs"
| "sample_of _ = None"

abbreviation samples :: "sampler \<Rightarrow> runtime_sample list" where
  "samples s \<equiv> List.map_filter (\<lambda>e. sample_of (ev_payload e)) (sp_sent s)"

text \<open>What happened before the sampler was stopped.\<close>

fun live :: "runtime_event list \<Rightarrow> runtime_event list" where
  "live (StopSampler # evs) = []"
| "live (e # evs) = e # live evs"
| "live [] = []"

fun gc_ns :: "runtime_event \<Rightarrow> int" where
  "gc_ns (Gc ms) = js_round (ms * 1000000)"
| "gc_ns _ = 0"

fun is_gc :: "runtime_event \<Rightarrow> bool" where
  "is_gc (Gc ms) = True"
| "is_gc _ = False"

text \<open>The CPU time that passes between the two readings of a tick is in no window.\<close>

fun cpu_gap :: "runtime_event \<Rightarrow> int" where
  "cpu_gap (Tick r) = fst (rd_cpuAgain r) - fst (rd_cpu r)"
| "cpu_gap _ = 0"

lemma stopped_fixed: "\<not> sp_running s \<Longrightarrow> \<not> sp_observing s \<Longrightarrow> fold runtime_step evs s = s"
proof (induction evs arbitrary: s)
  case (Cons e evs)
  then have "runtime_step e s = s" by (cases e) (simp_all add: tick_def on_gc_def stop_sampler_def)
  with Cons show ?case by simp
qed simp

lemma samples_tick: "sp_running s \<Longrightarrow> samples (tick r s) = samples s @ [tick_sample r s]"
  by (simp add: tick_def make_event_def map_filter_def)

lemma runtime_totals:
  assumes "sp_running s" "sp_observing s"
  shows "(let s' = fold runtime_step evs s
          in sum_list (map rs_gcCount (samples s')) + sp_gcCount s' =
               sum_list (map rs_gcCount (samples s)) + sp_gcCount s + length (filter is_gc (live evs)) \<and>
             sum_list (map rs_gcTotalPauseNs (samples s')) + sp_gcTotalNs s' =
               sum_list (map rs_gcTotalPauseNs (samples s)) + sp_gcTotalNs s + sum_list (map gc_ns (live evs)) \<and>
             sum_list (map rs_cpuUserUs (samples s')) + sum_list (map cpu_gap (live evs)) =
               sum_list (map rs_cpuUserUs (samples s)) + fst (sp_lastCpu s') - fst (sp_lastCpu s))"
  using assms
proof (induction evs arbitrary: s)
  case (Cons e evs)
  show ?case
  proof (cases e)
    case (Tick r)
    have "sp_running (tick r s)" "sp_observing (tick r s)" using Cons.prems by (simp_all add: tick_def)
    from Cons.IH [OF this] samples_tick [OF Cons.prems(1), of r] Tick show ?thesis
      using Cons.prems(1) by (auto simp: Let_def tick_sample_def tick_def)
  next
    case (Gc ms)
    have "sp_running (on_gc ms s)" "sp_observing (on_gc ms s)" using Cons.prems by (simp_all add: on_gc_def)
    from Cons.IH [OF this] Gc Cons.prems(2) show ?thesis by (simp add: Let_def on_gc_def)
  next
    case StopSampler
    then show ?thesis by (simp add: stopped_fixed stop_sampler_def)
  qed
qed (simp add: Let_def)


end
