(* ===== verification/Event_Codec.thy ===== *)
theory Event_Codec
  imports Wal Capture "HOL-Library.Countable"
begin

text \<open>
  The codec of the log is generated protobuf code and a parameter of the model, with the contract
  \<open>codec_ok\<close>: decoding gives back what was encoded. Here the contract is met for the events of the
  adapters: they are finite data, hence countable, and a batch with its id can be told from any
  other by a string of bytes.
\<close>

section \<open>Events are countable\<close>

instance blob_ref_ext :: (countable) countable
  by (rule countable_classI [of "\<lambda>r. to_nat (blob_bucket r, blob_key r, blob_sha256 r, blob_ref.more r)"])
    (auto intro: blob_ref.equality)

instance body_payload :: countable
  by countable_datatype

instance body_ext :: (countable) countable
  by (rule countable_classI [of "\<lambda>r. to_nat (body_payload r, body_contentType r, body_sizeBytes r, body_encoding r, body.more r)"])
    (auto intro: body.equality)

instance http_event_ext :: (countable) countable
  by (rule countable_classI [of "\<lambda>r. to_nat (he_method r, he_path r, he_httpVersion r, he_headers r, he_requestBody r,
      he_status r, he_responseHeaders r, he_responseBody r, he_durationNs r,
      he_sourceIp r, he_userId r, he_routeTemplate r, http_event.more r)"])
    (auto intro: http_event.equality)

instance outbound_event_ext :: (countable) countable
  by (rule countable_classI [of "\<lambda>r. to_nat (oe_target r, oe_http r, oe_causedByEventId r, oe_responseHash r,
      outbound_event.more r)"])
    (auto intro: outbound_event.equality)

instance socket_op :: countable
  by countable_datatype

instance socket_event_ext :: (countable) countable
  by (rule countable_classI [of "\<lambda>r. to_nat (se_socketId r, se_op r, se_namespace r, se_eventName r, se_data r, se_handshake r,
      se_userId r, se_durationNs r, socket_event.more r)"])
    (auto intro: socket_event.equality)

instance cron_event_ext :: (countable) countable
  by (rule countable_classI [of "\<lambda>r. to_nat (ce_jobName r, ce_scheduler r, ce_args r, ce_durationNs r, ce_status r,
      ce_errorMessage r, ce_triggerSource r, cron_event.more r)"])
    (auto intro: cron_event.equality)

instance queue_event_ext :: (countable) countable
  by (rule countable_classI [of "\<lambda>r. to_nat (qe_queueName r, qe_broker r, qe_messageId r, qe_payload r, qe_retryCount r,
      qe_durationNs r, qe_status r, qe_headers r, queue_event.more r)"])
    (auto intro: queue_event.equality)

instance db_event_ext :: (countable) countable
  by (rule countable_classI [of "\<lambda>r. to_nat (de_queryFingerprint r, de_queryText r, de_durationNs r, de_rowsAffected r,
      de_applicationName r, de_causedByEventId r, db_event.more r)"])
    (auto intro: db_event.equality)

instance runtime_sample_ext :: (countable) countable
  by (rule countable_classI [of "\<lambda>r. to_nat (rs_memRss r, rs_memHeapUsed r, rs_memHeapTotal r, rs_memExternal r,
      rs_memArrayBuffers r, rs_cpuUserUs r, rs_cpuSystemUs r, rs_eventLoopP50Ns r,
      rs_eventLoopP99Ns r, rs_eventLoopMaxNs r, rs_gcCount r, rs_gcTotalPauseNs r,
      rs_activeHandles r, rs_activeRequests r, rs_dbPoolUsed r, rs_dbPoolFree r,
      rs_dbPoolPending r, rs_dbPoolMax r, runtime_sample.more r)"])
    (auto intro: runtime_sample.equality)

instance payload :: countable
  by countable_datatype

instance event_ext :: (countable) countable
  by (rule countable_classI [of "\<lambda>r. to_nat (ev_id r, ev_sessionId r, ev_timestampNs r, ev_offsetNs r, ev_adapter r,
      ev_sdkVersion r, ev_metadata r, ev_redactionsApplied r, ev_payload r,
      event.more r)"])
    (auto intro: event.equality)

section \<open>A codec\<close>

definition number_enc :: "event encoder" where
  "number_enc evs b = replicate (to_nat (evs, b)) 0"

definition number_dec :: "event decoder" where
  "number_dec bs = Some (from_nat (length bs))"

lemma number_codec_ok: "codec_ok number_enc number_dec"
  by (simp add: codec_ok_def number_enc_def number_dec_def)

end
