(* ===== verification/Pipeline.thy ===== *)
theory Pipeline
  imports Client_Props Outbound Jobs Orm Runtime Event_Codec
begin

text \<open>
  Capture and delivery together: the adapters hand the events they record to the client
  (\<open>client.sendBatch([event])\<close> in every adapter of \<open>sdk-node/src\<close>), and the client delivers them or
  keeps them. An adapter relies on little of the client, the interface \<open>EventSink\<close> of
  \<open>adapters/http/express.ts\<close>: locale \<open>event_sink\<close>; and the client on nothing of the adapters but that
  they only add to what they have sent: locale \<open>event_source\<close>. The composed system interleaves any
  number of requests, calls, jobs, statements, samples and sockets with everything that can happen to the client. An event is
  built by its adapter and handed over by the adapter's task, in a batch of its own; between the two the task may wait (for the upload
  of a body), so events are handed over in any order.
\<close>

section \<open>The two interfaces\<close>

locale event_source =
  fixes step :: "'s \<Rightarrow> 'a \<Rightarrow> 'a" and sent :: "'a \<Rightarrow> event list"
  assumes only_adds: "take (length (sent a)) (sent (step s a)) = sent a"
begin

lemma step_sent: "sent (step s a) = sent a @ drop (length (sent a)) (sent (step s a))"
  using append_take_drop_id [of "length (sent a)" "sent (step s a)"] by (simp add: only_adds)

lemma run_sent: "\<exists>new. sent (fold step sigs a) = sent a @ new"
proof (induction sigs arbitrary: a)
  case (Cons s sigs)
  from Cons.IH [of "step s a"] step_sent [of s a] show ?case by (metis append.assoc fold_simps(2))
qed simp

end

text \<open>
  A sink takes each batch or turns it away, and keeps count of both.
\<close>

locale event_sink =
  fixes send :: "'e list \<Rightarrow> 'c \<Rightarrow> 'c" and accepted :: "'c \<Rightarrow> 'e list list" and turned_away :: "'c \<Rightarrow> nat"
  assumes send_cases: "accepted (send evs c) = accepted c @ [evs] \<and> turned_away (send evs c) = turned_away c \<or>
      accepted (send evs c) = accepted c \<and> turned_away (send evs c) = Suc (turned_away c)"
begin

lemma hand_over:
  "\<exists>ks. accepted (send [e] c) = accepted c @ map (\<lambda>e. [e]) ks \<and> mset ks \<subseteq># {#e#} \<and>
     turned_away (send [e] c) + length ks = Suc (turned_away c)"
  using send_cases [of "[e]" c]
proof
  assume "accepted (send [e] c) = accepted c @ [[e]] \<and> turned_away (send [e] c) = turned_away c"
  then show ?thesis by (intro exI [of _ "[e]"]) simp
next
  assume "accepted (send [e] c) = accepted c \<and> turned_away (send [e] c) = Suc (turned_away c)"
  then show ?thesis by (intro exI [of _ "[]"]) simp
qed

end

interpretation snk: event_sink sendBatch "\<lambda>c. map snd (c_submitted c)" "\<lambda>c. c_dropped c + c_notStarted c"
  by unfold_locales
    (auto simp: sendBatch_def Let_def sendOverStream_def add_task_def write_stream_def split: option.splits bool.splits)

interpretation tap: event_source "tap_step build opts" tap_sent for build opts
proof unfold_locales
  show "take (length (tap_sent a)) (tap_sent (tap_step build opts s a)) = tap_sent a" for s a
    by (cases s) (simp_all add: tap_push_res_def tap_push_req_def split: option.splits sum.splits)
qed

interpretation ffy: event_source "fastify_step opts" fs_sent for opts
proof unfold_locales
  show "take (length (fs_sent a)) (fs_sent (fastify_step opts s a)) = fs_sent a" for s a
    by (cases s) (simp_all add: Let_def split: option.splits chunk.splits sum.splits)
qed

interpretation obc: event_source "outbound_step sha opts" ob_sent for sha opts
proof unfold_locales
  show "take (length (ob_sent a)) (ob_sent (outbound_step sha opts s a)) = ob_sent a" for s a
    by (cases s) (simp_all add: outbound_finish_def Let_def)
qed

lemma fold_io_sent:
  assumes "\<And>h io. \<exists>new. io_sent (f h io) = io_sent io @ new"
  shows "take (length (io_sent io)) (io_sent (fold f hs io)) = io_sent io"
proof -
  have "\<exists>new. io_sent (fold f hs io) = io_sent io @ new"
  proof (induction hs arbitrary: io)
    case (Cons h hs)
    from Cons.IH [of "f h io"] assms [of h io] show ?case by (metis append.assoc fold_simps(2))
  qed simp
  then show ?thesis by auto
qed

interpretation skt: event_source "io_step opts" io_sent for opts
proof unfold_locales
  show "take (length (io_sent a)) (io_sent (io_step opts s a)) = io_sent a" for s a
    by (cases s) (auto simp: io_of_def wire_def hook_event_def installSocketHooks_def Let_def intro!: fold_io_sent)
qed

interpretation pgq: event_source "\<lambda>(scope, a, setFails, res, renames, newId, nowMs, t, t') c.
    snd (patchedQuery opts scope a setFails res renames newId nowMs t t' c)" pg_events for opts
  by unfold_locales (auto simp: patchedQuery_def pg_run_def Let_def split: option.splits prod.splits)

interpretation pgc: event_source "\<lambda>(scope, a, setFails, err, res, renames, cbScope, newId, nowMs, t, t') c.
    snd (patchedQuery_callback opts scope a setFails err res renames cbScope newId nowMs t t' c)" pg_events for opts
  by unfold_locales (auto simp: patchedQuery_callback_def pg_run_def Let_def split: option.splits prod.splits)

interpretation rts: event_source runtime_step sp_sent
proof unfold_locales
  show "take (length (sp_sent a)) (sp_sent (runtime_step s a)) = sp_sent a" for s a
    by (cases s) (simp_all add: tick_def on_gc_def stop_sampler_def)
qed

section \<open>The composed system\<close>

text \<open>
  What is being captured: a request seen by Express or Koa, a Fastify application, an outbound call, a socket server, a wrapped \<open>pg\<close>
  client, the runtime sampler; and, with no state of their own between two calls, the patched \<open>fetch\<close>, the wrapped cron jobs and
  queue processors, and the Prisma and Mongoose hooks, whose events a recorder collects.
\<close>

datatype adapter =
    HttpTap event_builder http_tap
  | FastifyApp fastify
  | OutboundCall outbound_call
  | SocketIo socket_server
  | PgClient wrap_options pg_conn
  | RuntimeSampler sampler
  | Recorder "event list"

fun adapter_sent :: "adapter \<Rightarrow> event list" where
  "adapter_sent (HttpTap build t) = tap_sent t"
| "adapter_sent (FastifyApp f) = fs_sent f"
| "adapter_sent (OutboundCall c) = ob_sent c"
| "adapter_sent (SocketIo io) = io_sent io"
| "adapter_sent (PgClient o' c) = pg_events c"
| "adapter_sent (RuntimeSampler s) = sp_sent s"
| "adapter_sent (Recorder evs) = evs"

inductive recorded :: "(bytes \<Rightarrow> bytes) \<Rightarrow> capture_options \<Rightarrow> event list \<Rightarrow> bool" for sha opts where
  rec_fetch: "recorded sha opts (pf_sent (patchedFetch parse_url sha opts skip scope eid nowMs dur orig inp ini))"
| rec_cron: "recorded sha opts [cron_event_of name trigger eid startWallNs dur out]"
| rec_bull: "recorded sha opts [bull_buildEvent eid queue job startWallNs dur status err]"
| rec_prisma: "prismaOperation names emit scope o' newId nowMs t t' = (sets, evs, res) \<Longrightarrow> recorded sha opts evs"
| rec_mongoose: "recorded sha opts (run_hooks cfg registered scope ids nowMs t t' op q)"

text \<open>The wrapped jobs send the events of these rules, whatever the job does.\<close>

lemma job_events_recorded:
  "captureCronJob name trigger fn eid nowMs dur args w = (r, w') \<Longrightarrow> recorded sha opts (jr_sent r)"
  "captureBullMQ queue p eid nowMs dur job v = (r, v') \<Longrightarrow> recorded sha opts (jr_sent r)"
  by (auto simp: captureCronJob_def captureBullMQ_def Let_def intro: rec_cron rec_bull split: prod.splits)

definition pg_adapter_ok :: "wrap_options \<Rightarrow> bool" where
  "pg_adapter_ok o' \<longleftrightarrow> (\<forall>adapter cfg. wo_emit o' = Some (adapter, cfg) \<longrightarrow> adapter \<in> {''db.postgres'', ''db.knex''})"

inductive adapter_new :: "capture_options \<Rightarrow> adapter \<Rightarrow> bool" for opts where
  new_express: "capture_middleware opts draw eid nowMs hs = Some (t, scope) \<Longrightarrow> adapter_new opts (HttpTap express_buildEvent t)"
| new_koa: "capture_middleware opts draw eid nowMs hs = Some (t, scope) \<Longrightarrow> adapter_new opts (HttpTap koa_buildEvent t)"
| new_fastify: "adapter_new opts (FastifyApp \<lparr>fs_state = [], fs_sent = [], fs_errors = []\<rparr>)"
| new_outbound: "patchedRequest parse_url opts skip proto scope nowMs args = Captured c \<Longrightarrow> adapter_new opts (OutboundCall c)"
| new_socket: "io_sent io = [] \<Longrightarrow> adapter_new opts (SocketIo (captureSocketIO io))"
| new_pg: "pg_events c = [] \<Longrightarrow> pg_adapter_ok o' \<Longrightarrow> adapter_new opts (PgClient o' (wrapPgClientWithAppName c))"
| new_runtime: "adapter_new opts (RuntimeSampler (instrumentRuntime interval cpu))"
| new_recorder: "adapter_new opts (Recorder [])"

inductive adapter_step :: "(bytes \<Rightarrow> bytes) \<Rightarrow> capture_options \<Rightarrow> socket_options \<Rightarrow> adapter \<Rightarrow> adapter \<Rightarrow> bool"
  for sha opts sopts where
  tap_signal: "adapter_step sha opts sopts (HttpTap build t) (HttpTap build (tap_step build opts s t))"
| fastify_signal: "adapter_step sha opts sopts (FastifyApp f) (FastifyApp (fastify_step opts h f))"
| outbound_signal: "adapter_step sha opts sopts (OutboundCall c) (OutboundCall (outbound_step sha opts g c))"
| socket_signal: "adapter_step sha opts sopts (SocketIo io) (SocketIo (io_step sopts v io))"
| pg_query: "adapter_step sha opts sopts (PgClient o' c)
    (PgClient o' (snd (patchedQuery o' scope a setFails res renames newId nowMs t t' c)))"
| pg_query_callback: "adapter_step sha opts sopts (PgClient o' c)
    (PgClient o' (snd (patchedQuery_callback o' scope a setFails err res' renames cbScope newId nowMs t t' c)))"
| runtime_signal: "adapter_step sha opts sopts (RuntimeSampler s) (RuntimeSampler (runtime_step e s))"
| recorder_call: "recorded sha opts evs \<Longrightarrow> adapter_step sha opts sopts (Recorder past) (Recorder (past @ evs))"

definition newly_sent :: "adapter \<Rightarrow> adapter \<Rightarrow> event list" where
  "newly_sent a a' = drop (length (adapter_sent a)) (adapter_sent a')"

text \<open>
  The runs: the client does anything but take a batch; something new is captured; an adapter gets a
  signal, and the events it builds wait in their tasks; one of those is handed to the client.
\<close>

inductive pipeline :: "event encoder \<Rightarrow> event decoder \<Rightarrow> string \<Rightarrow> (bytes \<Rightarrow> bytes) \<Rightarrow> capture_options \<Rightarrow> socket_options
    \<Rightarrow> client_config \<Rightarrow> fs \<Rightarrow> event client \<Rightarrow> adapter list \<Rightarrow> event list \<Rightarrow> bool"
  for enc dec tmp sha opts sopts cfg f where
  pipe_init: "pipeline enc dec tmp sha opts sopts cfg f (new_client cfg f) [] []"
| pipe_client: "pipeline enc dec tmp sha opts sopts cfg f c as q \<Longrightarrow> client_step enc dec tmp c c' \<Longrightarrow>
    c_submitted c' = c_submitted c \<Longrightarrow> c_dropped c' + c_notStarted c' = c_dropped c + c_notStarted c \<Longrightarrow>
    pipeline enc dec tmp sha opts sopts cfg f c' as q"
| pipe_arrive: "pipeline enc dec tmp sha opts sopts cfg f c as q \<Longrightarrow> adapter_new opts a \<Longrightarrow>
    pipeline enc dec tmp sha opts sopts cfg f c (as @ [a]) q"
| pipe_signal: "pipeline enc dec tmp sha opts sopts cfg f c (xs @ a # ys) q \<Longrightarrow> adapter_step sha opts sopts a a' \<Longrightarrow>
    pipeline enc dec tmp sha opts sopts cfg f c (xs @ a' # ys) (q @ newly_sent a a')"
| pipe_send: "pipeline enc dec tmp sha opts sopts cfg f c as (u @ e # v) \<Longrightarrow>
    pipeline enc dec tmp sha opts sopts cfg f (sendBatch [e] c) as (u @ v)"

lemma adapter_new_sent: "adapter_new opts a \<Longrightarrow> adapter_sent a = []"
  by (induction rule: adapter_new.induct)
    (auto simp: capture_middleware_def patchedRequest_def captureSocketIO_def io_of_def wire_def wrapPgClientWithAppName_def
      instrumentRuntime_def Let_def split: if_splits sum.splits option.splits)

lemma adapter_step_sent:
  assumes "adapter_step sha opts sopts a a'"
  shows "adapter_sent a' = adapter_sent a @ newly_sent a a'"
  using assms unfolding newly_sent_def
proof (induction rule: adapter_step.induct)
  case (pg_query o' c scope a setFails res renames newId nowMs t t')
  show ?case
    using pgq.step_sent [where s = "(scope, a, setFails, res, renames, newId, nowMs, t, t')" and a = c and opts = o'] by simp
next
  case (pg_query_callback o' c scope a setFails err res' renames cbScope newId nowMs t t')
  show ?case
    using pgc.step_sent [where s = "(scope, a, setFails, err, res', renames, cbScope, newId, nowMs, t, t')" and a = c and opts = o']
    by simp
qed (simp_all add: tap.step_sent [symmetric] ffy.step_sent [symmetric] obc.step_sent [symmetric] skt.step_sent [symmetric]
    rts.step_sent [symmetric])

lemma pipeline_reachable: "pipeline enc dec tmp sha opts sopts cfg f c as q \<Longrightarrow> reachable enc dec tmp cfg f c"
  by (induction rule: pipeline.induct) (auto intro: reachable.intros call_sendBatch)

text \<open>The ledger: what the client took and what still waits are single events of the adapters, and the rest was counted.\<close>

definition ledger :: "'e client \<Rightarrow> 'e list \<Rightarrow> 'e list \<Rightarrow> 'e list \<Rightarrow> bool" where
  "ledger c sent q ks \<longleftrightarrow> map snd (c_submitted c) = map (\<lambda>e. [e]) ks \<and> mset ks + mset q \<subseteq># mset sent \<and>
     c_dropped c + c_notStarted c + length ks + length q = length sent"

lemma ledger_signal:
  assumes "ledger c sent q ks" "mset sent' = mset sent + mset es"
  shows "ledger c sent' (q @ es) ks"
proof -
  have "length sent' = length sent + length es" using assms(2) by (metis size_mset size_union)
  moreover have "mset ks + mset (q @ es) \<subseteq># mset sent'"
    using assms unfolding ledger_def by (simp add: add.assoc [symmetric])
  ultimately show ?thesis using assms(1) by (simp add: ledger_def)
qed

lemma ledger_send:
  assumes "ledger c sent (u @ e # v) ks"
  shows "\<exists>ks'. ledger (sendBatch [e] c) sent (u @ v) (ks @ ks')"
proof -
  obtain ks' where ks': "map snd (c_submitted (sendBatch [e] c)) = map snd (c_submitted c) @ map (\<lambda>e. [e]) ks'"
    "mset ks' \<subseteq># {#e#}"
    "c_dropped (sendBatch [e] c) + c_notStarted (sendBatch [e] c) + length ks' = Suc (c_dropped c + c_notStarted c)"
    using snk.hand_over [of e c] by blast
  have "mset (ks @ ks') + mset (u @ v) \<subseteq># mset ks + mset (u @ e # v)"
    using ks'(2) by (simp add: ac_simps)
  then have "mset (ks @ ks') + mset (u @ v) \<subseteq># mset sent"
    using assms subset_mset.order_trans unfolding ledger_def by blast
  with assms ks' show ?thesis by (intro exI [of _ ks']) (simp add: ledger_def)
qed

lemma pipeline_ledger:
  "pipeline enc dec tmp sha opts sopts cfg f c as q \<Longrightarrow> \<exists>ks. ledger c (concat (map adapter_sent as)) q ks"
proof (induction rule: pipeline.induct)
  case pipe_init
  show ?case by (rule exI [of _ "[]"]) (simp add: ledger_def new_client_def)
next
  case (pipe_client c as q c')
  then show ?case by (simp add: ledger_def)
next
  case (pipe_arrive c as q a)
  then show ?case by (simp add: adapter_new_sent)
next
  case (pipe_signal c xs a ys q a')
  then obtain ks where "ledger c (concat (map adapter_sent (xs @ a # ys))) q ks" by blast
  moreover have "mset (concat (map adapter_sent (xs @ a' # ys))) =
      mset (concat (map adapter_sent (xs @ a # ys))) + mset (newly_sent a a')"
    using adapter_step_sent [OF pipe_signal.hyps(2)] by (simp add: ac_simps)
  ultimately show ?case using ledger_signal by blast
next
  case (pipe_send c as u e v)
  then show ?case using ledger_send by metis
qed



text \<open>
  A run: the client is started, an Express request arrives and finishes, its event is sent over the
  stream and acknowledged.
\<close>

definition pipe_cfg :: client_config where
  "pipe_cfg = run_cfg\<lparr>cfg_walDisabled := True\<rparr>"

definition pipe_sopts :: socket_options where
  "pipe_sopts = \<lparr>sk_sampleRate = None, sk_maxPayloadInlineBytes = None, sk_userExtractor = None\<rparr>"

abbreviation take_first :: "event client \<Rightarrow> event client" where
  "take_first c \<equiv> c\<lparr>c_tasks := tl (c_tasks c)\<rparr>"

definition pipe1 :: "event client" where "pipe1 = start_client (new_client pipe_cfg run_fs)"
definition pipe2 :: "event client" where "pipe2 = sessionStarted [] ''s1'' OpenForStart (take_first pipe1)"
definition pipe3 :: "event client" where "pipe3 = sessionOpened run_ack ''s1'' OpenForStart (take_first pipe2)"
definition tap0 :: http_tap where "tap0 = fst (the (capture_middleware plain_options 0 ''ev1'' 5 []))"
definition tap1 :: http_tap where "tap1 = tap_step express_buildEvent plain_options (ResFinish get_info 7) tap0"
definition pipe4 :: "event client" where "pipe4 = sendBatch [hd (tap_sent tap1)] pipe3"
definition pipe5 :: "event client" where "pipe5 = onBatchAck 0 1 pipe4"

lemmas pipe_defs = pipe1_def pipe2_def pipe3_def pipe_cfg_def run_cfg_def run_fs_def run_ack_def new_client_def start_client_def
  sessionStarted_def sessionOpened_def openSession_def openStream_def add_task_def write_stream_def Let_def

abbreviation pipe_run :: "event client \<Rightarrow> adapter list \<Rightarrow> event list \<Rightarrow> bool" where
  "pipe_run c as q \<equiv> pipeline number_enc number_dec [] id plain_options pipe_sopts pipe_cfg run_fs c as q"

lemma pipe_run3: "pipe_run pipe3 [] []"
proof -
  have t: "c_tasks pipe1 = [] @ StartRpc \<lparr>open_name = ''load'', open_labels = [], open_preferredId = []\<rparr> OpenForStart # []"
    "c_tasks pipe2 = [] @ OpenHandshake 0 ''s1'' OpenForStart # []"
    by (simp_all add: pipe_defs)
  have none: "c_submitted c = [] \<and> c_dropped c + c_notStarted c = 0" if "c \<in> {new_client pipe_cfg run_fs, pipe1, pipe2, pipe3}" for c
    using that by (auto simp: pipe_defs)
  have "pipe_run pipe1 [] []"
    by (rule pipe_client [OF pipe_init]) (use none call_start in \<open>auto simp: pipe1_def\<close>)
  then have "pipe_run pipe2 [] []"
    by (rule pipe_client) (use none run_StartRpc [OF t(1), where sid = "''s1''"] t(1) in \<open>auto simp: pipe2_def\<close>)
  then show ?thesis
    by (rule pipe_client) (use none run_OpenHandshake [OF t(2), where a = run_ack] t(2) in \<open>auto simp: pipe3_def\<close>)
qed

lemma tap0_new: "adapter_new plain_options (HttpTap express_buildEvent tap0)" "tap_sent tap0 = []" "tap_eventId tap0 = ''ev1''"
proof -
  obtain t scope where m: "capture_middleware plain_options 0 ''ev1'' 5 [] = Some (t, scope)"
    by (simp add: capture_middleware_def sampled_in_def plain_options_def Let_def)
  then have t: "tap0 = t" by (simp add: tap0_def)
  have "tap_sent t = []" "tap_eventId t = ''ev1''"
    using m by (auto simp: capture_middleware_def Let_def split: if_splits)
  with new_express [OF m] show "adapter_new plain_options (HttpTap express_buildEvent tap0)" "tap_sent tap0 = []"
    "tap_eventId tap0 = ''ev1''"
    unfolding t by simp_all
qed

lemma tap1_sent: "tap_sent tap1 = [hd (tap_sent tap1)]" "ev_id (hd (tap_sent tap1)) = ''ev1''"
  by (simp_all add: tap1_def tap0_new express_buildEvent_def get_info_def make_event_def Let_def)

lemma pipe_run5: "pipe_run pipe5 [HttpTap express_buildEvent tap1] []"
proof -
  let ?a = "HttpTap express_buildEvent tap0" and ?a' = "HttpTap express_buildEvent tap1" and ?ev = "hd (tap_sent tap1)"
  have "pipe_run pipe3 ([] @ ?a # []) []" using pipe_arrive [OF pipe_run3 tap0_new(1)] by simp
  moreover have "adapter_step id plain_options pipe_sopts ?a ?a'" unfolding tap1_def by (rule tap_signal)
  ultimately have "pipe_run pipe3 ([] @ ?a' # []) ([] @ newly_sent ?a ?a')" by (rule pipe_signal)
  moreover have "newly_sent ?a ?a' = [] @ ?ev # []" using tap1_sent(1) by (simp add: newly_sent_def tap0_new(2))
  ultimately have "pipe_run pipe3 ([] @ ?a' # []) ([] @ ?ev # [])" by simp
  from pipe_send [OF this] have run: "pipe_run pipe4 [?a'] []" by (simp add: pipe4_def)
  have "(0, Batch 1 [?ev]) \<in> set (c_written pipe4)"
    by (simp add: pipe4_def sendBatch_def sendOverStream_def pipe_defs)
  from pipe_client [OF run batch_ack [OF this]] show ?thesis by (simp add: pipe5_def onBatchAck_def Let_def)
qed


section \<open>What reaches the engine is well formed\<close>

text \<open>
  The \<open>oneof\<close> of an event message and its \<open>adapter\<close> field agree; the session is left to the engine;
  what was caused by an event names it; and no body of a request, an answer or a socket message is carried inline beyond the configured
  limit. The payload of a BullMQ job has no limit.
\<close>

definition small_body :: "nat \<Rightarrow> body option \<Rightarrow> bool" where
  "small_body n b \<longleftrightarrow> (case b of None \<Rightarrow> True | Some b \<Rightarrow> (case body_payload b of Inline p \<Rightarrow> length p \<le> n | Blob r \<Rightarrow> True))"

definition event_typed :: "capture_options \<Rightarrow> socket_options \<Rightarrow> event \<Rightarrow> bool" where
  "event_typed opts sopts ev \<longleftrightarrow> ev_sessionId ev = [] \<and> ev_sdkVersion ev = ''@clearvoiance/node@'' @ SDK_VERSION \<and>
     (case ev_payload ev of
        HttpPayload h \<Rightarrow> ev_adapter ev \<in> {''http.express'', ''http.koa'', ''http.fastify''} \<and>
          small_body (max_inline opts) (he_requestBody h) \<and> small_body (max_inline opts) (he_responseBody h)
      | OutboundPayload out \<Rightarrow> ev_adapter ev \<in> {''outbound.http'', ''outbound.fetch''} \<and> oe_causedByEventId out \<noteq> [] \<and>
          small_body (max_inline opts) (he_requestBody (oe_http out)) \<and> small_body (max_inline opts) (he_responseBody (oe_http out))
      | SocketPayload s \<Rightarrow> ev_adapter ev = ''socket.io'' \<and> small_body (ho_maxPayload (hook_options_of sopts)) (se_data s)
      | CronPayload c \<Rightarrow> ev_adapter ev = ''cron.node-cron'' \<and> ce_args c = None
      | QueuePayload q \<Rightarrow> ev_adapter ev = ''queue.bullmq''
      | DbPayload d \<Rightarrow> ev_adapter ev \<in> {''db.postgres'', ''db.knex'', ''db.prisma'', ''db.mongoose''} \<and> de_causedByEventId d \<noteq> []
      | RuntimePayload r \<Rightarrow> ev_adapter ev = ''runtime.node'')"

lemma finalize_within [simp]: "small_body (max_inline opts) (fin_body (finalize_with opts ct buf))"
  by (auto simp: small_body_def finalize_with_def finalizeBody_def Let_def split: option.splits sum.splits)

lemma built_typed:
  "express_buildEvent eid ts dur i (finalize_with opts ct buf) (finalize_with opts ct' buf') deny = Inr ev \<Longrightarrow> event_typed opts sopts ev"
  "koa_buildEvent eid ts dur i (finalize_with opts ct buf) (finalize_with opts ct' buf') deny = Inr ev \<Longrightarrow> event_typed opts sopts ev"
  "fastify_buildEvent eid ts dur fi (finalize_with opts ct buf) (finalize_with opts ct' buf') deny = Inr ev \<Longrightarrow> event_typed opts sopts ev"
  by (auto simp: event_typed_def express_buildEvent_def koa_buildEvent_def fastify_buildEvent_def
      make_event_def Let_def split: sum.splits)

lemma outbound_finish_typed:
  assumes "list_all (event_typed opts sopts) (ob_sent c)" "ob_causedBy c \<noteq> []"
  shows "list_all (event_typed opts sopts) (ob_sent (outbound_finish sha opts errored eid dur c))"
  using assms by (simp add: outbound_finish_def outbound_buildEvent_def event_typed_def make_event_def Let_def)

lemma socket_body_small [simp]: "small_body n None" "small_body n (Some (socket_body n bs))"
  by (auto simp: small_body_def socket_body_def job_body_def)

lemma emit_typed: "list_all (event_typed opts sopts) (emitSocketEvent nsp s (hook_options_of sopts) ea eid nowMs)"
  by (auto simp: emitSocketEvent_def event_typed_def make_event_def Let_def split: option.splits sum.splits)

lemma db_typed:
  assumes "di_adapter i \<in> {''db.postgres'', ''db.knex'', ''db.prisma'', ''db.mongoose''}"
  shows "list_all (event_typed opts sopts) (emitDbObservation cfg i scope newId nowMs)"
  using assms by (auto simp: emitDbObservation_def event_typed_def make_event_def Let_def split: option.splits)

lemma fetch_typed:
  "list_all (event_typed opts sopts) (pf_sent (patchedFetch parse_url sha opts skip scope eid nowMs dur orig inp ini))"
  by (auto simp: patchedFetch_def event_typed_def make_event_def Let_def split: option.splits sum.splits)

lemma recorded_typed: "recorded sha opts evs \<Longrightarrow> list_all (event_typed opts sopts) evs"
proof (induction rule: recorded.induct)
  case (rec_prisma names emit scope o' newId nowMs t t' sets evs res)
  then show ?case by (auto simp: prismaOperation_def intro: db_typed split: option.splits if_splits)
next
  case (rec_mongoose cfg registered scope ids nowMs t t' op q)
  have "list_all (event_typed opts sopts) (postHook cfg scope newId nowMs endNs q')" for newId endNs q'
    by (auto simp: postHook_def Let_def intro: db_typed split: option.splits)
  then show ?case by (auto simp: run_hooks_def Let_def list_all_iff)
qed (rule fetch_typed, simp_all add: cron_event_of_def bull_buildEvent_def event_typed_def make_event_def)

lemma pg_typed:
  assumes "pg_adapter_ok o'" "list_all (event_typed opts sopts) (pg_events c)"
  shows "list_all (event_typed opts sopts) (pg_events (snd (patchedQuery o' scope a setFails res renames newId nowMs t t' c)))"
    and "list_all (event_typed opts sopts)
      (pg_events (snd (patchedQuery_callback o' scope a setFails err res' renames cbScope newId nowMs t t' c)))"
proof -
  have "list_all (event_typed opts sopts) (observe adapter cfg a res scope newId nowMs t t')"
    "list_all (event_typed opts sopts) (wrapCallbackForEmit adapter cfg a t err res' cbScope newId nowMs t')"
    if "wo_emit o' = Some (adapter, cfg)" for adapter cfg
    using assms(1) that by (auto simp: pg_adapter_ok_def observe_def wrapCallbackForEmit_def intro!: db_typed)
  with assms(2) show "list_all (event_typed opts sopts) (pg_events (snd (patchedQuery o' scope a setFails res renames newId nowMs t t' c)))"
    "list_all (event_typed opts sopts)
      (pg_events (snd (patchedQuery_callback o' scope a setFails err res' renames cbScope newId nowMs t t' c)))"
    by (auto simp: patchedQuery_def patchedQuery_callback_def pg_run_def Let_def split: option.splits)
qed

lemma fold_typed:
  assumes "\<And>h io. list_all P (io_sent io) \<Longrightarrow> list_all P (io_sent (f h io))"
  shows "list_all P (io_sent io) \<Longrightarrow> list_all P (io_sent (fold f hs io))"
  by (induction hs arbitrary: io) (auto intro: assms)

lemma io_step_typed:
  assumes "list_all (event_typed opts sopts) (io_sent io)"
  shows "list_all (event_typed opts sopts) (io_sent (io_step sopts v io))"
  using assms
  by (cases v) (auto simp: io_of_def wire_def hook_event_def installSocketHooks_def emit_typed Let_def intro!: fold_typed)

fun adapter_typed :: "capture_options \<Rightarrow> socket_options \<Rightarrow> adapter \<Rightarrow> bool" where
  "adapter_typed opts sopts (HttpTap build t) \<longleftrightarrow> build \<in> {express_buildEvent, koa_buildEvent} \<and>
     list_all (event_typed opts sopts) (tap_sent t)"
| "adapter_typed opts sopts (OutboundCall c) \<longleftrightarrow> ob_causedBy c \<noteq> [] \<and> list_all (event_typed opts sopts) (ob_sent c)"
| "adapter_typed opts sopts (PgClient o' c) \<longleftrightarrow> pg_adapter_ok o' \<and> list_all (event_typed opts sopts) (pg_events c)"
| "adapter_typed opts sopts a \<longleftrightarrow> list_all (event_typed opts sopts) (adapter_sent a)"

lemma adapter_new_typed: "adapter_new opts a \<Longrightarrow> adapter_typed opts sopts a"
proof -
  assume a: "adapter_new opts a"
  from a adapter_new_sent [OF a] show ?thesis
    by cases (auto simp: patchedRequest_def Let_def split: if_splits sum.splits option.splits)
qed

lemma adapter_step_typed:
  "adapter_step sha opts sopts a a' \<Longrightarrow> adapter_typed opts sopts a \<Longrightarrow> adapter_typed opts sopts a'"
proof (induction rule: adapter_step.induct)
  case (tap_signal build t s)
  then show ?case by (cases s) (auto simp: tap_push_res_def tap_push_req_def built_typed split: option.splits sum.splits)
next
  case (fastify_signal f h)
  then show ?case by (cases h) (auto simp: built_typed Let_def split: option.splits chunk.splits sum.splits)
next
  case (outbound_signal c g)
  have "ob_causedBy (outbound_step sha opts g c) = ob_causedBy c"
    by (cases g) (simp_all add: outbound_finish_def Let_def)
  with outbound_signal show ?case by (cases g) (auto simp: outbound_finish_typed)
next
  case (socket_signal io v)
  then show ?case by (simp add: io_step_typed)
next
  case (runtime_signal s e)
  then show ?case by (cases e) (auto simp: tick_def on_gc_def stop_sampler_def event_typed_def make_event_def)
qed (auto simp: pg_typed recorded_typed)

lemma pipeline_typed:
  "pipeline enc dec tmp sha opts sopts cfg f c as q \<Longrightarrow> list_all (adapter_typed opts sopts) as"
proof (induction rule: pipeline.induct)
  case (pipe_arrive c as q a)
  then show ?case using adapter_new_typed by auto
next
  case (pipe_signal c xs a ys q a')
  then show ?case using adapter_step_typed by auto
qed simp_all



end
