(* ===== verification/Auto.thy ===== *)
theory Auto
  imports Outbound
begin

text \<open>
  Installing the outbound patches (\<open>patchHttp\<close> and \<open>patchFetch\<close> of \<open>sdk-node/src/outbound\<close>) on the
  process-wide function table, and auto-detection (\<open>sdk-node/src/auto.ts\<close>), which picks the HTTP
  adapter for an application object and installs the patches. What the installed functions do is
  modelled in theory \<open>Outbound\<close>; here only which function stands where.
\<close>

section \<open>The outbound patches\<close>

definition patchHttp :: "nat \<Rightarrow> patch_table \<Rightarrow> patch_table \<times> patch_table" where
  "patchHttp n t =
     (t\<lparr>fn_httpRequest := CapturePatch n, fn_httpsRequest := CapturePatch n, fn_httpGet := CapturePatch n,
        fn_httpsGet := CapturePatch n\<rparr>, t)"

definition uninstall_http :: "patch_table \<Rightarrow> patch_table \<Rightarrow> patch_table" where
  "uninstall_http originals t =
     t\<lparr>fn_httpRequest := fn_httpRequest originals, fn_httpsRequest := fn_httpsRequest originals,
       fn_httpGet := fn_httpGet originals, fn_httpsGet := fn_httpsGet originals\<rparr>"

text \<open>\<open>patchFetch\<close> refuses to run where there is no global \<open>fetch\<close>.\<close>

definition patchFetch :: "nat \<Rightarrow> bool \<Rightarrow> patch_table \<Rightarrow> (patch_table \<times> func) option" where
  "patchFetch n has_fetch t = (if \<not> has_fetch then None else Some (t\<lparr>fn_fetch := CapturePatch n\<rparr>, fn_fetch t))"

definition uninstall_fetch :: "func \<Rightarrow> patch_table \<Rightarrow> patch_table" where
  "uninstall_fetch original t = t\<lparr>fn_fetch := original\<rparr>"

text \<open>
  \<open>patchOutbound\<close> installs both and returns one handle, whose \<open>uninstall\<close> goes back in the opposite order. It does
  not catch what \<open>patchFetch\<close> throws: \<open>None\<close> instead of a handle.
\<close>

definition patchOutbound :: "nat \<Rightarrow> bool \<Rightarrow> patch_table \<Rightarrow> (patch_table \<times> func) option \<times> patch_table" where
  "patchOutbound n has_fetch t =
     (case patchHttp n t of
        (t, originals) \<Rightarrow>
          (case patchFetch n has_fetch t of
             None \<Rightarrow> (None, t)
           | Some (t, f) \<Rightarrow> (Some (originals, f), t)))"

fun uninstall_outbound :: "patch_table \<times> func \<Rightarrow> patch_table \<Rightarrow> patch_table" where
  "uninstall_outbound (originals, f) t = uninstall_http originals (uninstall_fetch f t)"

section \<open>Detecting the framework\<close>

datatype js_typeof = TypeFunction | TypeObject | TypeUndefined | TypeOther

record app =
  app_typeof :: js_typeof
  app_props :: "js_typeof dict"
  app_installThrows :: bool

definition isExpress :: "app \<Rightarrow> bool" where
  "isExpress a \<longleftrightarrow>
     app_typeof a = TypeFunction \<and> dict_get (app_props a) ''use'' = Some TypeFunction \<and>
     dict_get (app_props a) ''get'' = Some TypeFunction \<and> dict_get (app_props a) ''set'' = Some TypeFunction \<and>
     dict_get (app_props a) ''engines'' = Some TypeObject"

definition isKoa :: "app \<Rightarrow> bool" where
  "isKoa a \<longleftrightarrow>
     app_typeof a = TypeObject \<and> dict_get (app_props a) ''use'' = Some TypeFunction \<and>
     ''context'' \<in> set (dict_keys (app_props a)) \<and> ''middleware'' \<in> set (dict_keys (app_props a))"

definition isFastify :: "app \<Rightarrow> bool" where
  "isFastify a \<longleftrightarrow>
     app_typeof a = TypeObject \<and> dict_get (app_props a) ''addHook'' = Some TypeFunction \<and>
     ''server'' \<in> set (dict_keys (app_props a))"

definition detect_framework :: "app option \<Rightarrow> string option" where
  "detect_framework a =
     (case a of
        None \<Rightarrow> None
      | Some a \<Rightarrow>
          if isExpress a then Some ''http.express''
          else if isKoa a then Some ''http.koa''
          else if isFastify a then Some ''http.fastify'' else None)"

section \<open>autoInstrument\<close>

record auto_process =
  au_table :: patch_table
  au_hasFetch :: bool
  au_adapters :: "string list"

datatype undo = UndoHttp patch_table | UndoFetch func

record auto_handle =
  ah_detected :: "string list"
  ah_handles :: "undo list"

definition install_outbound :: "nat \<Rightarrow> auto_process \<Rightarrow> auto_process \<times> string list \<times> undo list" where
  "install_outbound n w =
     (case patchHttp n (au_table w) of
        (t, originals) \<Rightarrow>
          (case patchFetch n (au_hasFetch w) t of
             None \<Rightarrow> (w\<lparr>au_table := t\<rparr>, [''outbound.http''], [UndoHttp originals])
           | Some (t, f) \<Rightarrow> (w\<lparr>au_table := t\<rparr>, [''outbound.http'', ''outbound.fetch''], [UndoHttp originals, UndoFetch f])))"

text \<open>\<open>None\<close> when installing the framework adapter throws: the returned promise is rejected.\<close>

definition autoInstrument :: "nat \<Rightarrow> app option \<Rightarrow> bool \<Rightarrow> auto_process \<Rightarrow> auto_handle option \<times> auto_process" where
  "autoInstrument n a skipOutbound w =
     (let fw = detect_framework a
      in if fw \<noteq> None \<and> (\<exists>x. a = Some x \<and> app_installThrows x) then (None, w)
         else
           (let w = (case fw of None \<Rightarrow> w | Some f \<Rightarrow> w\<lparr>au_adapters := au_adapters w @ [f]\<rparr>);
                detected = (case fw of None \<Rightarrow> [] | Some f \<Rightarrow> [f])
            in if skipOutbound then (Some \<lparr>ah_detected = detected, ah_handles = []\<rparr>, w)
               else (case install_outbound n w of
                       (w, ds, hs) \<Rightarrow> (Some \<lparr>ah_detected = detected @ ds, ah_handles = hs\<rparr>, w))))"

fun run_undo :: "undo \<Rightarrow> auto_process \<Rightarrow> auto_process" where
  "run_undo (UndoHttp originals) w = w\<lparr>au_table := uninstall_http originals (au_table w)\<rparr>"
| "run_undo (UndoFetch f) w = w\<lparr>au_table := uninstall_fetch f (au_table w)\<rparr>"

definition auto_uninstall :: "auto_handle \<Rightarrow> auto_process \<Rightarrow> auto_process" where
  "auto_uninstall h w = fold run_undo (rev (ah_handles h)) w"

text \<open>Each patch is reversible, and so is the pair of them that auto-instrumentation installs.\<close>

interpretation ph: reversible_patch patchHttp uninstall_http
  by unfold_locales (auto simp: patchHttp_def uninstall_http_def)

interpretation pf: reversible_patch "\<lambda>n t. the (patchFetch n True t)" uninstall_fetch
  by unfold_locales (auto simp: patchFetch_def uninstall_fetch_def)

text \<open>
  The entry point and auto-instrumentation leave the same functions installed; without a global \<open>fetch\<close> the
  entry point fails with the \<open>http\<close> functions patched and no handle to restore them.
\<close>

lemma patchOutbound_as_auto: "snd (patchOutbound n (au_hasFetch w) (au_table w)) = au_table (fst (install_outbound n w))"
  by (simp add: patchOutbound_def install_outbound_def split: prod.splits option.splits)

lemma patchOutbound_without_fetch: "patchOutbound n False t = (None, fst (patchHttp n t))"
  by (simp add: patchOutbound_def patchFetch_def split: prod.splits)

interpretation po: reversible_patch "\<lambda>n t. (snd (patchOutbound n True t), the (fst (patchOutbound n True t)))" uninstall_outbound
  by unfold_locales (auto simp: patchOutbound_def patchFetch_def patchHttp_def uninstall_http_def uninstall_fetch_def)

lemma patchOutbound_nested_undone:
  "install_all (\<lambda>n t. (snd (patchOutbound n True t), the (fst (patchOutbound n True t)))) ns t = (t', hs) \<Longrightarrow>
   fold uninstall_outbound hs t' = t"
  by (rule po.undo_all)

lemma install_outbound_undone:
  assumes "install_outbound n w = (w', ds, hs)"
  shows "fold run_undo (rev hs) w' = w"
proof -
  obtain t o1 where h: "patchHttp n (au_table w) = (t, o1)" by (cases "patchHttp n (au_table w)")
  show ?thesis
  proof (cases "au_hasFetch w")
    case True
    obtain u f where f: "patchFetch n True t = Some (u, f)" by (simp add: patchFetch_def)
    with assms h True ph.undo_install [OF h] pf.undo_install [of n t u f] show ?thesis
      by (auto simp: install_outbound_def)
  next
    case False
    with assms h ph.undo_install [OF h] show ?thesis by (auto simp: install_outbound_def patchFetch_def)
  qed
qed

text \<open>
  Auto-instrumentation is undone completely: uninstalling restores the five functions whatever
  was detected, the handle lists the adapter that was put on the application and the patches that
  were installed, at most one framework is chosen for an application, and a failed installation
  leaves the functions alone.
\<close>

theorem auto_instrument_undone:
  "(case autoInstrument n a skip w of
      (None, w') \<Rightarrow> w' = w
    | (Some h, w') \<Rightarrow>
        au_table (auto_uninstall h w') = au_table w \<and>
        au_adapters w' = au_adapters w @ filter (\<lambda>d. d \<in> {''http.express'', ''http.koa'', ''http.fastify''}) (ah_detected h) \<and>
        length (filter (\<lambda>d. d \<in> {''http.express'', ''http.koa'', ''http.fastify''}) (ah_detected h)) \<le> 1 \<and>
        (''outbound.http'' \<in> set (ah_detected h) \<longleftrightarrow> \<not> skip) \<and>
        (''outbound.fetch'' \<in> set (ah_detected h) \<longleftrightarrow> \<not> skip \<and> au_hasFetch w))"
proof -
  have fw: "detect_framework a \<in> {None, Some ''http.express'', Some ''http.koa'', Some ''http.fastify''}"
    by (auto simp: detect_framework_def split: option.splits)
  have ds: "set ds = (if au_hasFetch v then {''outbound.http'', ''outbound.fetch''} else {''outbound.http''})"
    "au_adapters w' = au_adapters v" if "install_outbound n v = (w', ds, hs)" for v w' ds hs
    using that by (auto simp: install_outbound_def patchFetch_def split: prod.splits if_splits)
  have none: "filter (\<lambda>d. d \<in> {''http.express'', ''http.koa'', ''http.fastify''}) ds = []"
    if "install_outbound n v = (w', ds, hs)" for v w' ds hs
    using ds(1) [OF that] by (auto simp: filter_empty_conv split: if_splits)
  have "au_table (fold run_undo (rev hs) w') = au_table v" if "install_outbound n v = (w', ds, hs)" for v w' ds hs
    using install_outbound_undone [OF that] by simp
  with fw ds none show ?thesis
    by (auto simp: autoInstrument_def auto_uninstall_def Let_def split: option.splits prod.splits)
qed

end
