(* ===== verification/Ws.thy ===== *)
theory Ws
  imports Prelude
begin

text \<open>
  The dashboard's WebSocket client (\<open>ui/src/lib/ws.ts\<close>): topic subscriptions over a socket that is
  replaced, after a growing delay, whenever it closes.

  The browser is the environment: it opens and closes sockets, delivers messages and fires timers,
  each as a step. Sockets are numbered; handlers are identified by a number.
\<close>

section \<open>State\<close>

datatype ready_state = Connecting | Open | Closing | Closed

datatype ws_message = Subscribe string | Unsubscribe string

record ws_client =
  ws_handlers :: "nat list dict"
  ws_pendingSubscribes :: "string list"
  ws_reconnectAttempt :: nat
  ws_closed :: bool
  ws_socket :: "(nat \<times> ready_state) option"
  ws_sockets :: nat
  ws_timers :: "nat list"
  ws_sent :: "(nat \<times> ws_message) list"
  ws_delivered :: "(nat \<times> string) list"

definition ws_connect :: "ws_client \<Rightarrow> ws_client" where
  "ws_connect c =
     (if ws_closed c then c else c\<lparr>ws_socket := Some (ws_sockets c, Connecting), ws_sockets := Suc (ws_sockets c)\<rparr>)"

definition createWSClient :: ws_client where
  "createWSClient = ws_connect
     \<lparr>ws_handlers = [], ws_pendingSubscribes = [], ws_reconnectAttempt = 0, ws_closed = False, ws_socket = None,
      ws_sockets = 0, ws_timers = [], ws_sent = [], ws_delivered = []\<rparr>"

text \<open>\<open>send\<close>: nothing is sent unless the socket is open.\<close>

definition ws_send :: "ws_message \<Rightarrow> ws_client \<Rightarrow> ws_client" where
  "ws_send m c =
     (case ws_socket c of Some (k, Open) \<Rightarrow> c\<lparr>ws_sent := ws_sent c @ [(k, m)]\<rparr> | _ \<Rightarrow> c)"

definition ws_subscribe :: "string \<Rightarrow> nat \<Rightarrow> ws_client \<Rightarrow> ws_client" where
  "ws_subscribe topic h c =
     (case dict_get (ws_handlers c) topic of
        None \<Rightarrow>
          (let c = ws_send (Subscribe topic) c
           in c\<lparr>ws_handlers := dict_set topic [h] (ws_handlers c),
                ws_pendingSubscribes := List.insert topic (ws_pendingSubscribes c)\<rparr>)
      | Some hs \<Rightarrow> c\<lparr>ws_handlers := dict_set topic (if h \<in> set hs then hs else hs @ [h]) (ws_handlers c)\<rparr>)"

text \<open>The function \<open>subscribe\<close> returns.\<close>

definition ws_unsubscribe :: "string \<Rightarrow> nat \<Rightarrow> ws_client \<Rightarrow> ws_client" where
  "ws_unsubscribe topic h c =
     (case dict_get (ws_handlers c) topic of
        None \<Rightarrow> c
      | Some hs \<Rightarrow>
          (let hs' = removeAll h hs
           in if hs' = [] then ws_send (Unsubscribe topic) (c\<lparr>ws_handlers := dict_del topic (ws_handlers c)\<rparr>)
              else c\<lparr>ws_handlers := dict_set topic hs' (ws_handlers c)\<rparr>))"

text \<open>\<open>WebSocket.close()\<close> on the current socket.\<close>

definition socket_close :: "ws_client \<Rightarrow> ws_client" where
  "socket_close c =
     (case ws_socket c of
        Some (k, st) \<Rightarrow> if st = Closed then c else c\<lparr>ws_socket := Some (k, Closing)\<rparr>
      | None \<Rightarrow> c)"

definition ws_close :: "ws_client \<Rightarrow> ws_client" where
  "ws_close c = socket_close (c\<lparr>ws_closed := True\<rparr>)"

subsection \<open>Listeners\<close>

definition on_open :: "nat \<Rightarrow> ws_client \<Rightarrow> ws_client" where
  "on_open k c =
     (let topics = dict_keys (ws_handlers c)
      in c\<lparr>ws_socket := Some (k, Open), ws_reconnectAttempt := 0,
           ws_sent := ws_sent c @ map (\<lambda>t. (k, Subscribe t)) topics,
           ws_pendingSubscribes := filter (\<lambda>t. t \<notin> set topics) (ws_pendingSubscribes c)\<rparr>)"

text \<open>
  A message as \<open>JSON.parse\<close> reads it (\<open>None\<close> when it throws): its type and topic (\<open>None\<close> when absent)
  and its data.
\<close>

definition on_message :: "(string option \<times> string option \<times> string) option \<Rightarrow> ws_client \<Rightarrow> ws_client" where
  "on_message msg c =
     (case msg of
        None \<Rightarrow> c
      | Some (type, topic, data) \<Rightarrow>
          if type \<noteq> Some ''message'' \<or> topic = None \<or> topic = Some [] then c
          else (case dict_get (ws_handlers c) (the topic) of
                  None \<Rightarrow> c
                | Some hs \<Rightarrow> c\<lparr>ws_delivered := ws_delivered c @ map (\<lambda>h. (h, data)) hs\<rparr>))"

definition ws_delay :: "nat \<Rightarrow> nat" where
  "ws_delay attempt = min 10000 (500 * 2 ^ attempt)"

definition on_close :: "nat \<Rightarrow> ws_client \<Rightarrow> ws_client" where
  "on_close k c =
     (let c = c\<lparr>ws_socket := Some (k, Closed)\<rparr>
      in if ws_closed c then c
         else c\<lparr>ws_reconnectAttempt := ws_reconnectAttempt c + 1,
                ws_timers := ws_timers c @ [ws_delay (ws_reconnectAttempt c)]\<rparr>)"

section \<open>Steps\<close>

inductive ws_step :: "ws_client \<Rightarrow> ws_client \<Rightarrow> bool" where
  ws_sub: "ws_step c (ws_subscribe topic h c)"
| ws_unsub: "ws_step c (ws_unsubscribe topic h c)"
| ws_user_close: "ws_step c (ws_close c)"
| ws_opens: "ws_socket c = Some (k, Connecting) \<Longrightarrow> ws_step c (on_open k c)"
| ws_receives: "ws_socket c = Some (k, Open) \<Longrightarrow> ws_step c (on_message msg c)"
| ws_errors: "ws_socket c = Some (k, st) \<Longrightarrow> ws_step c (socket_close c)"
| ws_closes: "ws_socket c = Some (k, st) \<Longrightarrow> st \<noteq> Closed \<Longrightarrow> ws_step c (on_close k c)"
| ws_timer: "ws_timers c = xs @ d # ys \<Longrightarrow> ws_step c (ws_connect (c\<lparr>ws_timers := xs @ ys\<rparr>))"

inductive_cases ws_stepE: "ws_step c c'"

inductive ws_reachable :: "ws_client \<Rightarrow> bool" where
  ws_start: "ws_reachable createWSClient"
| ws_next: "ws_reachable c \<Longrightarrow> ws_step c c' \<Longrightarrow> ws_reachable c'"

section \<open>The server's view\<close>

text \<open>The topics a server is subscribed to after reading the messages of one socket.\<close>

fun server_topics :: "ws_message list \<Rightarrow> string set \<Rightarrow> string set" where
  "server_topics [] T = T"
| "server_topics (Subscribe t # ms) T = server_topics ms (insert t T)"
| "server_topics (Unsubscribe t # ms) T = server_topics ms (T - {t})"

definition sent_on :: "nat \<Rightarrow> ws_client \<Rightarrow> ws_message list" where
  "sent_on k c = map snd (filter (\<lambda>x. fst x = k) (ws_sent c))"

lemma server_topics_append: "server_topics (ms @ ns) T = server_topics ns (server_topics ms T)"
  by (induction ms T rule: server_topics.induct) simp_all

lemma server_topics_all: "server_topics (map Subscribe ts) T = T \<union> set ts"
  by (induction ts arbitrary: T) auto

definition live :: "ws_client \<Rightarrow> bool" where
  "live c \<longleftrightarrow> (\<exists>k st. ws_socket c = Some (k, st) \<and> st \<noteq> Closed)"

definition ws_inv :: "ws_client \<Rightarrow> bool" where
  "ws_inv c \<longleftrightarrow>
     distinct (dict_keys (ws_handlers c)) \<and> (\<forall>(t, hs) \<in> set (ws_handlers c). hs \<noteq> [] \<and> distinct hs) \<and>
     (\<forall>(k, m) \<in> set (ws_sent c). k < ws_sockets c) \<and>
     (\<forall>k st. ws_socket c = Some (k, st) \<longrightarrow> k < ws_sockets c \<and>
        (st = Connecting \<longrightarrow> sent_on k c = []) \<and>
        (st = Open \<longrightarrow> server_topics (sent_on k c) {} = set (dict_keys (ws_handlers c)))) \<and>
     length (ws_timers c) + (if live c then 1 else 0) \<le> 1"

lemma sent_on_fresh: "\<forall>(k, m) \<in> set (ws_sent c). k < ws_sockets c \<Longrightarrow> sent_on (ws_sockets c) c = []"
  by (auto simp: sent_on_def filter_empty_conv)

text \<open>The parts of the invariant: handlers, messages, sockets.\<close>

lemma ws_invD:
  assumes "ws_inv c"
  shows "distinct (dict_keys (ws_handlers c))" "\<And>t hs. (t, hs) \<in> set (ws_handlers c) \<Longrightarrow> hs \<noteq> [] \<and> distinct hs"
    "\<forall>(k, m) \<in> set (ws_sent c). k < ws_sockets c" "length (ws_timers c) + (if live c then 1 else 0) \<le> 1"
    "\<And>k st. ws_socket c = Some (k, st) \<Longrightarrow> k < ws_sockets c"
    "\<And>k. ws_socket c = Some (k, Connecting) \<Longrightarrow> sent_on k c = []"
    "\<And>k. ws_socket c = Some (k, Open) \<Longrightarrow> server_topics (sent_on k c) {} = set (dict_keys (ws_handlers c))"
proof -
  note inv = assms [unfolded ws_inv_def]
  show "distinct (dict_keys (ws_handlers c))" using inv by (elim conjE)
  show "\<And>t hs. (t, hs) \<in> set (ws_handlers c) \<Longrightarrow> hs \<noteq> [] \<and> distinct hs"
    using inv by (elim conjE) (drule (1) bspec, simp)
  show "\<forall>(k, m) \<in> set (ws_sent c). k < ws_sockets c" using inv by (elim conjE)
  show "length (ws_timers c) + (if live c then 1 else 0) \<le> 1" using inv by (elim conjE)
  show "\<And>k st. ws_socket c = Some (k, st) \<Longrightarrow> k < ws_sockets c"
    "\<And>k. ws_socket c = Some (k, Connecting) \<Longrightarrow> sent_on k c = []"
    "\<And>k. ws_socket c = Some (k, Open) \<Longrightarrow> server_topics (sent_on k c) {} = set (dict_keys (ws_handlers c))"
    using inv by simp_all
qed

lemma ws_inv_connect:
  assumes "ws_inv c" "\<not> live c" "ws_timers c = []"
  shows "ws_inv (ws_connect c)"
proof (cases "ws_closed c")
  case False
  note inv = ws_invD [OF assms(1)]
  have "sent_on (ws_sockets c) (ws_connect c) = []"
    using sent_on_fresh [OF inv(3)] False by (simp add: ws_connect_def sent_on_def)
  then show ?thesis
    unfolding ws_inv_def using inv(1-3) assms(3) False by (auto simp: ws_connect_def live_def)
qed (use assms in \<open>simp add: ws_connect_def\<close>)

lemma ws_inv_socket_close: "ws_inv c \<Longrightarrow> ws_inv (socket_close c)"
proof (cases "\<exists>k st. ws_socket c = Some (k, st) \<and> st \<noteq> Closed")
  case True
  then obtain k st where s: "ws_socket c = Some (k, st)" "st \<noteq> Closed" by blast
  assume "ws_inv c"
  note inv = ws_invD [OF this]
  have "live c" using s by (simp add: live_def)
  then show ?thesis
    unfolding ws_inv_def using s inv(1-3) inv(4) inv(5) [OF s(1)] by (auto simp: socket_close_def live_def)
qed (auto simp: socket_close_def split: option.splits)

lemma ws_inv_on_close:
  assumes "ws_inv c" "ws_socket c = Some (k, st)" "st \<noteq> Closed"
  shows "ws_inv (on_close k c)"
proof -
  note inv = ws_invD [OF assms(1)]
  have "live c" using assms(2,3) by (simp add: live_def)
  then have "ws_timers c = []" using inv(4) by simp
  then show ?thesis
    unfolding ws_inv_def using inv(1-3) inv(5) [OF assms(2)] by (auto simp: on_close_def live_def Let_def)
qed

lemma ws_inv_on_open:
  assumes "ws_inv c" "ws_socket c = Some (k, Connecting)"
  shows "ws_inv (on_open k c)"
proof -
  note inv = ws_invD [OF assms(1)]
  have "sent_on k (on_open k c) = map Subscribe (dict_keys (ws_handlers c))"
    using inv(6) [OF assms(2)] by (simp add: sent_on_def on_open_def Let_def filter_map comp_def)
  then have "server_topics (sent_on k (on_open k c)) {} = set (dict_keys (ws_handlers c))"
    by (simp only: server_topics_all) simp
  moreover have "live c" using assms(2) by (simp add: live_def)
  ultimately show ?thesis
    unfolding ws_inv_def using inv(1-5) assms(2) by (auto simp: on_open_def live_def Let_def)
qed

lemma ws_send_simps [simp]:
  "ws_handlers (ws_send m c) = ws_handlers c" "ws_socket (ws_send m c) = ws_socket c"
  "ws_sockets (ws_send m c) = ws_sockets c" "ws_timers (ws_send m c) = ws_timers c"
  "ws_closed (ws_send m c) = ws_closed c" "live (ws_send m c) = live c"
  by (simp_all add: ws_send_def live_def split: option.splits prod.splits ready_state.splits)

lemma sent_on_send:
  "sent_on k (ws_send m c) = sent_on k c @ (if ws_socket c = Some (k, Open) then [m] else [])"
  by (auto simp: ws_send_def sent_on_def split: option.splits prod.splits ready_state.splits)

lemma ws_inv_send:
  assumes "ws_inv c" "distinct (dict_keys H)" "\<forall>(t, hs) \<in> set H. hs \<noteq> [] \<and> distinct hs"
    and "\<And>T. T = set (dict_keys (ws_handlers c)) \<Longrightarrow> server_topics [m] T = set (dict_keys H)"
  shows "ws_inv ((ws_send m c)\<lparr>ws_handlers := H\<rparr>)"
proof -
  note inv = ws_invD [OF assms(1)]
  have "\<forall>(k, m) \<in> set (ws_sent (ws_send m c)). k < ws_sockets c"
    using inv(3,5) by (auto simp: ws_send_def split: option.splits prod.splits ready_state.splits)
  moreover have "server_topics (sent_on k (ws_send m c)) {} = set (dict_keys H)" if "ws_socket c = Some (k, Open)" for k
    using inv(7) [OF that] assms(4) that by (simp add: sent_on_send server_topics_append)
  moreover have "sent_on k (ws_send m c) = []" if "ws_socket c = Some (k, Connecting)" for k
    using inv(6) [OF that] that by (simp add: sent_on_send)
  ultimately show ?thesis
    unfolding ws_inv_def using inv(4,5) assms(2,3) by (auto simp: sent_on_def live_def)
qed

lemma ws_inv_handlers:
  assumes "ws_inv c" "set (dict_keys H) = set (dict_keys (ws_handlers c))" "distinct (dict_keys H)"
    and "\<forall>(t, hs) \<in> set H. hs \<noteq> [] \<and> distinct hs"
  shows "ws_inv (c\<lparr>ws_handlers := H\<rparr>)"
  using assms unfolding ws_inv_def by (auto simp: sent_on_def live_def)

lemma set_dict_set: "set (dict_set k v d) \<subseteq> insert (k, v) (set d)"
  by (induction d) auto

lemma dict_set_all: "(\<And>x. x \<in> set d \<Longrightarrow> P x) \<Longrightarrow> P (k, v) \<Longrightarrow> x \<in> set (dict_set k v d) \<Longrightarrow> P x"
  using set_dict_set [of k v d] by (metis insertE subsetD)

lemma ws_inv_subscribe:
  assumes "ws_inv c"
  shows "ws_inv (ws_subscribe topic h c)"
proof -
  note inv = ws_invD [OF assms]
  let ?H = "\<lambda>hs. dict_set topic hs (ws_handlers c)"
  have ok: "distinct (dict_keys (?H hs))" "\<forall>(t, hs) \<in> set (?H hs). hs \<noteq> [] \<and> distinct hs" if "hs \<noteq> []" "distinct hs" for hs
    using inv(1,2) that set_dict_set [of topic hs "ws_handlers c"] by auto
  show ?thesis
  proof (cases "dict_get (ws_handlers c) topic")
    case None
    have "ws_inv ((ws_send (Subscribe topic) c)\<lparr>ws_handlers := ?H [h]\<rparr>)"
      using ok [of "[h]"] by (intro ws_inv_send [OF assms]) (auto simp: dom_update)
    then show ?thesis by (simp add: ws_subscribe_def None ws_inv_def sent_on_def live_def Let_def)
  next
    case (Some hs)
    let ?hs = "if h \<in> set hs then hs else hs @ [h]"
    have "?hs \<noteq> [] \<and> distinct ?hs" using inv(2) [OF map_of_SomeD [OF Some]] by simp
    moreover have "topic \<in> set (dict_keys (ws_handlers c))" using map_of_SomeD [OF Some] by force
    ultimately have "ws_inv (c\<lparr>ws_handlers := ?H ?hs\<rparr>)"
      using ok [of ?hs] by (intro ws_inv_handlers [OF assms]) (simp_all add: dom_update insert_absorb)
    then show ?thesis by (simp add: ws_subscribe_def Some)
  qed
qed

lemma ws_inv_unsubscribe:
  assumes "ws_inv c"
  shows "ws_inv (ws_unsubscribe topic h c)"
proof (cases "dict_get (ws_handlers c) topic")
  case None
  then show ?thesis using assms by (simp add: ws_unsubscribe_def)
next
  case (Some hs)
  note inv = ws_invD [OF assms]
  have hs: "distinct (removeAll h hs)" using inv(2) map_of_SomeD [OF Some] by (simp add: distinct_removeAll)
  have mem: "topic \<in> set (dict_keys (ws_handlers c))" using map_of_SomeD [OF Some] by force
  show ?thesis
  proof (cases "removeAll h hs = []")
    case True
    have swap: "ws_send m (c\<lparr>ws_handlers := H\<rparr>) = (ws_send m c)\<lparr>ws_handlers := H\<rparr>" for m H
      by (simp add: ws_send_def split: option.splits prod.splits ready_state.splits)
    have "ws_inv ((ws_send (Unsubscribe topic) c)\<lparr>ws_handlers := dict_del topic (ws_handlers c)\<rparr>)"
      using inv(1,2) distinct_delete [OF inv(1), of topic]
      by (intro ws_inv_send [OF assms]) (auto simp: AList.delete_eq)
    with Some True swap show ?thesis by (simp add: ws_unsubscribe_def Let_def)
  next
    case False
    have "\<forall>(t, hs) \<in> set (dict_set topic (removeAll h hs) (ws_handlers c)). hs \<noteq> [] \<and> distinct hs"
      by (intro ballI, erule dict_set_all [rotated 2]) (use inv(2) hs False in auto)
    then have "ws_inv (c\<lparr>ws_handlers := dict_set topic (removeAll h hs) (ws_handlers c)\<rparr>)"
      using inv(1) mem by (intro ws_inv_handlers [OF assms]) (simp_all add: dom_update insert_absorb)
    with Some False show ?thesis by (simp add: ws_unsubscribe_def Let_def)
  qed
qed

lemma ws_inv_step:
  assumes "ws_inv c" "ws_step c c'"
  shows "ws_inv c'"
  using assms(2)
proof cases
  case ws_user_close
  have "ws_inv (c\<lparr>ws_closed := True\<rparr>)" using assms(1) unfolding ws_inv_def by (auto simp: sent_on_def live_def)
  then show ?thesis unfolding ws_user_close ws_close_def by (rule ws_inv_socket_close)
next
  case (ws_receives k msg)
  show ?thesis unfolding ws_receives
    using assms(1) unfolding ws_inv_def by (auto simp: on_message_def sent_on_def live_def split: option.splits)
next
  case (ws_timer xs d ys)
  have "\<not> live c" "xs @ ys = []" using ws_invD(4) [OF assms(1)] ws_timer by (auto split: if_splits)
  moreover have "ws_inv (c\<lparr>ws_timers := []\<rparr>)" using assms(1) unfolding ws_inv_def by (auto simp: sent_on_def live_def)
  ultimately show ?thesis unfolding ws_timer(1) by (intro ws_inv_connect) (simp_all add: live_def)
qed (use assms(1) in \<open>simp_all add: ws_inv_subscribe ws_inv_unsubscribe ws_inv_on_open ws_inv_socket_close ws_inv_on_close\<close>)

lemma ws_reachable_steps: "ws_reachable c \<Longrightarrow> ws_step\<^sup>*\<^sup>* createWSClient c"
  by (induction rule: ws_reachable.induct) (auto intro: rtranclp.rtrancl_into_rtrancl)

interpretation wsc: invariant_of "\<lambda>c. c = createWSClient" ws_step ws_inv
proof unfold_locales
  show "ws_inv c" if "c = createWSClient" for c
    unfolding that by (simp add: createWSClient_def ws_connect_def ws_inv_def live_def sent_on_def)
qed (rule ws_inv_step)

lemma ws_reachable_inv: "ws_reachable c \<Longrightarrow> ws_inv c"
  by (rule wsc.inv_reached [OF refl ws_reachable_steps])

section \<open>Properties\<close>

text \<open>
  C35. The dashboard and the server agree on the subscriptions: in every reachable state with an open
  socket, the topics the server has from the messages of this socket are exactly the topics that
  have a handler, however often the connection was lost and whatever was subscribed or dropped
  meanwhile; and there is never more than one socket or reconnect timer.
\<close>

theorem ws_subscriptions_synced:
  assumes "ws_reachable c" "ws_socket c = Some (k, Open)"
  shows "server_topics (sent_on k c) {} = set (dict_keys (ws_handlers c)) \<and> ws_timers c = [] \<and>
    (\<forall>(t, hs) \<in> set (ws_handlers c). hs \<noteq> [] \<and> distinct hs)"
proof -
  note inv = ws_invD [OF ws_reachable_inv [OF assms(1)]]
  have "live c" using assms(2) by (simp add: live_def)
  with inv(2,4) inv(7) [OF assms(2)] show ?thesis by auto
qed

theorem ws_subscriptions_synced_witness:
  "server_topics (sent_on 0 (on_open 0 (ws_subscribe ''replays'' 7 createWSClient))) {} = {''replays''}"
proof -
  let ?c = "ws_subscribe ''replays'' 7 createWSClient"
  have s: "ws_socket ?c = Some (0, Connecting)" "dict_keys (ws_handlers ?c) = [''replays'']"
    by (simp_all add: createWSClient_def ws_connect_def ws_subscribe_def ws_send_def)
  have "ws_reachable (on_open 0 ?c)" by (rule ws_next [OF ws_next [OF ws_start ws_sub] ws_opens [OF s(1)]])
  from ws_subscriptions_synced [OF this, of 0] s show ?thesis by (simp add: on_open_def Let_def)
qed

text \<open>
  The delays double from half a second up to ten seconds, and a message reaches each handler of its
  topic once and no other.
\<close>

theorem ws_delays_and_delivery:
  assumes "ws_reachable c" "ws_socket c = Some (k, Open)"
  shows "(\<exists>ns. ws_delivered (on_message (Some (Some ''message'', Some t, data)) c) = ws_delivered c @ map (\<lambda>h. (h, data)) ns \<and>
      distinct ns \<and> set ns = (if t = [] then {} else set (case dict_get (ws_handlers c) t of None \<Rightarrow> [] | Some hs \<Rightarrow> hs))) \<and>
    ws_delay n \<le> 10000 \<and> ws_delay (Suc n) = min 10000 (2 * ws_delay n)"
proof -
  have "distinct (case dict_get (ws_handlers c) t of None \<Rightarrow> [] | Some hs \<Rightarrow> hs)"
    using ws_invD(2) [OF ws_reachable_inv [OF assms(1)]] by (auto split: option.splits dest: map_of_SomeD)
  then show ?thesis
    by (auto simp: on_message_def ws_delay_def min_def split: option.splits)
qed

end
