(* ===== verification/Stats.thy ===== *)
theory Stats
  imports Prelude Complex_Main "HOL-Library.Product_Lexorder"
begin

text \<open>
  The statistics the dashboard shows for a session and a replay (\<open>ui/src/lib/stats.ts\<close>): rows per
  endpoint with percentiles and error rates, the slowest requests, and the comparison of a capture
  with its replay.

  Durations are exact numbers here, and so are the products with 0.5 and 0.95; \<open>Array.sort\<close> is
  stable, so a sort by a comparator is a stable sort by the key the comparator compares.
\<close>

section \<open>Samples and groups\<close>

record http_sample =
  hs_method :: "string option"
  hs_route :: "string option"
  hs_path :: "string option"
  hs_durationNs :: rat
  hs_status :: "int option"

definition filled :: "string option \<Rightarrow> bool" where
  "filled x \<longleftrightarrow> x \<noteq> None \<and> x \<noteq> Some []"

definition sample_method :: "http_sample \<Rightarrow> string" where
  "sample_method s = (case hs_method s of None \<Rightarrow> ''-'' | Some m \<Rightarrow> m)"

definition sample_route :: "http_sample \<Rightarrow> string" where
  "sample_route s = (if filled (hs_route s) then the (hs_route s) else if filled (hs_path s) then the (hs_path s) else ''-'')"

definition sample_key :: "http_sample \<Rightarrow> string" where
  "sample_key s = sample_method s @ '' '' @ sample_route s"

text \<open>One step of the grouping loops: the list of the key grows, or the key gets a list of its own.\<close>

definition group_step :: "http_sample \<Rightarrow> http_sample list dict \<Rightarrow> http_sample list dict" where
  "group_step s groups =
     (case dict_get groups (sample_key s) of
        Some arr \<Rightarrow> dict_set (sample_key s) (arr @ [s]) groups
      | None \<Rightarrow> dict_set (sample_key s) [s] groups)"

definition group_samples :: "http_sample list \<Rightarrow> http_sample list dict" where
  "group_samples samples = fold group_step samples []"

definition pct :: "rat list \<Rightarrow> rat \<Rightarrow> rat" where
  "pct xs p =
     (if xs = [] then 0
      else xs ! min (length xs - 1) (nat \<lfloor>of_nat (length xs) * p\<rfloor>))"

definition durations :: "http_sample list \<Rightarrow> rat list" where
  "durations arr = sort (filter (\<lambda>n. n > 0) (map hs_durationNs arr))"

section \<open>Rows per endpoint\<close>

record endpoint_rollup =
  er_key :: string
  er_method :: string
  er_route :: string
  er_count :: nat
  er_p50 :: rat
  er_p95 :: rat
  er_max :: rat
  er_errorRate :: rat

definition rollup_row :: "string \<times> http_sample list \<Rightarrow> endpoint_rollup" where
  "rollup_row = (\<lambda>(key, arr).
     (let ds = durations arr;
          parts = split_on (CHR '' '') key;
          errors = length (filter (\<lambda>s. (case hs_status s of None \<Rightarrow> 0 | Some n \<Rightarrow> n) \<ge> 400) arr)
      in \<lparr>er_key = key, er_method = hd parts, er_route = join_with '' '' (tl parts), er_count = length arr,
          er_p50 = pct ds (1 / 2), er_p95 = pct ds (95 / 100), er_max = (if ds = [] then 0 else last ds),
          er_errorRate = (if arr = [] then 0 else of_nat errors / of_nat (length arr))\<rparr>))"

definition is_http :: "http_sample \<Rightarrow> bool" where
  "is_http s \<longleftrightarrow> \<not> (sample_method s = ''-'' \<and> sample_route s = ''-'')"

definition rollupByEndpoint :: "http_sample list \<Rightarrow> endpoint_rollup list" where
  "rollupByEndpoint samples =
     sort_key (\<lambda>r. (- int (er_count r), - er_p95 r))
       (map rollup_row (group_samples (filter is_http samples)))"

definition topSlow :: "http_sample list \<Rightarrow> nat \<Rightarrow> http_sample list" where
  "topSlow samples n =
     take n (sort_key (\<lambda>s. - hs_durationNs s)
       (filter (\<lambda>s. hs_durationNs s > 0 \<and> (filled (hs_method s) \<or> filled (hs_route s) \<or> filled (hs_path s))) samples))"

section \<open>Capture against replay\<close>

record endpoint_comparison =
  ec_key :: string
  ec_method :: string
  ec_route :: string
  ec_captureCount :: nat
  ec_capturedP95 :: rat
  ec_replayCount :: nat
  ec_replayedP95 :: rat
  ec_deltaPct :: "rat option"

definition group_of :: "http_sample list dict \<Rightarrow> string \<Rightarrow> http_sample list" where
  "group_of groups key = (case dict_get groups key of None \<Rightarrow> [] | Some arr \<Rightarrow> arr)"

definition comparison_row :: "http_sample list dict \<Rightarrow> http_sample list dict \<Rightarrow> string \<Rightarrow> endpoint_comparison" where
  "comparison_row caps reps key =
     (let cap = group_of caps key;
          rep = group_of reps key;
          parts = split_on (CHR '' '') key;
          capP95 = pct (durations cap) (95 / 100);
          repP95 = pct (durations rep) (95 / 100)
      in \<lparr>ec_key = key, ec_method = hd parts, ec_route = join_with '' '' (tl parts), ec_captureCount = length cap,
          ec_capturedP95 = capP95, ec_replayCount = length rep, ec_replayedP95 = repP95,
          ec_deltaPct = (if capP95 > 0 \<and> repP95 > 0 then Some ((repP95 - capP95) / capP95 * 100) else None)\<rparr>)"

text \<open>\<open>new Set([...a, ...b])\<close>: the keys of the capture, then the new ones of the replay.\<close>

definition compareCaptureVsReplay :: "http_sample list \<Rightarrow> http_sample list \<Rightarrow> endpoint_comparison list" where
  "compareCaptureVsReplay captured replayed =
     (let caps = group_samples captured;
          reps = group_samples replayed;
          keys = dict_keys caps @ filter (\<lambda>k. k \<notin> set (dict_keys caps)) (dict_keys reps)
      in sort_key (\<lambda>r. case ec_deltaPct r of
             Some d \<Rightarrow> (0 :: nat, - d, - int (ec_replayCount r + ec_captureCount r))
           | None \<Rightarrow> (1, 0, - int (ec_replayCount r + ec_captureCount r)))
           (map (comparison_row caps reps) keys))"

section \<open>Groups partition the samples\<close>

lemma group_step_get:
  "dict_get (group_step s g) k = (if k = sample_key s then Some (group_of g k @ [s]) else dict_get g k)"
  by (simp add: group_step_def group_of_def split: option.splits)

lemma group_fold:
  "distinct (dict_keys g) \<Longrightarrow>
   distinct (dict_keys (fold group_step ss g)) \<and>
   set (dict_keys (fold group_step ss g)) = set (dict_keys g) \<union> sample_key ` set ss \<and>
   (\<forall>k. group_of (fold group_step ss g) k = group_of g k @ filter (\<lambda>s. sample_key s = k) ss)"
proof (induction ss arbitrary: g)
  case (Cons s ss)
  have d: "distinct (dict_keys (group_step s g))"
    using Cons.prems by (simp add: group_step_def split: option.splits)
  have k: "set (dict_keys (group_step s g)) = insert (sample_key s) (set (dict_keys g))"
    by (simp add: group_step_def dom_update split: option.splits)
  have "group_of (group_step s g) k = group_of g k @ (if k = sample_key s then [s] else [])" for k
    unfolding group_of_def [of "group_step s g"] group_step_get by (simp add: group_of_def)
  with Cons.IH [OF d] k show ?case by auto
qed simp

lemma group_samples_spec:
  "distinct (dict_keys (group_samples ss))" "set (dict_keys (group_samples ss)) = sample_key ` set ss"
  "group_of (group_samples ss) k = filter (\<lambda>s. sample_key s = k) ss"
  using group_fold [of "[]" ss] by (simp_all add: group_samples_def group_of_def)

lemma group_samples_member:
  assumes "(k, arr) \<in> set (group_samples ss)"
  shows "arr = filter (\<lambda>s. sample_key s = k) ss" "arr \<noteq> []"
proof -
  have "dict_get (group_samples ss) k = Some arr" using assms group_samples_spec(1) by simp
  then show arr: "arr = filter (\<lambda>s. sample_key s = k) ss"
    using group_samples_spec(3) [of ss k] by (simp add: group_of_def)
  have "k \<in> sample_key ` set ss" using assms group_samples_spec(2) by force
  then show "arr \<noteq> []" unfolding arr by (auto simp: filter_empty_conv)
qed

lemma split_on_Cons: "\<exists>p ps. split_on c s = p # ps"
  by (induction s) (auto split: list.splits)

lemma split_tl:
  assumes "c \<in> set s"
  shows "tl (split_on c s) \<noteq> []"
  using assms
proof (induction s)
  case (Cons x s)
  obtain p ps where "split_on c s = p # ps" using split_on_Cons by blast
  then show ?case using Cons by auto
qed simp

lemma key_parts:
  assumes "c \<in> set key"
  shows "hd (split_on c key) @ [c] @ join_with [c] (tl (split_on c key)) = key"
proof -
  obtain p ps where sp: "split_on c key = p # ps" using split_on_Cons by blast
  then obtain q qs where "ps = q # qs" using split_tl [OF assms] by (cases ps) auto
  with sp join_split [of c key] show ?thesis by simp
qed

section \<open>Percentiles\<close>

lemma pct_index:
  assumes "xs \<noteq> []"
  shows "min (length xs - 1) (nat \<lfloor>of_nat (length xs) * (p :: rat)\<rfloor>) < length xs"
  using assms by (cases xs) simp_all

lemma pct_mono:
  assumes "sorted xs" "0 \<le> p" "p \<le> q"
  shows "pct xs p \<le> pct xs q"
proof (cases "xs = []")
  case False
  have "of_nat (length xs) * p \<le> of_nat (length xs) * q" using assms(3) by (simp add: mult_left_mono)
  then have "nat \<lfloor>of_nat (length xs) * p\<rfloor> \<le> nat \<lfloor>of_nat (length xs) * q\<rfloor>" by (intro nat_mono floor_mono)
  then show ?thesis
    using assms(1) pct_index [OF False, of q] False
    by (auto simp: pct_def intro!: sorted_nth_mono)
qed (simp add: pct_def)

lemma pct_le_last:
  assumes "sorted xs" "xs \<noteq> []"
  shows "pct xs p \<le> last xs"
  using assms pct_index [OF assms(2), of p] by (simp add: pct_def last_conv_nth sorted_nth_mono)

text \<open>
  \<open>pct\<close> is a percentile: of a sorted, non-empty list it returns a member, and more than the fraction
  \<open>p\<close> of the members are at most as large.
\<close>

lemma pct_quantile:
  assumes "sorted xs" "xs \<noteq> []" "0 \<le> p" "p < 1"
  shows "pct xs p \<in> set xs" "of_nat (length xs) * p < of_nat (length (filter (\<lambda>x. x \<le> pct xs p) xs))"
proof -
  let ?i = "nat \<lfloor>of_nat (length xs) * p\<rfloor>"
  have len: "of_nat (length xs) * p < of_nat (length xs)" using assms(2,4) by (simp add: mult_less_cancel_left1)
  have nn: "0 \<le> of_nat (length xs) * p" using assms(3) by simp
  have i: "?i < length xs"
    using len nn by (metis (no_types, lifting) floor_less_iff nat_less_iff of_int_of_nat_eq zero_le_floor)
  then have "min (length xs - 1) ?i = ?i" by simp
  then have eq: "pct xs p = xs ! ?i" using assms(2) by (simp only: pct_def if_False)
  show "pct xs p \<in> set xs" using eq i by simp
  have "\<forall>x \<in> set (take (Suc ?i) xs). x \<le> xs ! ?i"
    using assms(1) i by (auto simp: in_set_conv_nth intro!: sorted_nth_mono)
  then have "filter (\<lambda>x. x \<le> xs ! ?i) (take (Suc ?i) xs) = take (Suc ?i) xs" by (simp add: filter_id_conv)
  then have "Suc ?i \<le> length (filter (\<lambda>x. x \<le> xs ! ?i) xs)"
    by (metis Suc_leI append_take_drop_id filter_append i le_add1 length_append length_take min_absorb2)
  moreover have "of_nat (length xs) * p < of_nat (Suc ?i)"
    using nn by (simp add: of_nat_nat) linarith
  ultimately show "of_nat (length xs) * p < of_nat (length (filter (\<lambda>x. x \<le> pct xs p) xs))"
    unfolding eq by (meson less_le_trans of_nat_le_iff)
qed

section \<open>Properties\<close>

lemma distinct_map_sort: "distinct (map g xs) \<Longrightarrow> distinct (map g (sort_key f xs))"
  by (simp only: distinct_map distinct_sort set_sort)

lemma key_has_space: "CHR '' '' \<in> set (sample_key s)"
  by (simp add: sample_key_def)

lemma count_by_key:
  assumes "distinct ks" "\<forall>x \<in> set xs. f x \<in> set ks"
  shows "sum_list (map (\<lambda>k. length (filter (\<lambda>x. f x = k) xs)) ks) = length xs"
  using assms(2)
proof (induction xs)
  case (Cons x xs)
  have "sum_list (map (\<lambda>k. length (filter (\<lambda>y. f y = k) (x # xs))) ks) =
      sum_list (map (\<lambda>k. (if f x = k then 1 else 0) + length (filter (\<lambda>y. f y = k) xs)) ks)"
    by (rule arg_cong [of _ _ sum_list]) simp
  also have "\<dots> = sum_list (map (\<lambda>k. if f x = k then 1 else 0) ks) + length xs"
    using Cons by (simp add: sum_list_addf)
  also have "sum_list (map (\<lambda>k. if f x = k then 1 else 0 :: nat) ks) = 1"
    using assms(1) Cons.prems by (simp add: sum_list_distinct_conv_sum_set sum.delta)
  finally show ?case by simp
qed simp

lemma rollup_row_spec:
  assumes "(k, arr) \<in> set (group_samples ss)"
  shows "(let r = rollup_row (k, arr)
          in er_key r = k \<and> er_key r = er_method r @ '' '' @ er_route r \<and>
             er_count r = length (filter (\<lambda>s. sample_key s = k) ss) \<and>
             er_p50 r \<le> er_p95 r \<and> er_p95 r \<le> er_max r \<and> 0 \<le> er_errorRate r \<and> er_errorRate r \<le> 1)"
proof -
  note arr = group_samples_member [OF assms]
  have "hd arr \<in> set (filter (\<lambda>s. sample_key s = k) ss)" using arr by (metis hd_in_set)
  then obtain s where "sample_key s = k" by auto
  then have "CHR '' '' \<in> set k" using key_has_space [of s] by simp
  note parts = key_parts [OF this]
  have ds: "sorted (durations arr)" by (simp add: durations_def)
  have "pct (durations arr) (1 / 2) \<le> pct (durations arr) (95 / 100)" by (rule pct_mono [OF ds]) simp_all
  moreover have "pct (durations arr) (95 / 100) \<le> (if durations arr = [] then 0 else last (durations arr))"
    using pct_le_last [OF ds, of "95 / 100"] by (cases "durations arr = []") (simp_all only: pct_def [of "[]"] if_True if_False simp_thms order.refl)
  moreover have "length (filter P arr) \<le> length arr" for P by (rule length_filter_le)
  ultimately show ?thesis
    using parts arr(2) unfolding arr(1) [symmetric] by (simp add: rollup_row_def Let_def divide_le_eq split: if_splits)
qed

text \<open>
  The endpoint table is a partition: no endpoint appears twice, every request is counted in exactly
  one row, the rows are ordered by count, and in each row the method and route are those of the
  key, the percentiles are ordered and the error rate is a rate.
\<close>

theorem rollup_partitions:
  "(let rows = rollupByEndpoint ss
    in distinct (map er_key rows) \<and> sum_list (map er_count rows) = length (filter is_http ss) \<and>
       sorted_wrt (\<lambda>a b. er_count b \<le> er_count a) rows \<and>
       (\<forall>r \<in> set rows. er_count r = length (filter (\<lambda>s. is_http s \<and> sample_key s = er_key r) ss) \<and>
          er_key r = er_method r @ '' '' @ er_route r \<and> er_p50 r \<le> er_p95 r \<and> er_p95 r \<le> er_max r \<and>
          0 \<le> er_errorRate r \<and> er_errorRate r \<le> 1))"
proof -
  let ?g = "group_samples (filter is_http ss)"
  let ?rows = "map rollup_row ?g"
  have key: "map er_key ?rows = dict_keys ?g" by (auto simp: rollup_row_def Let_def)
  have "distinct (map er_key (rollupByEndpoint ss))"
    using group_samples_spec(1) unfolding rollupByEndpoint_def by (intro distinct_map_sort) (simp only: key)
  moreover have "sum_list (map er_count (rollupByEndpoint ss)) = length (filter is_http ss)"
  proof -
    have "sum_list (map er_count (rollupByEndpoint ss)) = sum_list (map er_count ?rows)"
      unfolding rollupByEndpoint_def sum_mset_sum_list [symmetric] mset_map mset_sort ..
    also have "map er_count ?rows = map (\<lambda>k. length (filter (\<lambda>s. sample_key s = k) (filter is_http ss))) (dict_keys ?g)"
      using group_samples_member(1) [of _ _ "filter is_http ss"]
      by (auto simp: rollup_row_def Let_def)
    also have "sum_list \<dots> = length (filter is_http ss)"
      using group_samples_spec(1,2) [of "filter is_http ss"] by (intro count_by_key) auto
    finally show ?thesis .
  qed
  moreover have "sorted_wrt (\<lambda>a b. er_count b \<le> er_count a) (rollupByEndpoint ss)"
  proof -
    have "sorted (map (\<lambda>r. (- int (er_count r), - er_p95 r)) (rollupByEndpoint ss))"
      unfolding rollupByEndpoint_def by (rule sorted_sort_key)
    then show ?thesis by (simp add: sorted_map) (rule sorted_wrt_mono_rel, auto simp: less_eq_prod_def)
  qed
  moreover have "\<forall>r \<in> set (rollupByEndpoint ss). er_count r = length (filter (\<lambda>s. is_http s \<and> sample_key s = er_key r) ss) \<and>
          er_key r = er_method r @ '' '' @ er_route r \<and> er_p50 r \<le> er_p95 r \<and> er_p95 r \<le> er_max r \<and>
          0 \<le> er_errorRate r \<and> er_errorRate r \<le> 1"
  proof
    fix r
    assume "r \<in> set (rollupByEndpoint ss)"
    then obtain k arr where "(k, arr) \<in> set ?g" "r = rollup_row (k, arr)" by (auto simp: rollupByEndpoint_def)
    with rollup_row_spec [of k arr "filter is_http ss"]
    show "er_count r = length (filter (\<lambda>s. is_http s \<and> sample_key s = er_key r) ss) \<and>
          er_key r = er_method r @ '' '' @ er_route r \<and> er_p50 r \<le> er_p95 r \<and> er_p95 r \<le> er_max r \<and>
          0 \<le> er_errorRate r \<and> er_errorRate r \<le> 1"
      unfolding Let_def filter_filter by (metis (no_types, lifting) filter_cong)
  qed
  ultimately show ?thesis unfolding Let_def by blast
qed

definition get_sample :: "string \<Rightarrow> rat \<Rightarrow> http_sample" where
  "get_sample path d = \<lparr>hs_method = Some ''GET'', hs_route = None, hs_path = Some path, hs_durationNs = d, hs_status = Some 200\<rparr>"

theorem rollup_partitions_witness:
  "sum_list (map er_count (rollupByEndpoint [get_sample ''/a'' 3, get_sample ''/b'' 1, get_sample ''/a'' 2])) = 3"
  using rollup_partitions [of "[get_sample ''/a'' 3, get_sample ''/b'' 1, get_sample ''/a'' 2]"]
  by (simp add: Let_def is_http_def sample_method_def get_sample_def)

text \<open>
  The slowest requests: as many as asked for (or all), ordered from the slowest, and no request that
  was left out is slower than one that is shown.
\<close>

theorem topSlow_largest:
  "(let shown = topSlow ss n;
        cands = filter (\<lambda>s. hs_durationNs s > 0 \<and> (filled (hs_method s) \<or> filled (hs_route s) \<or> filled (hs_path s))) ss
    in length shown = min n (length cands) \<and> mset shown \<subseteq># mset cands \<and>
       sorted_wrt (\<lambda>a b. hs_durationNs b \<le> hs_durationNs a) shown \<and>
       (\<forall>x \<in># mset cands - mset shown. \<forall>y \<in> set shown. hs_durationNs x \<le> hs_durationNs y))"
proof -
  let ?c = "filter (\<lambda>s. hs_durationNs s > 0 \<and> (filled (hs_method s) \<or> filled (hs_route s) \<or> filled (hs_path s))) ss"
  let ?s = "sort_key (\<lambda>s. - hs_durationNs s) ?c"
  have top: "topSlow ss n = take n ?s" by (simp only: topSlow_def)
  have m: "mset ?c = mset (take n ?s) + mset (drop n ?s)"
    using mset_append [of "take n ?s" "drop n ?s"] by (simp only: append_take_drop_id mset_sort)
  have "sorted (map (\<lambda>s. - hs_durationNs s) ?s)" by (rule sorted_sort_key)
  then have srt: "sorted_wrt (\<lambda>a b. hs_durationNs b \<le> hs_durationNs a) ?s" by (simp add: sorted_map)
  then have "sorted_wrt (\<lambda>a b. hs_durationNs b \<le> hs_durationNs a) (take n ?s @ drop n ?s)" by simp
  then have "sorted_wrt (\<lambda>a b. hs_durationNs b \<le> hs_durationNs a) (take n ?s)"
    "\<forall>y \<in> set (take n ?s). \<forall>x \<in> set (drop n ?s). hs_durationNs x \<le> hs_durationNs y"
    unfolding sorted_wrt_append by blast+
  moreover have "mset ?c - mset (take n ?s) = mset (drop n ?s)" unfolding m by simp
  moreover have "length (take n ?s) = min n (length ?c)" by simp
  ultimately show ?thesis unfolding top Let_def using m by auto
qed

lemma durations_pos: "x \<in> set (durations arr) \<Longrightarrow> 0 < x"
  by (simp add: durations_def)

lemma durations_Nil: "durations arr = [] \<longleftrightarrow> (\<forall>s \<in> set arr. \<not> hs_durationNs s > 0)"
proof -
  have "durations arr = [] \<longleftrightarrow> set (durations arr) = {}" by simp
  also have "\<dots> \<longleftrightarrow> (\<forall>s \<in> set arr. \<not> hs_durationNs s > 0)" unfolding durations_def by auto
  finally show ?thesis .
qed

lemma p95_pos: "0 < pct (durations arr) (95 / 100) \<longleftrightarrow> (\<exists>s \<in> set arr. hs_durationNs s > 0)"
proof (cases "durations arr = []")
  case True
  then show ?thesis unfolding durations_Nil [of arr] by (simp add: pct_def True)
next
  case False
  have "pct (durations arr) (95 / 100) \<in> set (durations arr)"
    by (rule pct_quantile(1)) (use False in \<open>simp_all add: durations_def\<close>)
  moreover have "\<exists>s \<in> set arr. hs_durationNs s > 0" using False unfolding durations_Nil by blast
  ultimately show ?thesis using durations_pos by auto
qed

lemma comparison_row_spec:
  "(let r = comparison_row (group_samples caps) (group_samples reps) k
    in ec_key r = k \<and> ec_captureCount r = length (filter (\<lambda>s. sample_key s = k) caps) \<and>
       ec_replayCount r = length (filter (\<lambda>s. sample_key s = k) reps) \<and>
       (ec_deltaPct r \<noteq> None \<longleftrightarrow> (\<exists>s \<in> set caps. sample_key s = k \<and> hs_durationNs s > 0) \<and>
          (\<exists>s \<in> set reps. sample_key s = k \<and> hs_durationNs s > 0)))"
  unfolding comparison_row_def Let_def group_samples_spec(3) p95_pos by auto

text \<open>
  The comparison hides nothing: every endpoint that occurs in the capture or in the replay has one
  row with the number of its requests on both sides, a change is given exactly when both sides have
  a request with a measured duration, and the rows with a change come first, largest first.
\<close>

theorem comparison_complete:
  "(let rows = compareCaptureVsReplay caps reps
    in distinct (map ec_key rows) \<and> set (map ec_key rows) = sample_key ` (set caps \<union> set reps) \<and>
       (\<forall>r \<in> set rows. ec_captureCount r = length (filter (\<lambda>s. sample_key s = ec_key r) caps) \<and>
          ec_replayCount r = length (filter (\<lambda>s. sample_key s = ec_key r) reps) \<and>
          (ec_deltaPct r \<noteq> None \<longleftrightarrow> (\<exists>s \<in> set caps. sample_key s = ec_key r \<and> hs_durationNs s > 0) \<and>
             (\<exists>s \<in> set reps. sample_key s = ec_key r \<and> hs_durationNs s > 0))) \<and>
       sorted_wrt (\<lambda>a b. case ec_deltaPct b of None \<Rightarrow> True
         | Some d \<Rightarrow> (case ec_deltaPct a of None \<Rightarrow> False | Some c \<Rightarrow> d \<le> c)) rows)"
proof -
  let ?g = "group_samples caps" and ?h = "group_samples reps"
  let ?keys = "dict_keys ?g @ filter (\<lambda>k. k \<notin> set (dict_keys ?g)) (dict_keys ?h)"
  let ?f = "\<lambda>r. case ec_deltaPct r of
      Some d \<Rightarrow> (0 :: nat, - d, - int (ec_replayCount r + ec_captureCount r))
    | None \<Rightarrow> (1, 0, - int (ec_replayCount r + ec_captureCount r))"
  let ?rows = "compareCaptureVsReplay caps reps"
  have rows: "?rows = sort_key ?f (map (comparison_row ?g ?h) ?keys)" by (simp only: compareCaptureVsReplay_def Let_def)
  have key: "map ec_key (map (comparison_row ?g ?h) ks) = ks" for ks
    by (simp add: comparison_row_def Let_def comp_def)
  have dk: "distinct ?keys" "set ?keys = sample_key ` (set caps \<union> set reps)"
    using group_samples_spec(1,2) by (auto simp: image_Un)
  have "distinct (map ec_key ?rows)"
    using dk(1) unfolding rows by (intro distinct_map_sort) (simp only: key)
  moreover have "set (map ec_key ?rows) = sample_key ` (set caps \<union> set reps)"
    using dk(2) arg_cong [OF key [of ?keys], of set] unfolding rows set_map [of ec_key] set_sort by metis
  moreover have "\<forall>r \<in> set ?rows. ec_captureCount r = length (filter (\<lambda>s. sample_key s = ec_key r) caps) \<and>
          ec_replayCount r = length (filter (\<lambda>s. sample_key s = ec_key r) reps) \<and>
          (ec_deltaPct r \<noteq> None \<longleftrightarrow> (\<exists>s \<in> set caps. sample_key s = ec_key r \<and> hs_durationNs s > 0) \<and>
             (\<exists>s \<in> set reps. sample_key s = ec_key r \<and> hs_durationNs s > 0))"
  proof
    fix r
    assume "r \<in> set ?rows"
    then obtain k where "r = comparison_row ?g ?h k" unfolding rows set_sort set_map by blast
    with comparison_row_spec [of caps reps k] show "ec_captureCount r = length (filter (\<lambda>s. sample_key s = ec_key r) caps) \<and>
          ec_replayCount r = length (filter (\<lambda>s. sample_key s = ec_key r) reps) \<and>
          (ec_deltaPct r \<noteq> None \<longleftrightarrow> (\<exists>s \<in> set caps. sample_key s = ec_key r \<and> hs_durationNs s > 0) \<and>
             (\<exists>s \<in> set reps. sample_key s = ec_key r \<and> hs_durationNs s > 0))"
      unfolding Let_def by presburger
  qed
  moreover have "sorted_wrt (\<lambda>a b. case ec_deltaPct b of None \<Rightarrow> True
         | Some d \<Rightarrow> (case ec_deltaPct a of None \<Rightarrow> False | Some c \<Rightarrow> d \<le> c)) ?rows"
  proof -
    have "sorted (map ?f ?rows)" unfolding rows by (rule sorted_sort_key)
    then have "sorted_wrt (\<lambda>a b. ?f a \<le> ?f b) ?rows" by (simp only: sorted_map)
    then show ?thesis by (rule sorted_wrt_mono_rel [rotated]) (auto simp: less_eq_prod_def split: option.splits)
  qed
  ultimately show ?thesis unfolding Let_def by blast
qed

theorem comparison_complete_witness:
  "set (map ec_key (compareCaptureVsReplay [get_sample ''/a'' 3] [get_sample ''/b'' 1])) =
     {sample_key (get_sample ''/a'' 3), sample_key (get_sample ''/b'' 1)}"
  using comparison_complete [of "[get_sample ''/a'' 3]" "[get_sample ''/b'' 1]"]
  unfolding Let_def by (elim conjE) (simp add: insert_commute)

end
