(* ===== verification/Timeline.thy ===== *)
theory Timeline
  imports Stats
begin

text \<open>
  What the page of a replay computes from its rows (\<open>ui/src/app/(authed)/replays/[id]/page.tsx\<close>):
  the samples for the shared statistics, the live counters, and the timeline, which spreads the rows
  over buckets of equal width. Times are exact numbers, as in theory \<open>Stats\<close>.
\<close>

section \<open>Rows\<close>

record replay_row =
  rr_eventId :: string
  rr_method :: string
  rr_path :: string
  rr_route :: string
  rr_status :: int
  rr_durationNs :: rat
  rr_fireNs :: rat
  rr_lagNs :: rat
  rr_errorCode :: string

definition replayToSample :: "replay_row \<Rightarrow> http_sample" where
  "replayToSample r =
     \<lparr>hs_method = Some (rr_method r), hs_route = Some (rr_route r), hs_path = Some (rr_path r),
      hs_durationNs = rr_durationNs r, hs_status = Some (rr_status r)\<rparr>"

section \<open>Live counters\<close>

record counters =
  ct_dispatched :: nat
  ct_failed :: nat
  ct_backpressured :: nat

text \<open>A pushed snapshot with its status, the fetched row; both may be missing.\<close>

definition live_counters :: "(string \<times> counters) option \<Rightarrow> counters option \<Rightarrow> counters" where
  "live_counters progress replay =
     (case progress of
        Some (status, c) \<Rightarrow>
          if status \<noteq> ''finished'' then c
          else (case replay of Some r \<Rightarrow> r | None \<Rightarrow> \<lparr>ct_dispatched = 0, ct_failed = 0, ct_backpressured = 0\<rparr>)
      | None \<Rightarrow> (case replay of Some r \<Rightarrow> r | None \<Rightarrow> \<lparr>ct_dispatched = 0, ct_failed = 0, ct_backpressured = 0\<rparr>))"

section \<open>The timeline\<close>

record timeline_bucket =
  bk_index :: nat
  bk_fromNs :: rat
  bk_count :: nat
  bk_errors :: nat
  bk_durations :: "rat list"

record bucket_view =
  bv_bucket :: timeline_bucket
  bv_p95 :: rat
  bv_max :: rat
  bv_errorRate :: rat
  bv_offsetSec :: rat

definition is_error :: "replay_row \<Rightarrow> bool" where
  "is_error e \<longleftrightarrow> rr_status e \<ge> 400 \<or> rr_errorCode e \<noteq> []"

definition add_to_bucket :: "replay_row \<Rightarrow> timeline_bucket \<Rightarrow> timeline_bucket" where
  "add_to_bucket e b =
     b\<lparr>bk_count := bk_count b + 1, bk_errors := bk_errors b + (if is_error e then 1 else 0),
       bk_durations := bk_durations b @ (if rr_durationNs e > 0 then [rr_durationNs e] else [])\<rparr>"

definition bucket_index :: "nat \<Rightarrow> rat \<Rightarrow> rat \<Rightarrow> replay_row \<Rightarrow> int" where
  "bucket_index n minNs bucketNs e = min (int n - 1) \<lfloor>(rr_fireNs e - minNs) / bucketNs\<rfloor>"

text \<open>The loop: an index below zero is no bucket, and using it throws (\<open>None\<close>).\<close>

fun fill_buckets :: "nat \<Rightarrow> rat \<Rightarrow> rat \<Rightarrow> replay_row list \<Rightarrow> timeline_bucket list \<Rightarrow> timeline_bucket list option" where
  "fill_buckets n minNs bucketNs [] arr = Some arr"
| "fill_buckets n minNs bucketNs (e # es) arr =
     (if rr_fireNs e = 0 then fill_buckets n minNs bucketNs es arr
      else (let idx = bucket_index n minNs bucketNs e
            in if idx < 0 then None
               else fill_buckets n minNs bucketNs es (arr[nat idx := add_to_bucket e (arr ! nat idx)])))"

definition view_bucket :: "rat \<Rightarrow> timeline_bucket \<Rightarrow> bucket_view" where
  "view_bucket minNs b =
     (let sorted = sort (bk_durations b)
      in \<lparr>bv_bucket = b\<lparr>bk_durations := sorted\<rparr>, bv_p95 = pct sorted (95 / 100),
          bv_max = (if sorted \<noteq> [] then last sorted else 0),
          bv_errorRate = (if bk_count b = 0 then 0 else of_nat (bk_errors b) / of_nat (bk_count b)),
          bv_offsetSec = (bk_fromNs b - minNs) / 1000000000\<rparr>)"

definition bucket_number :: "replay_row list \<Rightarrow> nat" where
  "bucket_number events = min 40 (max 8 (length events div 10))"

definition fire_times :: "replay_row list \<Rightarrow> rat list" where
  "fire_times events = filter (\<lambda>n. n > 0) (map rr_fireNs events)"

definition span_ns :: "replay_row list \<Rightarrow> rat" where
  "span_ns events = max (Max (set (fire_times events)) - Min (set (fire_times events))) 1"

definition timeline :: "replay_row list \<Rightarrow> bucket_view list option" where
  "timeline events =
     (if events = [] \<or> fire_times events = [] then Some []
      else
        (let minNs = Min (set (fire_times events));
             n = bucket_number events;
             bucketNs = span_ns events / of_nat n;
             arr = map (\<lambda>i. \<lparr>bk_index = i, bk_fromNs = minNs + of_nat i * bucketNs, bk_count = 0, bk_errors = 0,
                      bk_durations = []\<rparr>) [0..<n]
         in map_option (map (view_bucket minNs)) (fill_buckets n minNs bucketNs events arr)))"

definition total_sec :: "bucket_view list \<Rightarrow> rat" where
  "total_sec bs =
     bv_offsetSec (last bs) + (if length bs > 1 then bv_offsetSec (bs ! 1) - bv_offsetSec (bs ! 0) else 0)"

section \<open>Filling\<close>

lemma fill_buckets_spec:
  assumes "length arr = n" "\<forall>e \<in> set es. rr_fireNs e \<noteq> 0 \<longrightarrow> 0 \<le> bucket_index n minNs w e" "0 < n"
  shows "fill_buckets n minNs w es arr =
    Some (map (\<lambda>i. fold add_to_bucket (filter (\<lambda>e. rr_fireNs e \<noteq> 0 \<and> bucket_index n minNs w e = int i) es) (arr ! i)) [0..<n])"
  using assms
proof (induction es arbitrary: arr)
  case Nil
  then show ?case using map_nth [of arr] by simp
next
  case (Cons e es)
  show ?case
  proof (cases "rr_fireNs e = 0")
    case False
    define k where "k = nat (bucket_index n minNs w e)"
    have k: "bucket_index n minNs w e = int k" "k < n"
      using Cons.prems(2,3) False by (auto simp: k_def bucket_index_def)
    have "fill_buckets n minNs w (e # es) arr = fill_buckets n minNs w es (arr[k := add_to_bucket e (arr ! k)])"
      using False k by (simp add: Let_def)
    also have "\<dots> = Some (map (\<lambda>i. fold add_to_bucket
        (filter (\<lambda>e. rr_fireNs e \<noteq> 0 \<and> bucket_index n minNs w e = int i) es) (arr[k := add_to_bucket e (arr ! k)] ! i)) [0..<n])"
      using Cons.prems by (intro Cons.IH) auto
    finally show ?thesis using k Cons.prems(1) False by (simp add: nth_list_update)
  qed (use Cons in simp)
qed

lemma fold_add:
  "bk_count (fold add_to_bucket es b) = bk_count b + length es"
  "bk_errors (fold add_to_bucket es b) = bk_errors b + length (filter is_error es)"
  "bk_durations (fold add_to_bucket es b) = bk_durations b @ filter (\<lambda>d. d > 0) (map rr_durationNs es)"
  "bk_fromNs (fold add_to_bucket es b) = bk_fromNs b" "bk_index (fold add_to_bucket es b) = bk_index b"
  by (induction es arbitrary: b) (simp_all add: add_to_bucket_def)


text \<open>The rows of a bucket: from its start to the start of the next, the last one open to the right.\<close>

definition in_bucket :: "replay_row list \<Rightarrow> nat \<Rightarrow> replay_row \<Rightarrow> bool" where
  "in_bucket events i e \<longleftrightarrow>
     (let n = bucket_number events; w = span_ns events / of_nat n; minNs = Min (set (fire_times events))
      in 0 < rr_fireNs e \<and> minNs + of_nat i * w \<le> rr_fireNs e \<and>
         (i < n - 1 \<longrightarrow> rr_fireNs e < minNs + of_nat (i + 1) * w))"

lemma bucket_index_in:
  assumes "m \<le> rr_fireNs e" "0 < w" "i < n"
  shows "bucket_index n m w e = int i \<longleftrightarrow>
    m + of_nat i * w \<le> rr_fireNs e \<and> (i < n - 1 \<longrightarrow> rr_fireNs e < m + of_nat (i + 1) * w)"
proof -
  let ?x = "(rr_fireNs e - m) / w"
  have lo: "of_nat i \<le> ?x \<longleftrightarrow> m + of_nat i * w \<le> rr_fireNs e" using assms(2) by (simp add: pos_le_divide_eq algebra_simps)
  have hi: "?x < of_nat (i + 1) \<longleftrightarrow> rr_fireNs e < m + of_nat (i + 1) * w"
    using assms(2) by (simp add: pos_divide_less_eq algebra_simps)
  have fl: "\<lfloor>?x\<rfloor> = int i \<longleftrightarrow> of_nat i \<le> ?x \<and> ?x < of_nat (i + 1)" by (simp add: floor_eq_iff add.commute)
  have le: "int i \<le> \<lfloor>?x\<rfloor> \<longleftrightarrow> of_nat i \<le> ?x" by (simp add: le_floor_iff)
  show ?thesis
  proof (cases "i < n - 1")
    case True
    then have "bucket_index n m w e = int i \<longleftrightarrow> \<lfloor>?x\<rfloor> = int i" by (auto simp: bucket_index_def min_def)
    with True lo hi fl show ?thesis by simp
  next
    case False
    then have "bucket_index n m w e = int i \<longleftrightarrow> int i \<le> \<lfloor>?x\<rfloor>" using assms(3) by (auto simp: bucket_index_def min_def)
    with False lo le show ?thesis by simp
  qed
qed

lemma timeline_rows:
  assumes "\<forall>e \<in> set events. 0 \<le> rr_fireNs e" "fire_times events \<noteq> []" "i < bucket_number events"
  shows "filter (\<lambda>e. rr_fireNs e \<noteq> 0 \<and> bucket_index (bucket_number events) (Min (set (fire_times events)))
      (span_ns events / of_nat (bucket_number events)) e = int i) events = filter (in_bucket events i) events"
proof (rule filter_cong [OF refl])
  fix e
  assume e: "e \<in> set events"
  show "rr_fireNs e \<noteq> 0 \<and> bucket_index (bucket_number events) (Min (set (fire_times events)))
      (span_ns events / of_nat (bucket_number events)) e = int i \<longleftrightarrow> in_bucket events i e"
  proof (cases "rr_fireNs e = 0")
    case False
    then have "0 < rr_fireNs e" using assms(1) e by fastforce
    moreover from this have "Min (set (fire_times events)) \<le> rr_fireNs e" using e by (auto simp: fire_times_def)
    moreover have "0 < span_ns events / of_nat (bucket_number events)" using assms(3) by (simp add: span_ns_def)
    ultimately show ?thesis using bucket_index_in [OF _ _ assms(3)] by (simp add: in_bucket_def Let_def)
  qed (simp add: in_bucket_def Let_def)
qed

lemma sum_by_index:
  assumes "\<forall>x \<in> set xs. P x \<longrightarrow> (0 \<le> f x \<and> f x < int n)"
  shows "sum_list (map (\<lambda>i. length (filter (\<lambda>x. P x \<and> f x = int i) xs)) [0..<n]) = length (filter P xs)"
proof -
  have "sum_list (map (\<lambda>k. length (filter (\<lambda>x. nat (f x) = k) (filter P xs))) [0..<n]) = length (filter P xs)"
    using assms by (intro count_by_key) (auto simp: nat_less_iff)
  moreover have "length (filter (\<lambda>x. nat (f x) = k) (filter P xs)) = length (filter (\<lambda>x. P x \<and> f x = int k) xs)" for k
    using assms by (auto intro!: arg_cong [where f = length] filter_cong simp: filter_filter)
  ultimately show ?thesis by simp
qed

text \<open>Bucket i of the finished timeline: the rows of its interval, added to a new bucket.\<close>

abbreviation first_ns :: "replay_row list \<Rightarrow> rat" where
  "first_ns events \<equiv> Min (set (fire_times events))"

abbreviation width_ns :: "replay_row list \<Rightarrow> rat" where
  "width_ns events \<equiv> span_ns events / of_nat (bucket_number events)"

definition time_bucket :: "replay_row list \<Rightarrow> nat \<Rightarrow> bucket_view" where
  "time_bucket events i =
     view_bucket (first_ns events) (fold add_to_bucket (filter (in_bucket events i) events)
       \<lparr>bk_index = i, bk_fromNs = first_ns events + of_nat i * width_ns events, bk_count = 0, bk_errors = 0, bk_durations = []\<rparr>)"

lemma bucket_number_bounds: "8 \<le> bucket_number events" "bucket_number events \<le> 40"
  by (simp_all add: bucket_number_def)

lemma bucket_number_pos [simp]: "0 < bucket_number events"
  using bucket_number_bounds(1) [of events] by simp

lemma bucket_index_range:
  assumes "\<forall>e \<in> set events. 0 \<le> rr_fireNs e" "e \<in> set events" "rr_fireNs e \<noteq> 0"
  shows "0 \<le> bucket_index (bucket_number events) (first_ns events) (width_ns events) e \<and>
    bucket_index (bucket_number events) (first_ns events) (width_ns events) e < int (bucket_number events)"
proof -
  have "0 < rr_fireNs e" using assms by fastforce
  then have "first_ns events \<le> rr_fireNs e" using assms(2) by (auto simp: fire_times_def)
  moreover have "0 < width_ns events" by (simp add: span_ns_def)
  ultimately have "0 \<le> (rr_fireNs e - first_ns events) / width_ns events" by (intro divide_nonneg_pos) simp_all
  then show ?thesis by (simp add: bucket_index_def)
qed

lemma timeline_buckets:
  assumes "\<forall>e \<in> set events. 0 \<le> rr_fireNs e" "fire_times events \<noteq> []"
  shows "timeline events = Some (map (time_bucket events) [0..<bucket_number events])"
proof -
  let ?n = "bucket_number events" and ?m = "first_ns events" and ?w = "width_ns events"
  let ?mk = "\<lambda>i. \<lparr>bk_index = i, bk_fromNs = ?m + of_nat i * ?w, bk_count = 0, bk_errors = 0, bk_durations = []\<rparr>"
  let ?rows = "\<lambda>i. filter (\<lambda>e. rr_fireNs e \<noteq> 0 \<and> bucket_index ?n ?m ?w e = int i) events"
  have "\<not> (events = [] \<or> fire_times events = [])" using assms(2) by (auto simp: fire_times_def)
  then have "timeline events = map_option (map (view_bucket ?m)) (fill_buckets ?n ?m ?w events (map ?mk [0..<?n]))"
    unfolding timeline_def Let_def by (simp only: if_False)
  moreover have "fill_buckets ?n ?m ?w events (map ?mk [0..<?n]) =
      Some (map (\<lambda>i. fold add_to_bucket (?rows i) (map ?mk [0..<?n] ! i)) [0..<?n])"
    using bucket_index_range [OF assms(1)] by (intro fill_buckets_spec) auto
  moreover have "view_bucket ?m (fold add_to_bucket (?rows i) (map ?mk [0..<?n] ! i)) = time_bucket events i" if "i < ?n" for i
    using that timeline_rows [OF assms that] by (simp add: time_bucket_def)
  ultimately show ?thesis by simp
qed

lemma time_bucket_content:
  fixes events :: "replay_row list" and i :: nat
  defines "mine \<equiv> filter (in_bucket events i) events" and "b \<equiv> time_bucket events i"
  shows "bk_count (bv_bucket b) = length mine" "bk_errors (bv_bucket b) = length (filter is_error mine)"
    "bk_durations (bv_bucket b) = sort (filter (\<lambda>d. d > 0) (map rr_durationNs mine))" "bv_errorRate b \<le> 1"
    "bv_offsetSec b = of_nat i * width_ns events / 1000000000"
proof -
  have "of_nat (length (filter is_error mine)) / of_nat (length mine) \<le> (1 :: rat)" if "mine \<noteq> []"
    using that by (simp add: divide_le_eq_1 length_filter_le)
  then show "bk_count (bv_bucket b) = length mine" "bk_errors (bv_bucket b) = length (filter is_error mine)"
    "bk_durations (bv_bucket b) = sort (filter (\<lambda>d. d > 0) (map rr_durationNs mine))" "bv_errorRate b \<le> 1"
    "bv_offsetSec b = of_nat i * width_ns events / 1000000000"
    by (simp_all add: b_def time_bucket_def view_bucket_def Let_def fold_add mine_def [symmetric])
qed

lemma time_bucket_counts:
  assumes "\<forall>e \<in> set events. 0 \<le> rr_fireNs e" "fire_times events \<noteq> []"
  shows "sum_list (map (\<lambda>i. length (filter (in_bucket events i) events)) [0..<bucket_number events]) = length (fire_times events)"
proof -
  let ?f = "bucket_index (bucket_number events) (first_ns events) (width_ns events)"
  have "sum_list (map (\<lambda>i. length (filter (in_bucket events i) events)) [0..<bucket_number events]) =
      sum_list (map (\<lambda>i. length (filter (\<lambda>e. rr_fireNs e \<noteq> 0 \<and> ?f e = int i) events)) [0..<bucket_number events])"
    by (intro arg_cong [where f = sum_list] map_cong) (simp_all add: timeline_rows [OF assms])
  also have "\<dots> = length (filter (\<lambda>e. rr_fireNs e \<noteq> 0) events)"
    using bucket_index_range [OF assms(1)] by (intro sum_by_index) auto
  also have "\<dots> = length (fire_times events)"
    using assms(1) by (auto simp: fire_times_def filter_map intro!: arg_cong [where f = length] filter_cong)
  finally show ?thesis .
qed

lemma time_bucket_total: "total_sec (map (time_bucket events) [0..<bucket_number events]) = span_ns events / 1000000000"
proof -
  let ?n = "bucket_number events"
  have "total_sec (map (time_bucket events) [0..<?n]) = of_nat (?n - 1) * width_ns events / 1000000000 + width_ns events / 1000000000"
    using bucket_number_bounds(1) [of events] by (simp add: total_sec_def last_conv_nth time_bucket_content(5))
  also have "\<dots> = of_nat ?n * width_ns events / 1000000000"
    using bucket_number_bounds(1) [of events] by (simp add: of_nat_diff Suc_leI add_divide_distrib [symmetric] left_diff_distrib)
  finally show ?thesis by simp
qed

text \<open>
  C38. The timeline loses and doubles nothing: it has between 8 and 40 buckets, every row with a time is
  in exactly one of them, the one whose interval contains its time; the counts, errors and
  durations of a bucket are those of its rows; and the length it states is the span of the rows.
\<close>

theorem timeline_partitions:
  assumes "\<forall>e \<in> set events. 0 \<le> rr_fireNs e" "fire_times events \<noteq> []"
  shows "\<exists>bs. timeline events = Some bs \<and> length bs = bucket_number events \<and> 8 \<le> length bs \<and> length bs \<le> 40 \<and>
    sum_list (map (bk_count \<circ> bv_bucket) bs) = length (fire_times events) \<and>
    (\<forall>i < length bs. let b = bs ! i; mine = filter (in_bucket events i) events
       in bk_count (bv_bucket b) = length mine \<and> bk_errors (bv_bucket b) = length (filter is_error mine) \<and>
          bk_durations (bv_bucket b) = sort (filter (\<lambda>d. d > 0) (map rr_durationNs mine)) \<and>
          bv_errorRate b \<le> 1) \<and>
    total_sec bs = span_ns events / 1000000000"
proof (intro exI conjI)
  let ?bs = "map (time_bucket events) [0..<bucket_number events]"
  show "timeline events = Some ?bs" by (rule timeline_buckets [OF assms])
  show "length ?bs = bucket_number events" "8 \<le> length ?bs" "length ?bs \<le> 40" using bucket_number_bounds by simp_all
  show "sum_list (map (bk_count \<circ> bv_bucket) ?bs) = length (fire_times events)"
    using time_bucket_counts [OF assms] by (simp add: comp_def time_bucket_content(1))
  show "total_sec ?bs = span_ns events / 1000000000" by (rule time_bucket_total)
  show "\<forall>i < length ?bs. let b = ?bs ! i; mine = filter (in_bucket events i) events
       in bk_count (bv_bucket b) = length mine \<and> bk_errors (bv_bucket b) = length (filter is_error mine) \<and>
          bk_durations (bv_bucket b) = sort (filter (\<lambda>d. d > 0) (map rr_durationNs mine)) \<and> bv_errorRate b \<le> 1"
    by (simp add: Let_def time_bucket_content)
qed

definition sample_row :: replay_row where
  "sample_row = \<lparr>rr_eventId = ''e1'', rr_method = ''GET'', rr_path = ''/a'', rr_route = [], rr_status = 500, rr_durationNs = 7, rr_fireNs = 5, rr_lagNs = 0,
     rr_errorCode = []\<rparr>"

theorem timeline_partitions_witness:
  "\<exists>bs. timeline [sample_row, sample_row\<lparr>rr_fireNs := 0\<rparr>] = Some bs \<and> length bs = 8 \<and>
     sum_list (map (bk_count \<circ> bv_bucket) bs) = 1"
proof -
  let ?es = "[sample_row, sample_row\<lparr>rr_fireNs := 0\<rparr>]"
  have t: "fire_times ?es = [5]" "bucket_number ?es = 8" by (simp_all add: fire_times_def bucket_number_def sample_row_def)
  have "\<forall>e \<in> set ?es. 0 \<le> rr_fireNs e" "fire_times ?es \<noteq> []" using t by (simp_all add: sample_row_def)
  from timeline_partitions [OF this] t show ?thesis by auto
qed

end
