(* ===== verification/Api.thy ===== *)
theory Api
  imports Signature
begin

text \<open>
  The dashboard's REST client (\<open>ui/src/lib/api.ts\<close>) and the gate that lets only signed-in users
  through (\<open>ui/src/components/auth-gate.tsx\<close>). \<open>fetch\<close> and \<open>JSON.parse\<close> are arguments; the base
  URL is the value of the build-time variable, \<open>None\<close> when it is not set.
\<close>

section \<open>URLs\<close>

text \<open>\<open>replace(/\/$/, "")\<close>: one slash at the end is dropped.\<close>

definition strip_slash :: "string \<Rightarrow> string" where
  "strip_slash s = (if s \<noteq> [] \<and> last s = CHR ''/'' then butlast s else s)"

definition env_or :: "string option \<Rightarrow> string \<Rightarrow> string" where
  "env_or v d = (case v of None \<Rightarrow> d | Some s \<Rightarrow> if s = [] then d else s)"

definition apiBaseURL :: "string option \<Rightarrow> string" where
  "apiBaseURL env = strip_slash (env_or env ''http://127.0.0.1:9101'')"

definition wsBaseURL :: "string option \<Rightarrow> string" where
  "wsBaseURL env = (let base = apiBaseURL env in if startsWith base ''http'' then ''ws'' @ drop 4 base else base)"

definition docsURL :: "string option \<Rightarrow> string \<Rightarrow> string" where
  "docsURL env path =
     (let base = strip_slash (env_or env ''https://clearvoiance.vercel.app'')
      in if path = [] then base else base @ (if startsWith path ''/'' then path else ''/'' @ path))"

text \<open>\<open>encodeURIComponent\<close>: everything but the unreserved characters, byte by byte in UTF-8.\<close>

definition uri_byte :: "8 word \<Rightarrow> string" where
  "uri_byte b =
     (let n = unat b; c = char_of n :: char
      in if 48 \<le> n \<and> n \<le> 57 \<or> 65 \<le> n \<and> n \<le> 90 \<or> 97 \<le> n \<and> n \<le> 122 \<or> c \<in> set ''-_.!~*()'' \<or> n = 39 then [c]
         else CHR 0x25 # toUpperCase [hex_digit (n div 16), hex_digit (n mod 16)])"

definition encodeURIComponent :: "string \<Rightarrow> string" where
  "encodeURIComponent s = concat (map uri_byte (utf8_encode s))"

text \<open>A parameter is \<open>None\<close> when it is undefined or null.\<close>

definition toQS :: "string option dict option \<Rightarrow> string" where
  "toQS params =
     (case params of
        None \<Rightarrow> []
      | Some ps \<Rightarrow>
          (let parts = map (\<lambda>(k, v). encodeURIComponent k @ ''='' @ encodeURIComponent (the v))
                 (filter (\<lambda>(k, v). v \<noteq> None \<and> v \<noteq> Some []) ps)
           in if parts \<noteq> [] then ''?'' @ join_with ''&'' parts else []))"

section \<open>Requests\<close>

datatype parse_mode = ParseJson | ParseText | ParseNone

record api_init =
  in_method :: "string option"
  in_body :: "string option"
  in_headers :: "string dict"

definition get_init :: api_init where
  "get_init = \<lparr>in_method = None, in_body = None, in_headers = []\<rparr>"

definition post_init :: "string \<Rightarrow> api_init" where
  "post_init body = \<lparr>in_method = Some ''POST'', in_body = Some body, in_headers = []\<rparr>"

definition delete_init :: api_init where
  "delete_init = \<lparr>in_method = Some ''DELETE'', in_body = None, in_headers = []\<rparr>"

text \<open>What \<open>fetch\<close> is called with; \<open>Headers\<close> keeps names in lower case.\<close>

record fetch_call =
  fc_url :: string
  fc_method :: "string option"
  fc_body :: "string option"
  fc_headers :: "string dict"
  fc_cache :: string
  fc_credentials :: string

text \<open>An answer; the text is \<open>None\<close> when reading it fails.\<close>

record api_response =
  ar_status :: nat
  ar_statusText :: string
  ar_text :: "string option"

text \<open>\<open>APIError\<close>: what the envelope held, or the one made up from the status line.\<close>

datatype api_error = Envelope json | StatusLine string string

datatype api_failure = FetchRejected string | HTTPError nat api_error | BodyRejected

datatype api_value = Json json | Text string | Undefined

fun truthy :: "json \<Rightarrow> bool" where
  "truthy JNull = False"
| "truthy (JBool b) = b"
| "truthy (JNum n) = (n \<noteq> ''0'')"
| "truthy (JStr s) = (s \<noteq> [])"
| "truthy _ = True"

definition error_of :: "(string \<Rightarrow> json option) \<Rightarrow> api_response \<Rightarrow> api_error" where
  "error_of parse r =
     (case Option.bind (ar_text r) parse of
        Some (JObj kvs) \<Rightarrow>
          (case dict_get kvs ''error'' of
             Some e \<Rightarrow> if truthy e then Envelope e else StatusLine (''HTTP_'' @ nat_to_string (ar_status r)) (ar_statusText r)
           | None \<Rightarrow> StatusLine (''HTTP_'' @ nat_to_string (ar_status r)) (ar_statusText r))
      | _ \<Rightarrow> StatusLine (''HTTP_'' @ nat_to_string (ar_status r)) (ar_statusText r))"

definition req_headers :: "api_init \<Rightarrow> string dict" where
  "req_headers init =
     (let headers = map (\<lambda>(k, v). (toLowerCase k, v)) (in_headers init)
      in if in_body init \<notin> {None, Some []} \<and> ''content-type'' \<notin> set (dict_keys headers)
         then headers @ [(''content-type'', ''application/json'')] else headers)"

definition req :: "(string \<Rightarrow> json option) \<Rightarrow> (fetch_call \<Rightarrow> string + api_response) \<Rightarrow> string option \<Rightarrow> string \<Rightarrow> api_init
    \<Rightarrow> parse_mode \<Rightarrow> api_failure + api_value" where
  "req parse fetch env path init mode =
     (case fetch \<lparr>fc_url = apiBaseURL env @ path, fc_method = in_method init, fc_body = in_body init,
          fc_headers = req_headers init, fc_cache = ''no-store'', fc_credentials = ''include''\<rparr> of
        Inl m \<Rightarrow> Inl (FetchRejected m)
      | Inr r \<Rightarrow>
          if \<not> (200 \<le> ar_status r \<and> ar_status r \<le> 299) then Inl (HTTPError (ar_status r) (error_of parse r))
          else (case mode of
                  ParseNone \<Rightarrow> Inr Undefined
                | ParseText \<Rightarrow> (case ar_text r of None \<Rightarrow> Inl BodyRejected | Some t \<Rightarrow> Inr (Text t))
                | ParseJson \<Rightarrow> (case Option.bind (ar_text r) parse of None \<Rightarrow> Inl BodyRejected | Some j \<Rightarrow> Inr (Json j))))"


section \<open>The endpoints\<close>

text \<open>\<open>JSON.stringify\<close> of an object whose members are given as texts.\<close>

definition json_object :: "(string \<times> string) list \<Rightarrow> string" where
  "json_object kvs = ''{'' @ join_with '','' (map (\<lambda>(k, v). json_quote k @ '':'' @ v) kvs) @ ''}''"

datatype api_op =
    AuthState | Setup string string | Login string string | Logout | Me | ChangePassword string string
  | Health | Version
  | ListSessions "string option" "nat option" | GetSession string | StopSession string | DeleteSession string
  | SessionEvents string nat
  | ListReplays "string option" "nat option" | GetReplay string | ReplayEvents string nat | CancelReplay string
  | StartReplay json
  | DbTopSlow string nat | DbByEndpoint string nat | DbDeadlocks string nat
  | RuntimeSummary string | RuntimeSamples string
  | ListAPIKeys | CreateAPIKey string | RevokeAPIKey string
  | ListMonitors | GetMonitor string | StartMonitor string json | StopMonitor string
  | Config | MetricsText

definition list_params :: "string option \<Rightarrow> nat option \<Rightarrow> string option dict option" where
  "list_params status limit = Some [(''status'', status), (''limit'', map_option nat_to_string limit)]"

text \<open>Path, request and parse mode of every call; objects given as JSON print in member order.\<close>

fun api :: "(json \<Rightarrow> string) \<Rightarrow> api_op \<Rightarrow> string \<times> api_init \<times> parse_mode" where
  "api stringify AuthState = (''/api/v1/auth/state'', get_init, ParseJson)"
| "api stringify (Setup email password) = (''/api/v1/auth/setup'',
     post_init (json_object [(''email'', json_quote email), (''password'', json_quote password)]), ParseJson)"
| "api stringify (Login email password) = (''/api/v1/auth/login'',
     post_init (json_object [(''email'', json_quote email), (''password'', json_quote password)]), ParseJson)"
| "api stringify Logout = (''/api/v1/auth/logout'', post_init ''{}'', ParseJson)"
| "api stringify Me = (''/api/v1/auth/me'', get_init, ParseJson)"
| "api stringify (ChangePassword current next) = (''/api/v1/auth/change-password'',
     post_init (json_object [(''current_password'', json_quote current), (''new_password'', json_quote next)]), ParseJson)"
| "api stringify Health = (''/api/v1/health'', get_init, ParseJson)"
| "api stringify Version = (''/api/v1/version'', get_init, ParseJson)"
| "api stringify (ListSessions status limit) = (''/api/v1/sessions'' @ toQS (list_params status limit), get_init, ParseJson)"
| "api stringify (GetSession i) = (''/api/v1/sessions/'' @ i, get_init, ParseJson)"
| "api stringify (StopSession i) = (''/api/v1/sessions/'' @ i @ ''/stop'', post_init ''{}'', ParseJson)"
| "api stringify (DeleteSession i) = (''/api/v1/sessions/'' @ i, delete_init, ParseNone)"
| "api stringify (SessionEvents i limit) =
     (''/api/v1/sessions/'' @ i @ ''/events?limit='' @ nat_to_string limit, get_init, ParseJson)"
| "api stringify (ListReplays status limit) = (''/api/v1/replays'' @ toQS (list_params status limit), get_init, ParseJson)"
| "api stringify (GetReplay i) = (''/api/v1/replays/'' @ i, get_init, ParseJson)"
| "api stringify (ReplayEvents i limit) =
     (''/api/v1/replays/'' @ i @ ''/events?limit='' @ nat_to_string limit, get_init, ParseJson)"
| "api stringify (CancelReplay i) = (''/api/v1/replays/'' @ i @ ''/cancel'', post_init ''{}'', ParseJson)"
| "api stringify (StartReplay body) = (''/api/v1/replays'', post_init (stringify body), ParseJson)"
| "api stringify (DbTopSlow i limit) =
     (''/api/v1/replays/'' @ i @ ''/db/top-slow-queries?limit='' @ nat_to_string limit, get_init, ParseJson)"
| "api stringify (DbByEndpoint i limit) =
     (''/api/v1/replays/'' @ i @ ''/db/by-endpoint?limit='' @ nat_to_string limit, get_init, ParseJson)"
| "api stringify (DbDeadlocks i limit) =
     (''/api/v1/replays/'' @ i @ ''/db/deadlocks?limit='' @ nat_to_string limit, get_init, ParseJson)"
| "api stringify (RuntimeSummary i) = (''/api/v1/replays/'' @ i @ ''/runtime/summary'', get_init, ParseJson)"
| "api stringify (RuntimeSamples i) = (''/api/v1/replays/'' @ i @ ''/runtime'', get_init, ParseJson)"
| "api stringify ListAPIKeys = (''/api/v1/api-keys'', get_init, ParseJson)"
| "api stringify (CreateAPIKey name) =
     (''/api/v1/api-keys'', post_init (json_object [(''name'', json_quote name)]), ParseJson)"
| "api stringify (RevokeAPIKey i) = (''/api/v1/api-keys/'' @ i, delete_init, ParseNone)"
| "api stringify ListMonitors = (''/api/v1/monitors'', get_init, ParseJson)"
| "api stringify (GetMonitor name) = (''/api/v1/monitors/'' @ encodeURIComponent name, get_init, ParseJson)"
| "api stringify (StartMonitor name body) =
     (''/api/v1/monitors/'' @ encodeURIComponent name @ ''/start'', post_init (stringify body), ParseJson)"
| "api stringify (StopMonitor name) =
     (''/api/v1/monitors/'' @ encodeURIComponent name @ ''/stop'', post_init ''{}'', ParseJson)"
| "api stringify Config = (''/api/v1/config'', get_init, ParseJson)"
| "api stringify MetricsText = (''/api/v1/metrics'', get_init, ParseText)"

section \<open>Encoding\<close>

text \<open>The bytes of a text as characters, which is the text itself when it is ASCII.\<close>

definition utf8_text :: "string \<Rightarrow> string" where
  "utf8_text s = map (\<lambda>b. char_of (unat b)) (utf8_encode s)"

lemma percent_decode_plain: "c \<noteq> CHR 0x25 \<Longrightarrow> percent_decode (c # s) = c # percent_decode s"
  by (cases s rule: percent_decode.cases) auto

lemma hex_digit_upper:
  assumes "d < 16"
  shows "hex_value (upper_char (hex_digit d)) = Some d" "upper_char (hex_digit d) \<notin> set ''%&=+?/#''"
proof -
  have "d \<in> set [0, 1, 2, 3, 4, 5, 6, 7, 8, 9, 10, 11, 12, 13, 14, 15]" using assms by simp presburger
  then show *: "hex_value (upper_char (hex_digit d)) = Some d"
    by (auto simp: hex_digit_def hex_value_def upper_char_def)
  have "hex_value c = None" if "c \<in> set ''%&=+?/#''" for c using that by (auto simp: hex_value_def)
  with * show "upper_char (hex_digit d) \<notin> set ''%&=+?/#''" by fastforce
qed

lemma uri_byte_shape:
  "(\<exists>c. uri_byte b = [c] \<and> c = char_of (unat b) \<and> c \<notin> set ''%&=+?/#'') \<or>
   (\<exists>x y. uri_byte b = [CHR 0x25, x, y] \<and> hex_value x = Some (unat b div 16) \<and> hex_value y = Some (unat b mod 16) \<and>
      {x, y} \<inter> set ''%&=+?/#'' = {})"
proof -
  have n: "unat b < 256" using unsigned_less [of b] by simp
  then have d: "unat b div 16 < 16" "unat b mod 16 < 16" by auto
  have code: "of_char (char_of (unat b) :: char) = unat b" using n by simp
  show ?thesis
  proof (cases "\<exists>c. uri_byte b = [c]")
    case True
    then have "uri_byte b = [char_of (unat b)]" by (auto simp: uri_byte_def Let_def toUpperCase_def split: if_splits)
    moreover have "char_of (unat b) \<noteq> c" if "c \<in> set ''%&=+?/#''" for c :: char
    proof
      assume "char_of (unat b) = c"
      then have "unat b \<in> {37, 38, 61, 43, 63, 47, 35}" "c \<notin> set ''-_.!~*()''" using that code by auto
      with True \<open>char_of (unat b) = c\<close> show False by (auto simp: uri_byte_def Let_def toUpperCase_def split: if_splits)
    qed
    ultimately show ?thesis by blast
  next
    case False
    then have "uri_byte b = CHR 0x25 # toUpperCase [hex_digit (unat b div 16), hex_digit (unat b mod 16)]"
      by (auto simp: uri_byte_def Let_def)
    with hex_digit_upper [OF d(1)] hex_digit_upper [OF d(2)] show ?thesis by (auto simp: toUpperCase_def)
  qed
qed

lemma percent_decode_byte: "percent_decode (uri_byte b @ s) = char_of (unat b) # percent_decode s"
proof -
  have "16 * (unat b div 16) + unat b mod 16 = unat b" by simp
  with uri_byte_shape [of b] show ?thesis by (auto simp: percent_decode_plain)
qed

lemma decode_component: "percent_decode (encodeURIComponent s) = utf8_text s"
proof -
  have "percent_decode (concat (map uri_byte bs)) = map (\<lambda>b. char_of (unat b)) bs" for bs
    by (induction bs) (simp_all add: percent_decode_byte)
  then show ?thesis by (simp add: encodeURIComponent_def utf8_text_def)
qed

lemma component_chars: "set (encodeURIComponent s) \<inter> set ''&=+?/#'' = {}"
proof -
  have "set (uri_byte b) \<inter> set ''&=+?/#'' = {}" for b using uri_byte_shape [of b] by auto
  then show ?thesis by (auto simp: encodeURIComponent_def)
qed

lemma split_join:
  assumes "\<forall>p \<in> set ps. c \<notin> set p" "ps \<noteq> []"
  shows "split_on c (join_with [c] ps) = ps"
  using assms
proof (induction "[c]" ps rule: join_with.induct)
  case (3 s t rest)
  then show ?case by (simp add: split_on_append)
qed (simp_all add: split_on_single)

text \<open>
  C39. Query strings and path segments survive the trip: parsing what \<open>toQS\<close> printed gives back the
  parameters that were given and not empty, in order, whatever characters they contain; and the name
  of a monitor stays one path segment, which decodes to the name.
\<close>

theorem toQS_roundtrip:
  "qs_parse (toQS (Some ps)) =
     map (\<lambda>(k, v). (utf8_text k, utf8_text (the v))) (filter (\<lambda>(k, v). v \<noteq> None \<and> v \<noteq> Some []) ps) \<and>
   (\<exists>seg. fst (api stringify (GetMonitor name)) = ''/api/v1/monitors/'' @ seg \<and> set seg \<inter> set ''/?#'' = {} \<and>
      percent_decode seg = utf8_text name)"
proof
  define f where "f = (\<lambda>(k, v). encodeURIComponent k @ ''='' @ encodeURIComponent (the (v :: string option)))"
  define qs where "qs = filter (\<lambda>(k, v). v \<noteq> None \<and> v \<noteq> Some []) ps"
  have amp: "CHR ''&'' \<notin> set (f x)" "f x \<noteq> []" for x
    using component_chars [of "fst x"] component_chars [of "the (snd x)"] by (auto simp: f_def case_prod_beta)
  have plus: "plus_to_space (f x) = f x" for x
    using component_chars [of "fst x"] component_chars [of "the (snd x)"]
    by (auto simp: f_def case_prod_beta plus_to_space_def intro!: map_idI)
  have pair: "qs_pair (f x) = (utf8_text (fst x), utf8_text (the (snd x)))" for x
  proof -
    have "break_at (CHR ''='') (f x) = Some (encodeURIComponent (fst x), encodeURIComponent (the (snd x)))"
      using component_chars [of "fst x"] by (simp add: f_def case_prod_beta break_at_append)
    then show ?thesis by (simp add: qs_pair_def plus decode_component)
  qed
  have "qs_parse (toQS (Some ps)) = map qs_pair (map f qs)"
  proof (cases "qs = []")
    case True
    then show ?thesis unfolding toQS_def option.case f_def [symmetric] qs_def [symmetric] Let_def by (simp add: qs_parse_def)
  next
    case False
    have "split_on (CHR ''&'') (join_with ''&'' (map f qs)) = map f qs"
      using amp False by (intro split_join) auto
    moreover have "filter (\<lambda>p. p \<noteq> []) (map f qs) = map f qs" using amp by (auto intro: filter_True)
    ultimately show ?thesis
      unfolding toQS_def option.case f_def [symmetric] qs_def [symmetric] Let_def
      using False by (simp add: qs_parse_def)
  qed
  then show "qs_parse (toQS (Some ps)) =
     map (\<lambda>(k, v). (utf8_text k, utf8_text (the v))) (filter (\<lambda>(k, v). v \<noteq> None \<and> v \<noteq> Some []) ps)"
    by (simp add: qs_def pair comp_def case_prod_beta)
  show "\<exists>seg. fst (api stringify (GetMonitor name)) = ''/api/v1/monitors/'' @ seg \<and> set seg \<inter> set ''/?#'' = {} \<and>
      percent_decode seg = utf8_text name"
    using component_chars [of name] by (auto simp: decode_component)
qed


section \<open>The gate\<close>

text \<open>
  The gate of the signed-in pages asks who the user is, and where to send a visitor who is nobody.
  Its effect awaits two answers; in between it may be unmounted. \<open>None\<close> as the status of a failure is
  an error that is not an \<open>HTTPError\<close>.
\<close>

datatype gate_status = Pending | Authed json | Redirecting

datatype gate_phase = AwaitMe | AwaitState | Done

record gate =
  gt_status :: gate_status
  gt_phase :: gate_phase
  gt_cancelled :: bool
  gt_replaced :: "string list"

datatype gate_event = MeAnswers json | MeFails "nat option" | StateAnswers bool | StateFails | Unmount

definition AuthGate :: gate where
  "AuthGate = \<lparr>gt_status = Pending, gt_phase = AwaitMe, gt_cancelled = False, gt_replaced = []\<rparr>"

fun gate_step :: "gate_event \<Rightarrow> gate \<Rightarrow> gate" where
  "gate_step (MeAnswers user) g =
     (if gt_phase g \<noteq> AwaitMe then g
      else if gt_cancelled g then g\<lparr>gt_phase := Done\<rparr> else g\<lparr>gt_phase := Done, gt_status := Authed user\<rparr>)"
| "gate_step (MeFails status) g =
     (if gt_phase g \<noteq> AwaitMe then g
      else if gt_cancelled g then g\<lparr>gt_phase := Done\<rparr>
      else g\<lparr>gt_status := Redirecting, gt_phase := (if status = Some 401 then AwaitState else Done)\<rparr>)"
| "gate_step (StateAnswers setup_required) g =
     (if gt_phase g \<noteq> AwaitState then g
      else g\<lparr>gt_phase := Done, gt_replaced := gt_replaced g @ [if setup_required then ''/setup'' else ''/login'']\<rparr>)"
| "gate_step StateFails g =
     (if gt_phase g \<noteq> AwaitState then g else g\<lparr>gt_phase := Done, gt_replaced := gt_replaced g @ [''/login'']\<rparr>)"
| "gate_step Unmount g = g\<lparr>gt_cancelled := True\<rparr>"

text \<open>What is rendered: the pages, or the word \<open>Loading\<close>.\<close>

definition gate_shows_children :: "gate \<Rightarrow> bool" where
  "gate_shows_children g \<longleftrightarrow> (case gt_status g of Authed _ \<Rightarrow> True | _ \<Rightarrow> False)"

definition gate_inv :: "gate_event list \<Rightarrow> gate \<Rightarrow> bool" where
  "gate_inv seen g \<longleftrightarrow>
     (\<forall>user. gt_status g = Authed user \<longrightarrow> MeAnswers user \<in> set seen \<and> gt_phase g = Done \<and> gt_replaced g = []) \<and>
     (gt_status g = Pending \<longrightarrow> gt_replaced g = [] \<and> gt_phase g \<noteq> AwaitState) \<and>
     (gt_phase g = AwaitState \<or> gt_replaced g \<noteq> [] \<longrightarrow> MeFails (Some 401) \<in> set seen) \<and>
     (gt_phase g \<noteq> Done \<longrightarrow> gt_replaced g = []) \<and> length (gt_replaced g) \<le> 1 \<and>
     set (gt_replaced g) \<subseteq> {''/setup'', ''/login''} \<and>
     (''/setup'' \<in> set (gt_replaced g) \<longrightarrow> StateAnswers True \<in> set seen)"

lemma gate_inv_step: "gate_inv seen g \<Longrightarrow> gate_inv (seen @ [e]) (gate_step e g)"
  by (cases e) (auto simp: gate_inv_def)

interpretation agi: history_invariant AuthGate gate_step gate_inv
  by unfold_locales (simp add: gate_inv_def AuthGate_def, rule gate_inv_step)

text \<open>
  C36. Nobody gets past the gate without an answer that says who they are; whoever is shown the pages is
  not sent away; a visitor is sent away at most once, only after a 401, and to the setup page only
  when the engine asked for it.
\<close>

theorem auth_gate_safe:
  "(let g = fold gate_step evs AuthGate
    in (gate_shows_children g \<longrightarrow> (\<exists>user. MeAnswers user \<in> set evs) \<and> gt_replaced g = []) \<and>
       length (gt_replaced g) \<le> 1 \<and> set (gt_replaced g) \<subseteq> {''/setup'', ''/login''} \<and>
       (gt_replaced g \<noteq> [] \<longrightarrow> MeFails (Some 401) \<in> set evs) \<and>
       (''/setup'' \<in> set (gt_replaced g) \<longrightarrow> StateAnswers True \<in> set evs))"
  using agi.inv_run [of evs] by (auto simp: gate_inv_def gate_shows_children_def Let_def split: gate_status.splits)

theorem auth_gate_safe_witness:
  "gate_shows_children (fold gate_step [MeAnswers JNull, MeFails (Some 401)] AuthGate) \<and>
   gt_replaced (fold gate_step [MeAnswers JNull, MeFails (Some 401)] AuthGate) = [] \<and>
   gt_replaced (fold gate_step [MeFails (Some 401), StateAnswers True] AuthGate) = [''/setup''] \<and>
   set (gt_replaced (fold gate_step [MeFails (Some 401), StateAnswers True] AuthGate)) \<subseteq> {''/setup'', ''/login''}"
  using auth_gate_safe [of "[MeAnswers JNull, MeFails (Some 401)]"] auth_gate_safe [of "[MeFails (Some 401), StateAnswers True]"]
  by (simp add: AuthGate_def gate_shows_children_def Let_def)

text \<open>
  An error other than 401 leaves the gate in a state that shows neither the pages nor an error, and
  that nothing changes any more.
\<close>

theorem auth_gate_stuck:
  assumes "status \<noteq> Some 401"
  shows "gt_status (fold gate_step (MeFails status # evs) AuthGate) = Redirecting \<and>
    gt_replaced (fold gate_step (MeFails status # evs) AuthGate) = []"
proof -
  have "gt_status g = Redirecting \<and> gt_phase g = Done \<and> gt_replaced g = [] \<Longrightarrow>
      gt_status (fold gate_step evs g) = Redirecting \<and> gt_replaced (fold gate_step evs g) = []" for g
  proof (induction evs arbitrary: g)
    case (Cons e evs)
    have "gt_status (gate_step e g) = Redirecting \<and> gt_phase (gate_step e g) = Done \<and> gt_replaced (gate_step e g) = []"
      using Cons.prems by (cases e) simp_all
    from Cons.IH [OF this] show ?case by simp
  qed simp
  then show ?thesis using assms by (simp add: AuthGate_def)
qed

section \<open>Calls\<close>

text \<open>
  Every call goes to the configured engine with the session cookie and uncached; only a \<open>POST\<close>
  has a body, and then the content type says JSON; a call succeeds exactly when the engine answered
  with a success status and a body of the expected form; a refusal keeps its status.
\<close>

theorem api_calls:
  assumes "api stringify op = (path, init, mode)" "\<And>j. stringify j \<noteq> []"
  shows "\<exists>call. startsWith path ''/api/v1/'' \<and> fc_url call = apiBaseURL env @ path \<and> fc_credentials call = ''include'' \<and>
    fc_cache call = ''no-store'' \<and> (fc_body call \<noteq> None \<longleftrightarrow> fc_method call = Some ''POST'') \<and>
    (fc_body call \<noteq> None \<longrightarrow> dict_get (fc_headers call) ''content-type'' = Some ''application/json'') \<and>
    req parse fetch env path init mode =
      (case fetch call of
         Inl m \<Rightarrow> Inl (FetchRejected m)
       | Inr r \<Rightarrow>
           if \<not> (200 \<le> ar_status r \<and> ar_status r \<le> 299) then Inl (HTTPError (ar_status r) (error_of parse r))
           else (case (mode, ar_text r) of
                   (ParseNone, _) \<Rightarrow> Inr Undefined
                 | (_, None) \<Rightarrow> Inl BodyRejected
                 | (ParseText, Some t) \<Rightarrow> Inr (Text t)
                 | (ParseJson, Some t) \<Rightarrow> (case parse t of None \<Rightarrow> Inl BodyRejected | Some j \<Rightarrow> Inr (Json j))))"
proof -
  let ?call = "\<lparr>fc_url = apiBaseURL env @ path, fc_method = in_method init, fc_body = in_body init,
    fc_headers = req_headers init, fc_cache = ''no-store'', fc_credentials = ''include''\<rparr>"
  have "startsWith path ''/api/v1/'' \<and> (init = get_init \<or> init = delete_init \<or> (\<exists>b. b \<noteq> [] \<and> init = post_init b))"
    using assms by (cases op) (auto simp: startsWith_def json_object_def)
  then have "startsWith path ''/api/v1/''" "in_body init \<noteq> None \<longleftrightarrow> in_method init = Some ''POST''"
    "in_body init \<noteq> None \<longrightarrow> dict_get (req_headers init) ''content-type'' = Some ''application/json''"
    by (auto simp: get_init_def delete_init_def post_init_def req_headers_def)
  then show ?thesis
    by (intro exI [of _ ?call]) (auto simp: req_def split: sum.splits parse_mode.splits option.splits)
qed

end
