(* ===== verification/Pages.thy ===== *)
theory Pages
  imports Timeline Api Sql Format
begin

text \<open>
  What the other pages of the dashboard compute: the forms for signing in, setting up, changing the
  password and starting a replay; the table of a session's endpoints; sizes and charts of the
  database page. Numbers are exact, as in theory \<open>Stats\<close>. Texts that a form shows are values.
\<close>

section \<open>Forms\<close>

text \<open>
  A form either shows a message or makes a call (\<open>setup/page.tsx\<close>, \<open>settings/page.tsx\<close>); what it does
  with the answer: go to a page, or show a message.
\<close>

datatype after_call = GoTo string | Show string

definition setup_submit :: "string \<Rightarrow> string \<Rightarrow> string \<Rightarrow> string + api_op" where
  "setup_submit email password confirm =
     (if length password < 10 then Inl ''Password must be at least 10 characters.''
      else if password \<noteq> confirm then Inl ''Passwords don't match.''
      else Inr (Setup (trim email) password))"

definition onPwdSubmit :: "string \<Rightarrow> string \<Rightarrow> string \<Rightarrow> string + api_op" where
  "onPwdSubmit current new confirm =
     (if length new < 10 then Inl ''New password must be at least 10 characters.''
      else if new \<noteq> confirm then Inl ''New passwords don't match.''
      else Inr (ChangePassword current new))"

definition create_key_submit :: "string \<Rightarrow> api_op option" where
  "create_key_submit name = (if trim name = [] then None else Some (CreateAPIKey (trim name)))"

text \<open>
  The message of an error: \<open>msg\<close> reads it from an envelope, \<open>bad\<close> is that of the error \<open>json()\<close> throws.
\<close>

definition error_text :: "(json \<Rightarrow> string) \<Rightarrow> string \<Rightarrow> api_failure \<Rightarrow> string" where
  "error_text msg bad e =
     (case e of HTTPError _ (Envelope j) \<Rightarrow> msg j | HTTPError _ (StatusLine code text) \<Rightarrow> text
      | FetchRejected m \<Rightarrow> m | BodyRejected \<Rightarrow> bad)"

definition login_submit :: "string \<Rightarrow> string \<Rightarrow> api_op" where
  "login_submit email password = Login (trim email) password"

definition login_answered :: "(json \<Rightarrow> string) \<Rightarrow> string \<Rightarrow> string option \<Rightarrow> api_failure + api_value \<Rightarrow> after_call" where
  "login_answered msg bad env r =
     (case r of
        Inr _ \<Rightarrow> GoTo ''/''
      | Inl (HTTPError status e) \<Rightarrow>
          if status = 401 then Show ''Invalid email or password.'' else Show (error_text msg bad (HTTPError status e))
      | Inl e \<Rightarrow>
          Show (''Could not reach the engine at '' @ apiBaseURL env @ ''. Is it running?'' @ [CHR 0x0A] @ error_text msg bad e))"

definition setup_answered :: "(json \<Rightarrow> string) \<Rightarrow> string \<Rightarrow> api_failure + api_value \<Rightarrow> after_call" where
  "setup_answered msg bad r = (case r of Inr _ \<Rightarrow> GoTo ''/'' | Inl e \<Rightarrow> Show (error_text msg bad e))"

definition logout_answered :: "api_failure + api_value \<Rightarrow> after_call" where
  "logout_answered r = GoTo ''/login''"

subsection \<open>Starting a replay\<close>

text \<open>
  The source session: what the user picked, else the one of the link if it is listed, else the first.
\<close>

definition chosen_source :: "string option \<Rightarrow> string \<Rightarrow> string list \<Rightarrow> string" where
  "chosen_source picked preselected sessions =
     (case picked of
        Some s \<Rightarrow> s
      | None \<Rightarrow> if preselected \<in> set sessions then preselected else (case sessions of [] \<Rightarrow> [] | s # _ \<Rightarrow> s))"

text \<open>\<open>number\<close> is \<open>Number()\<close> followed by printing, \<open>None\<close> for what is not a number or is zero.\<close>

definition new_replay_submit :: "(string \<Rightarrow> bool) \<Rightarrow> (string \<Rightarrow> string option) \<Rightarrow> string \<Rightarrow> string \<Rightarrow> string \<Rightarrow> string
    \<Rightarrow> string + api_op" where
  "new_replay_submit valid_url number source target speedup label =
     (if source = [] then Inl ''Pick a source session.''
      else if \<not> valid_url (trim target) then Inl ''Target URL is invalid.''
      else Inr (StartReplay (JObj ([(''source_session_id'', JStr source), (''target_url'', JStr (trim target)),
             (''speedup'', JNum (case number speedup of None \<Rightarrow> ''1'' | Some n \<Rightarrow> n))] @
             (if trim label = [] then [] else [(''label'', JStr (trim label))])))))"

text \<open>
  No form makes a call with a password the engine would refuse for its length or that was mistyped,
  a session that is not listed, or a target that is no URL.
\<close>

theorem forms_guard_calls:
  "(setup_submit email pw confirm = Inr op \<longrightarrow> op = Setup (trim email) pw \<and> 10 \<le> length pw \<and> pw = confirm) \<and>
   (onPwdSubmit cur pw confirm = Inr op \<longrightarrow> op = ChangePassword cur pw \<and> 10 \<le> length pw \<and> pw = confirm) \<and>
   (new_replay_submit valid number (chosen_source None pre sessions) target speed label = Inr op \<longrightarrow>
      valid (trim target) \<and> (sessions \<noteq> [] \<longrightarrow> chosen_source None pre sessions \<in> set sessions) \<and>
      (\<exists>body. op = StartReplay body)) \<and>
   (create_key_submit name = Some op \<longrightarrow> (\<exists>n. op = CreateAPIKey n \<and> n \<noteq> []))"
  by (auto simp: setup_submit_def onPwdSubmit_def new_replay_submit_def create_key_submit_def chosen_source_def
      split: if_splits list.splits)

section \<open>The endpoints of a session\<close>

text \<open>\<open>sessions/[id]/page.tsx\<close> has its own version of the rollup of \<open>stats.ts\<close>.\<close>

record captured_event =
  ce_id :: string
  ce_event_type :: string
  ce_method :: "string option"
  ce_path :: "string option"
  ce_route :: "string option"
  ce_status :: "int option"
  ce_timestamp_ns :: rat
  ce_durationNs :: "rat option"
  ce_request_headers :: "string list dict option"
  ce_response_headers :: "string list dict option"
  ce_request_body_preview :: "string option"
  ce_request_body_size :: "nat option"
  ce_request_body_truncated :: bool
  ce_response_body_preview :: "string option"
  ce_response_body_size :: "nat option"
  ce_response_body_truncated :: bool
  ce_source_ip :: "string option"
  ce_user_id :: "string option"

definition page_key :: "captured_event \<Rightarrow> string" where
  "page_key e = (case ce_method e of None \<Rightarrow> ''-'' | Some m \<Rightarrow> m) @ '' '' @ (case ce_path e of None \<Rightarrow> ''-'' | Some p \<Rightarrow> p)"

definition page_group :: "captured_event \<Rightarrow> captured_event list dict \<Rightarrow> captured_event list dict" where
  "page_group e groups =
     (if \<not> filled (ce_method e) \<and> \<not> filled (ce_path e) then groups
      else (case dict_get groups (page_key e) of
              Some arr \<Rightarrow> dict_set (page_key e) (arr @ [e]) groups
            | None \<Rightarrow> dict_set (page_key e) [e] groups))"

definition page_row :: "string \<times> captured_event list \<Rightarrow> endpoint_rollup" where
  "page_row = (\<lambda>(key, arr).
     (let ds = sort (filter (\<lambda>n. n > 0) (map (\<lambda>e. case ce_durationNs e of None \<Rightarrow> 0 | Some n \<Rightarrow> n) arr));
          parts = split_on (CHR '' '') key;
          errors = length (filter (\<lambda>e. (case ce_status e of None \<Rightarrow> 0 | Some n \<Rightarrow> n) \<ge> 400) arr)
      in \<lparr>er_key = key, er_method = parts ! 0, er_route = parts ! 1, er_count = length arr,
          er_p50 = pct ds (1 / 2), er_p95 = pct ds (95 / 100), er_max = (if ds = [] then 0 else last ds),
          er_errorRate = (if arr = [] then 0 else of_nat errors / of_nat (length arr))\<rparr>))"

definition page_rollup :: "captured_event list \<Rightarrow> endpoint_rollup list" where
  "page_rollup events =
     sort_key (\<lambda>r. (- int (er_count r), - er_p95 r)) (map page_row (fold page_group events []))"

definition to_sample :: "captured_event \<Rightarrow> http_sample" where
  "to_sample e = \<lparr>hs_method = ce_method e, hs_route = None, hs_path = ce_path e,
     hs_durationNs = (case ce_durationNs e of None \<Rightarrow> 0 | Some n \<Rightarrow> n), hs_status = ce_status e\<rparr>"

text \<open>Events of real requests: method and path are there, and neither has a blank.\<close>

definition plain_event :: "captured_event \<Rightarrow> bool" where
  "plain_event e \<longleftrightarrow> (\<exists>m p. ce_method e = Some m \<and> ce_path e = Some p \<and> m \<notin> {[], ''-''} \<and> p \<noteq> [] \<and>
     CHR '' '' \<notin> set m \<and> CHR '' '' \<notin> set p)"

lemma plain_key: "plain_event e \<Longrightarrow> sample_key (to_sample e) = page_key e \<and> is_http (to_sample e)"
  by (auto simp: plain_event_def sample_key_def page_key_def to_sample_def sample_method_def sample_route_def
      filled_def is_http_def)

lemma update_map: "dict_set k (f v) (map (\<lambda>(k, v). (k, f v)) d) = map (\<lambda>(k, v). (k, f v)) (dict_set k v d)"
  by (induction d) auto

lemma page_groups:
  assumes "\<forall>e \<in> set es. plain_event e"
  shows "map (\<lambda>(k, arr). (k, map to_sample arr)) (fold page_group es d) =
    fold group_step (map to_sample es) (map (\<lambda>(k, arr). (k, map to_sample arr)) d)"
  using assms
proof (induction es arbitrary: d)
  case (Cons e es)
  have k: "sample_key (to_sample e) = page_key e" and f: "filled (ce_method e)"
    using Cons.prems plain_key [of e] by (auto simp: plain_event_def filled_def)
  have "map (\<lambda>(k, arr). (k, map to_sample arr)) (page_group e d) =
      group_step (to_sample e) (map (\<lambda>(k, arr). (k, map to_sample arr)) d)"
    using f by (auto simp: page_group_def group_step_def k map_of_map comp_def update_map [where f = "map to_sample", symmetric]
        split: option.splits)
  with Cons show ?case by simp
qed simp

definition two_part :: "string \<Rightarrow> bool" where
  "two_part k \<longleftrightarrow> (\<exists>m p. k = m @ CHR '' '' # p \<and> CHR '' '' \<notin> set m \<and> CHR '' '' \<notin> set p)"

lemma page_group_keys:
  assumes "\<forall>e \<in> set es. plain_event e" "\<forall>k \<in> set (dict_keys d). two_part k"
  shows "\<forall>k \<in> set (dict_keys (fold page_group es d)). two_part k"
  using assms
proof (induction es arbitrary: d)
  case (Cons e es)
  have "two_part (page_key e)"
    unfolding two_part_def using Cons.prems(1) by (intro exI [of _ "the (ce_method e)"] exI [of _ "the (ce_path e)"])
      (auto simp: plain_event_def page_key_def)
  moreover have "set (dict_keys (page_group e d)) \<subseteq> insert (page_key e) (set (dict_keys d))"
    unfolding page_group_def set_map by (simp add: dom_update split: option.splits) blast
  ultimately have "\<forall>k \<in> set (dict_keys (page_group e d)). two_part k" using Cons.prems(2) by blast
  from Cons.IH [OF _ this] Cons.prems(1) show ?case by simp
qed simp

text \<open>
  On requests whose method and path have no blank the page shows exactly the rows of the shared
  statistics; a path with a blank is cut there.
\<close>

theorem page_rollup_agrees:
  assumes "\<forall>e \<in> set events. plain_event e"
  shows "page_rollup events = rollupByEndpoint (map to_sample events)"
proof -
  let ?g = "fold page_group events []"
  have row: "page_row (k, arr) = rollup_row (k, map to_sample arr)" if "(k, arr) \<in> set ?g" for k arr
  proof -
    have "two_part k" using page_group_keys [OF assms, of "[]"] that by fastforce
    then obtain m p where "k = m @ CHR '' '' # p" "CHR '' '' \<notin> set m" "CHR '' '' \<notin> set p" by (auto simp: two_part_def)
    then have "split_on (CHR '' '') k = [m, p]" by (simp add: split_on_append split_on_single)
    then show ?thesis
      by (simp add: page_row_def rollup_row_def durations_def Let_def to_sample_def comp_def filter_map)
  qed
  have "filter is_http (map to_sample events) = map to_sample events"
    using assms plain_key by (auto simp: filter_id_conv)
  moreover have "map page_row ?g = map rollup_row (map (\<lambda>(k, arr). (k, map to_sample arr)) ?g)"
    using row by (auto simp: case_prod_beta)
  ultimately show ?thesis
    unfolding page_rollup_def rollupByEndpoint_def group_samples_def
    using page_groups [OF assms, of "[]"] by simp
qed


theorem page_cuts_path:
  assumes "ce_method e = Some m" "ce_path e = Some (p @ CHR '' '' # q)" "m \<noteq> []" "CHR '' '' \<notin> set m" "CHR '' '' \<notin> set p"
  shows "map er_route (page_rollup [e]) = [p]"
proof -
  have "split_on (CHR '' '') (page_key e) = m # p # split_on (CHR '' '') q"
    using assms by (simp add: page_key_def split_on_append)
  then show ?thesis using assms by (simp add: page_rollup_def page_group_def filled_def page_row_def Let_def)
qed

section \<open>Sizes and charts\<close>

text \<open>A sparkline: the points of a series in a box of 100 by 40, scaled to the peak of both series.\<close>

definition chart_peak :: "rat list \<Rightarrow> rat list option \<Rightarrow> rat" where
  "chart_peak primary secondary = Max (set (primary @ (case secondary of None \<Rightarrow> [0] | Some s \<Rightarrow> s) @ [1]))"

definition chart_points :: "rat \<Rightarrow> rat list \<Rightarrow> (rat \<times> rat) list" where
  "chart_points peak vals =
     map (\<lambda>(i, v). (of_nat i / of_nat (max (length vals - 1) 1) * 100, 40 - v / peak * 40)) (enumerate 0 vals)"

definition chart_latest :: "rat list \<Rightarrow> rat" where
  "chart_latest primary = (if primary = [] then 0 else last primary)"

definition chart_warns :: "rat option \<Rightarrow> rat \<Rightarrow> bool" where
  "chart_warns threshold peak \<longleftrightarrow> (case threshold of None \<Rightarrow> False | Some t \<Rightarrow> peak \<ge> t)"

text \<open>Every point of both lines is inside the box, and the points go from left to right.\<close>

theorem chart_in_box:
  assumes "\<forall>v \<in> set primary. 0 \<le> v" "\<forall>v \<in> set vals. 0 \<le> v" "vals = primary \<or> secondary = Some vals"
  shows "\<forall>(x, y) \<in> set (chart_points (chart_peak primary secondary) vals). 0 \<le> x \<and> x \<le> 100 \<and> 0 \<le> y \<and> y \<le> 40"
proof
  fix pt
  assume "pt \<in> set (chart_points (chart_peak primary secondary) vals)"
  then obtain i where i: "i < length vals" and pt: "pt = (of_nat i / of_nat (max (length vals - 1) 1) * 100,
      40 - vals ! i / chart_peak primary secondary * 40)"
    by (auto simp: chart_points_def in_set_enumerate_eq)
  let ?peak = "chart_peak primary secondary"
  have mem: "vals ! i \<in> set (primary @ (case secondary of None \<Rightarrow> [0] | Some s \<Rightarrow> s) @ [1])"
    using assms(3) i by auto
  have "vals ! i \<le> ?peak" "1 \<le> ?peak" unfolding chart_peak_def by (rule Max_ge; use mem in simp)+
  moreover have "0 \<le> vals ! i" using assms(2) i by simp
  ultimately have y: "0 \<le> vals ! i / ?peak" "vals ! i / ?peak \<le> 1" by (simp_all add: divide_le_eq_1)
  have x: "of_nat i / of_nat (max (length vals - 1) 1) \<le> (1 :: rat)"
    using i by (subst divide_le_eq_1) (auto simp: of_nat_le_iff)
  have box: "0 \<le> a \<Longrightarrow> a \<le> 1 \<Longrightarrow> 0 \<le> b \<Longrightarrow> b \<le> 1 \<Longrightarrow> 0 \<le> a * 100 \<and> a * 100 \<le> 100 \<and> 0 \<le> 40 - b * 40 \<and> 40 - b * 40 \<le> 40"
    for a b :: rat by simp
  show "case pt of (x, y) \<Rightarrow> 0 \<le> x \<and> x \<le> 100 \<and> 0 \<le> y \<and> y \<le> 40" unfolding pt prod.case by (rule box [OF _ x y]) simp
qed

end
