(* ===== verification/Account.thy ===== *)
theory Account
  imports Pages
begin

text \<open>
  The pages for signing in and for the account as state machines (\<open>ui/src/app/login/page.tsx\<close>,
  \<open>setup/page.tsx\<close>, \<open>(authed)/settings/page.tsx\<close>): what the effects on mount do, which calls a form
  makes and what it does with the answer. The submit handlers are those of theory \<open>Pages\<close>; a
  disabled button does not submit its form. Error texts are values.
\<close>

section \<open>Signing in and first setup\<close>

text \<open>The effect on mount awaits the state of the engine; it may be unmounted before.\<close>

record entry_page =
  en_awaiting :: bool
  en_cancelled :: bool
  en_gateChecked :: bool
  en_busy :: bool
  en_error :: "string option"
  en_calls :: "api_op list"
  en_replaced :: "string list"

definition entry_new :: entry_page where
  "entry_new = \<lparr>en_awaiting = True, en_cancelled = False, en_gateChecked = False, en_busy = False, en_error = None,
     en_calls = [AuthState], en_replaced = []\<rparr>"

datatype entry_event =
    AuthStateAnswers bool
  | AuthStateFails
  | Unmounts
  | Submits string string string
  | Answers "api_failure + api_value"

definition entry_after :: "after_call \<Rightarrow> entry_page \<Rightarrow> entry_page" where
  "entry_after a p =
     (case a of GoTo path \<Rightarrow> p\<lparr>en_replaced := en_replaced p @ [path]\<rparr> | Show msg \<Rightarrow> p\<lparr>en_error := Some msg, en_busy := False\<rparr>)"

text \<open>The sign-in page: first-time visitors are sent to the setup. Its form has no confirmation.\<close>

fun login_step :: "(json \<Rightarrow> string) \<Rightarrow> string \<Rightarrow> string option \<Rightarrow> entry_event \<Rightarrow> entry_page \<Rightarrow> entry_page" where
  "login_step msg bad env (AuthStateAnswers setup_required) p =
     (if \<not> en_awaiting p then p
      else p\<lparr>en_awaiting := False,
             en_replaced := en_replaced p @ (if \<not> en_cancelled p \<and> setup_required then [''/setup''] else [])\<rparr>)"
| "login_step msg bad env AuthStateFails p = p\<lparr>en_awaiting := False\<rparr>"
| "login_step msg bad env Unmounts p = p\<lparr>en_cancelled := True\<rparr>"
| "login_step msg bad env (Submits email password confirm) p =
     (if en_busy p then p
      else p\<lparr>en_error := None, en_busy := True, en_calls := en_calls p @ [login_submit email password]\<rparr>)"
| "login_step msg bad env (Answers r) p = (if \<not> en_busy p then p else entry_after (login_answered msg bad env r) p)"

text \<open>The setup page: once setup is done visitors are sent to the sign-in; the form is shown after the check.\<close>

fun setup_step :: "(json \<Rightarrow> string) \<Rightarrow> string \<Rightarrow> entry_event \<Rightarrow> entry_page \<Rightarrow> entry_page" where
  "setup_step msg bad (AuthStateAnswers setup_required) p =
     (if \<not> en_awaiting p then p
      else p\<lparr>en_awaiting := False, en_gateChecked := (en_gateChecked p \<or> \<not> en_cancelled p),
             en_replaced := en_replaced p @ (if \<not> en_cancelled p \<and> \<not> setup_required then [''/login''] else [])\<rparr>)"
| "setup_step msg bad AuthStateFails p =
     (if \<not> en_awaiting p then p
      else p\<lparr>en_awaiting := False, en_gateChecked := (en_gateChecked p \<or> \<not> en_cancelled p)\<rparr>)"
| "setup_step msg bad Unmounts p = p\<lparr>en_cancelled := True\<rparr>"
| "setup_step msg bad (Submits email password confirm) p =
     (if \<not> en_gateChecked p \<or> en_busy p then p
      else (case setup_submit email password confirm of
              Inl m \<Rightarrow> p\<lparr>en_error := Some m\<rparr>
            | Inr op \<Rightarrow> p\<lparr>en_error := None, en_busy := True, en_calls := en_calls p @ [op]\<rparr>))"
| "setup_step msg bad (Answers r) p = (if \<not> en_busy p then p else entry_after (setup_answered msg bad r) p)"

text \<open>
  Setup is safe to expose: no account is created before the engine was asked whether it has one,
  every call has a password that is long enough and was repeated, and no second call is made while
  one is pending.
\<close>

definition setup_inv :: "entry_event list \<Rightarrow> entry_page \<Rightarrow> bool" where
  "setup_inv evs p \<longleftrightarrow>
     (en_gateChecked p \<longrightarrow> \<not> en_awaiting p \<and> (AuthStateFails \<in> set evs \<or> (\<exists>r. AuthStateAnswers r \<in> set evs))) \<and>
     (\<forall>op \<in> set (en_calls p). op = AuthState \<or>
        (AuthStateFails \<in> set evs \<or> (\<exists>r. AuthStateAnswers r \<in> set evs)) \<and>
        (\<exists>email pw. op = Setup (trim email) pw \<and> 10 \<le> length pw \<and> Submits email pw pw \<in> set evs)) \<and>
     length (en_calls p) \<le> Suc (length (filter (\<lambda>e. case e of Submits a b c \<Rightarrow> True | _ \<Rightarrow> False) evs))"

lemma setup_inv_mono: "setup_inv evs p \<Longrightarrow> setup_inv (evs @ [e]) p"
  unfolding setup_inv_def by fastforce

lemma setup_inv_step:
  assumes "setup_inv evs p"
  shows "setup_inv (evs @ [e]) (setup_step msg bad e p)"
proof (cases "\<exists>a b c. e = Submits a b c")
  case True
  then obtain email pw confirm where e: "e = Submits email pw confirm" by blast
  show ?thesis
  proof (cases "setup_submit email pw confirm")
    case (Inl m)
    with setup_inv_mono [OF assms, of e] e show ?thesis by (auto simp: setup_inv_def)
  next
    case (Inr op)
    then have op: "op = Setup (trim email) pw" "10 \<le> length pw" "pw = confirm"
      by (auto simp: setup_submit_def split: if_splits)
    with setup_inv_mono [OF assms, of e] assms e Inr show ?thesis by (auto simp: setup_inv_def)
  qed
next
  case False
  with setup_inv_mono [OF assms, of e] show ?thesis
    by (cases e) (auto simp: setup_inv_def entry_after_def setup_answered_def split: sum.splits after_call.splits)
qed

interpretation sup: history_invariant entry_new "setup_step msg bad" setup_inv for msg bad
  by unfold_locales (simp add: setup_inv_def entry_new_def, rule setup_inv_step)

theorem setup_page_safe: "setup_inv evs (fold (setup_step msg bad) evs entry_new)"
  by (rule sup.inv_run)

section \<open>Settings\<close>

record api_key =
  ak_id :: string
  ak_name :: string
  ak_created_at :: string
  ak_revoked_at :: "string option"
  ak_last_used_at :: "string option"

abbreviation ak_revoked :: "api_key \<Rightarrow> bool" where
  "ak_revoked k \<equiv> filled (ak_revoked_at k)"

text \<open>The texts of the list of keys and of the engine's configuration.\<close>

definition key_cells :: "(string \<Rightarrow> rat option) \<Rightarrow> rat \<Rightarrow> api_key \<Rightarrow> string list" where
  "key_cells parse now k =
     [ak_name k, ak_id k, relativeTime parse now (Some (ak_created_at k)), relativeTime parse now (ak_last_used_at k),
      relativeTime parse now (ak_revoked_at k)]"

definition features_text :: "bool dict option \<Rightarrow> string" where
  "features_text features =
     (case features of None \<Rightarrow> DASH | Some fs \<Rightarrow> join_with '', '' (map fst (filter snd fs)))"

record settings_page =
  st_current :: string
  st_new :: string
  st_confirm :: string
  st_pwdError :: "string option"
  st_pwdSuccess :: bool
  st_pwdPending :: bool
  st_timers :: nat
  st_name :: string
  st_justCreated :: "(string \<times> string \<times> string) option"
  st_creating :: bool
  st_keys :: "api_key list"
  st_revoking :: nat
  st_leaving :: bool
  st_calls :: "api_op list"
  st_refetches :: nat
  st_replaced :: "string list"

definition SettingsPage :: settings_page where
  "SettingsPage = \<lparr>st_current = [], st_new = [], st_confirm = [], st_pwdError = None, st_pwdSuccess = False, st_pwdPending = False,
     st_timers = 0, st_name = [], st_justCreated = None, st_creating = False, st_keys = [], st_revoking = 0,
     st_leaving = False, st_calls = [], st_refetches = 0, st_replaced = []\<rparr>"

datatype settings_event =
    TypeCurrent string
  | TypeNew string
  | TypeConfirm string
  | SubmitPassword
  | PasswordAnswers "string + unit"
  | SuccessTimer
  | TypeKeyName string
  | SubmitKey
  | KeyAnswers "(string \<times> string \<times> string) option"
  | KeysFetched "api_key list"
  | ClickRevoke string bool
  | RevokeAnswers bool
  | ClickLogout
  | LogoutAnswers "api_failure + api_value"

text \<open>\<open>confirmed\<close> is the answer to the browser's question; only keys that are not revoked have the button.\<close>

fun settings_step :: "settings_event \<Rightarrow> settings_page \<Rightarrow> settings_page" where
  "settings_step (TypeCurrent s) p = p\<lparr>st_current := s\<rparr>"
| "settings_step (TypeNew s) p = p\<lparr>st_new := s\<rparr>"
| "settings_step (TypeConfirm s) p = p\<lparr>st_confirm := s\<rparr>"
| "settings_step SubmitPassword p =
     (if st_pwdPending p \<or> st_current p = [] \<or> st_new p = [] \<or> st_confirm p = [] then p
      else (case onPwdSubmit (st_current p) (st_new p) (st_confirm p) of
              Inl m \<Rightarrow> p\<lparr>st_pwdError := Some m\<rparr>
            | Inr op \<Rightarrow> p\<lparr>st_pwdError := None, st_pwdPending := True, st_calls := st_calls p @ [op]\<rparr>))"
| "settings_step (PasswordAnswers r) p =
     (if \<not> st_pwdPending p then p
      else (case r of
              Inr _ \<Rightarrow> p\<lparr>st_pwdPending := False, st_current := [], st_new := [], st_confirm := [], st_pwdError := None,
                       st_pwdSuccess := True, st_timers := st_timers p + 1\<rparr>
            | Inl m \<Rightarrow> p\<lparr>st_pwdPending := False, st_pwdError := Some m\<rparr>))"
| "settings_step SuccessTimer p = (if st_timers p = 0 then p else p\<lparr>st_timers := st_timers p - 1, st_pwdSuccess := False\<rparr>)"
| "settings_step (TypeKeyName s) p = p\<lparr>st_name := s\<rparr>"
| "settings_step SubmitKey p =
     (if st_creating p then p
      else (case create_key_submit (st_name p) of
              None \<Rightarrow> p
            | Some op \<Rightarrow> p\<lparr>st_creating := True, st_calls := st_calls p @ [op]\<rparr>))"
| "settings_step (KeyAnswers r) p =
     (if \<not> st_creating p then p
      else (case r of
              Some created \<Rightarrow> p\<lparr>st_creating := False, st_justCreated := Some created, st_name := [], st_refetches := st_refetches p + 1\<rparr>
            | None \<Rightarrow> p\<lparr>st_creating := False\<rparr>))"
| "settings_step (KeysFetched ks) p = p\<lparr>st_keys := ks\<rparr>"
| "settings_step (ClickRevoke i confirmed) p =
     (if confirmed \<and> (\<exists>k \<in> set (st_keys p). ak_id k = i \<and> \<not> ak_revoked k)
      then p\<lparr>st_calls := st_calls p @ [RevokeAPIKey i], st_revoking := st_revoking p + 1\<rparr> else p)"
| "settings_step (RevokeAnswers ok) p =
     (if st_revoking p = 0 then p
      else p\<lparr>st_revoking := st_revoking p - 1, st_refetches := st_refetches p + (if ok then 1 else 0)\<rparr>)"
| "settings_step ClickLogout p = (if st_leaving p then p else p\<lparr>st_leaving := True, st_calls := st_calls p @ [Logout]\<rparr>)"
| "settings_step (LogoutAnswers r) p =
     (if \<not> st_leaving p then p
      else (case logout_answered r of
              GoTo path \<Rightarrow> p\<lparr>st_leaving := False, st_replaced := st_replaced p @ [path]\<rparr> | Show m \<Rightarrow> p\<lparr>st_leaving := False\<rparr>))"

fun settings_call_ok :: "settings_event list \<Rightarrow> api_op \<Rightarrow> bool" where
  "settings_call_ok evs (ChangePassword cur pw) \<longleftrightarrow> 10 \<le> length pw \<and> cur \<noteq> [] \<and> TypeNew pw \<in> set evs \<and> TypeConfirm pw \<in> set evs"
| "settings_call_ok evs (CreateAPIKey n) \<longleftrightarrow> n \<noteq> []"
| "settings_call_ok evs (RevokeAPIKey i) \<longleftrightarrow> ClickRevoke i True \<in> set evs \<and>
     (\<exists>ks k. KeysFetched ks \<in> set evs \<and> k \<in> set ks \<and> ak_id k = i \<and> \<not> ak_revoked k)"
| "settings_call_ok evs Logout \<longleftrightarrow> ClickLogout \<in> set evs"
| "settings_call_ok evs _ \<longleftrightarrow> False"

definition settings_inv :: "settings_event list \<Rightarrow> settings_page \<Rightarrow> bool" where
  "settings_inv evs p \<longleftrightarrow>
     (st_new p = [] \<or> TypeNew (st_new p) \<in> set evs) \<and> (st_confirm p = [] \<or> TypeConfirm (st_confirm p) \<in> set evs) \<and>
     (st_keys p = [] \<or> KeysFetched (st_keys p) \<in> set evs) \<and>
     list_all (settings_call_ok evs) (st_calls p) \<and> set (st_replaced p) \<subseteq> {''/login''} \<and>
     (st_pwdSuccess p \<longrightarrow> PasswordAnswers (Inr ()) \<in> set evs)"

lemma settings_call_mono: "settings_call_ok evs op \<Longrightarrow> settings_call_ok (evs @ es) op"
  by (induction evs op rule: settings_call_ok.induct) auto

lemma settings_inv_mono: "settings_inv evs p \<Longrightarrow> settings_inv (evs @ [e]) p"
  by (auto simp: settings_inv_def list_all_iff settings_call_mono)

lemma settings_inv_step:
  assumes "settings_inv evs p"
  shows "settings_inv (evs @ [e]) (settings_step e p)"
proof -
  have inv: "settings_inv (evs @ [e]) p" using assms by (rule settings_inv_mono)
  show ?thesis
  proof (cases e)
    case SubmitPassword
    with inv show ?thesis by (auto simp: settings_inv_def onPwdSubmit_def split: sum.splits if_splits)
  next
    case (ClickRevoke i c)
    with inv show ?thesis by (auto simp: settings_inv_def)
  qed (use inv in \<open>auto simp: settings_inv_def create_key_submit_def logout_answered_def split: sum.splits option.splits if_splits\<close>)
qed

interpretation sti: history_invariant SettingsPage settings_step settings_inv
  by unfold_locales (simp add: settings_inv_def SettingsPage_def, rule settings_inv_step)

text \<open>
  The settings page does what was asked and no more: a password is changed to one that was typed twice
  and is long enough, a key is revoked only after it was listed as valid and the operator confirmed,
  success is announced only after the engine said so, and signing out leads to the sign-in page. After a change the
  passwords are gone from the page.
\<close>

theorem settings_page_safe:
  "settings_inv evs (fold settings_step evs SettingsPage) \<and>
   (st_pwdPending p \<longrightarrow> (let q = settings_step (PasswordAnswers (Inr ())) p
      in st_current q = [] \<and> st_new q = [] \<and> st_confirm q = [] \<and> st_pwdError q = None \<and> st_pwdSuccess q))"
  using sti.inv_run [of evs] by (simp add: Let_def)

text \<open>The announcement of a change is not taken back by a later attempt: it can stand beside that attempt's error.\<close>

lemma success_beside_error:
  "let p = fold settings_step [TypeCurrent ''old'', TypeNew ''0123456789'', TypeConfirm ''0123456789'', SubmitPassword,
       PasswordAnswers (Inr ()), TypeCurrent ''x'', TypeNew ''y'', TypeConfirm ''y'', SubmitPassword] SettingsPage
   in st_pwdSuccess p \<and> st_pwdError p \<noteq> None"
  by code_simp

end
