(* ===== verification/Monitors.thy ===== *)
theory Monitors
  imports Api Stats Format Sql
begin

text \<open>
  The pages of the remote-controlled clients: the list (\<open>ui/src/app/(authed)/monitors/page.tsx\<close>) and
  one client (\<open>monitors/[name]/page.tsx\<close>), with the dialog that starts a capture. A page is a state
  that clicks and answers change; its calls to the engine, its navigations and its refetches are
  recorded. The query library is the environment: it delivers a result or an error, keeps the last
  result when a later fetch fails, and runs the callbacks of a mutation also when the component
  that started it is gone. Texts are UTF-8 bytes.
\<close>

section \<open>Data\<close>

record monitor =
  mo_name :: string
  mo_display_name :: string
  mo_labels :: "string dict"
  mo_capture_enabled :: bool
  mo_active_session_id :: "string option"
  mo_sdk_language :: "string option"
  mo_sdk_version :: "string option"
  mo_last_seen_at :: string
  mo_created_at :: string
  mo_online_replicas :: nat
  mo_online :: bool

record 'a query =
  qu_data :: "'a option"
  qu_failed :: bool

definition query_new :: "'a query" where
  "query_new = \<lparr>qu_data = None, qu_failed = False\<rparr>"

definition query_result :: "'a \<Rightarrow> 'a query \<Rightarrow> 'a query" where
  "query_result x q = \<lparr>qu_data = Some x, qu_failed = False\<rparr>"

definition query_fails :: "'a query \<Rightarrow> 'a query" where
  "query_fails q = q\<lparr>qu_failed := True\<rparr>"

section \<open>What is shown\<close>

definition MIDDOT :: string where
  "MIDDOT = [CHR 0xC2, CHR 0xB7]"

definition monitors_description :: "nat \<times> monitor list \<Rightarrow> string" where
  "monitors_description = (\<lambda>(n, ms).
     nat_to_string n @ '' client'' @ (if n = 1 then '''' else ''s'') @ '' '' @ MIDDOT @ '' '' @
     nat_to_string (length (filter mo_online ms)) @ '' online'')"

definition monitor_title :: "monitor \<Rightarrow> string" where
  "monitor_title m = (if mo_display_name m \<noteq> [] then mo_display_name m else mo_name m)"

definition sdk_text :: "monitor \<Rightarrow> string" where
  "sdk_text m =
     (if \<not> filled (mo_sdk_language m) then DASH
      else the (mo_sdk_language m) @ (if filled (mo_sdk_version m) then '' @ '' @ the (mo_sdk_version m) else ''''))"

definition StatusIndicator :: "monitor \<Rightarrow> string" where
  "StatusIndicator m =
     (if mo_capture_enabled m
      then ''Capturing'' @ (if mo_online_replicas m > 1
        then '' '' @ MIDDOT @ '' '' @ nat_to_string (mo_online_replicas m) @ '' replicas'' else '''')
      else if mo_online m
      then ''Online'' @ (if mo_online_replicas m > 1 then '' '' @ MIDDOT @ '' '' @ nat_to_string (mo_online_replicas m) else '''')
      else ''Offline'')"

text \<open>At most three labels, and how many more there are.\<close>

definition Labels :: "string dict \<Rightarrow> string list" where
  "Labels labels =
     (if labels = [] then [DASH]
      else map (\<lambda>(k, v). k @ ''='' @ v) (take 3 labels) @
        (if length labels > 3 then [''+'' @ nat_to_string (length labels - 3)] else []))"

definition detail_status :: "monitor \<Rightarrow> string" where
  "detail_status m =
     (if mo_capture_enabled m then ''Capturing'' else if mo_online m then ''Online '' @ MIDDOT @ '' idle'' else ''Offline'')"

definition pad2 :: "nat \<Rightarrow> string" where
  "pad2 n = padStart 2 (CHR ''0'') (nat_to_string n)"

text \<open>The placeholder of the name field; months count from zero.\<close>

definition nowSlug :: "nat \<Rightarrow> nat \<Rightarrow> nat \<Rightarrow> nat \<Rightarrow> nat \<Rightarrow> nat \<Rightarrow> string" where
  "nowSlug year month day hours minutes seconds =
     nat_to_string year @ pad2 (month + 1) @ pad2 day @ ''-'' @ pad2 hours @ pad2 minutes @ pad2 seconds"

datatype 'a list_view = ShowLoading | ShowError | ShowEmpty | ShowRows "'a list"

definition monitors_view :: "(nat \<times> 'a list) query \<Rightarrow> 'a list_view" where
  "monitors_view q =
     (if qu_data q = None \<and> \<not> qu_failed q then ShowLoading
      else if qu_failed q then ShowError
      else (case qu_data q of
              None \<Rightarrow> ShowEmpty
            | Some (n, ms) \<Rightarrow> if n = 0 then ShowEmpty else ShowRows ms))"

text \<open>The button of a row, with its \<open>disabled\<close>; \<open>stopping\<close> is the variable of a pending stop.\<close>

datatype action_button = StopButton bool | StartButton bool

definition row_action :: "string option \<Rightarrow> monitor \<Rightarrow> action_button" where
  "row_action stopping m =
     (if mo_capture_enabled m then StopButton (stopping = Some (mo_name m)) else StartButton (\<not> mo_online m))"

definition detail_action :: "bool \<Rightarrow> monitor \<Rightarrow> action_button" where
  "detail_action stopping m = (if mo_capture_enabled m then StopButton stopping else StartButton (\<not> mo_online m))"

section \<open>The dialog\<close>

text \<open>
  A call has a number, so that its answer finds the dialog that made it, if that is still open, and
  the button of the last stop.
\<close>

record start_dialog =
  sd_monitor :: monitor
  sd_sessionName :: string
  sd_error :: "string option"
  sd_pending :: "nat option"

definition StartDialog :: "monitor \<Rightarrow> start_dialog" where
  "StartDialog m = \<lparr>sd_monitor = m, sd_sessionName = [], sd_error = None, sd_pending = None\<rparr>"

definition start_call :: "start_dialog \<Rightarrow> api_op" where
  "start_call d = StartMonitor (mo_name (sd_monitor d))
     (JObj (if trim (sd_sessionName d) = [] then [] else [(''session_name'', JStr (trim (sd_sessionName d)))]))"

definition dialog_submit :: "nat \<Rightarrow> start_dialog \<Rightarrow> start_dialog" where
  "dialog_submit i d = d\<lparr>sd_error := None, sd_pending := Some i\<rparr>"

definition dialog_fails :: "nat \<Rightarrow> string \<Rightarrow> start_dialog \<Rightarrow> start_dialog" where
  "dialog_fails i msg d = (if sd_pending d = Some i then d\<lparr>sd_error := Some msg, sd_pending := None\<rparr> else d)"

section \<open>The list page\<close>

record monitors_page =
  mp_query :: "(nat \<times> monitor list) query"
  mp_startFor :: "start_dialog option"
  mp_stopping :: "(nat \<times> string) option"
  mp_stops :: "nat list"
  mp_starting :: "nat list"
  mp_nextCall :: nat
  mp_calls :: "api_op list"
  mp_refetches :: nat
  mp_pushed :: "string list"

definition MonitorsPage :: monitors_page where
  "MonitorsPage = \<lparr>mp_query = query_new, mp_startFor = None, mp_stopping = None, mp_stops = [], mp_starting = [], mp_nextCall = 0,
     mp_calls = [], mp_refetches = 0, mp_pushed = []\<rparr>"

definition shown_row :: "monitors_page \<Rightarrow> string \<Rightarrow> monitor option" where
  "shown_row p name = (case monitors_view (mp_query p) of ShowRows ms \<Rightarrow> find (\<lambda>m. mo_name m = name) ms | _ \<Rightarrow> None)"

datatype monitors_event =
    Fetched nat "monitor list"
  | FetchFails
  | ClickStop string
  | StopSettles nat bool
  | ClickStart string
  | TypeName string
  | SubmitStart
  | ClickCancel
  | ClickBackdrop
  | StartSucceeds nat string
  | StartFails nat string

fun monitors_step :: "monitors_event \<Rightarrow> monitors_page \<Rightarrow> monitors_page" where
  "monitors_step (Fetched n ms) p = p\<lparr>mp_query := query_result (n, ms) (mp_query p)\<rparr>"
| "monitors_step FetchFails p = p\<lparr>mp_query := query_fails (mp_query p)\<rparr>"
| "monitors_step (ClickStop name) p =
     (case map_option (row_action (map_option snd (mp_stopping p))) (shown_row p name) of
        Some (StopButton False) \<Rightarrow>
          p\<lparr>mp_calls := mp_calls p @ [StopMonitor name], mp_stopping := Some (mp_nextCall p, name),
            mp_stops := mp_stops p @ [mp_nextCall p], mp_nextCall := mp_nextCall p + 1\<rparr>
      | _ \<Rightarrow> p)"
| "monitors_step (StopSettles i ok) p =
     (if i \<notin> set (mp_stops p) then p
      else p\<lparr>mp_stops := remove1 i (mp_stops p), mp_refetches := mp_refetches p + (if ok then 1 else 0),
             mp_stopping := (if map_option fst (mp_stopping p) = Some i then None else mp_stopping p)\<rparr>)"
| "monitors_step (ClickStart name) p =
     (case (mp_startFor p, shown_row p name) of
        (None, Some m) \<Rightarrow>
          if row_action (map_option snd (mp_stopping p)) m = StartButton False then p\<lparr>mp_startFor := Some (StartDialog m)\<rparr> else p
      | _ \<Rightarrow> p)"
| "monitors_step (TypeName s) p = p\<lparr>mp_startFor := map_option (\<lambda>d. d\<lparr>sd_sessionName := s\<rparr>) (mp_startFor p)\<rparr>"
| "monitors_step SubmitStart p =
     (case mp_startFor p of
        Some d \<Rightarrow>
          if sd_pending d \<noteq> None then p
          else p\<lparr>mp_startFor := Some (dialog_submit (mp_nextCall p) d), mp_starting := mp_starting p @ [mp_nextCall p],
                 mp_nextCall := mp_nextCall p + 1, mp_calls := mp_calls p @ [start_call d]\<rparr>
      | None \<Rightarrow> p)"
| "monitors_step ClickCancel p =
     (case mp_startFor p of Some d \<Rightarrow> if sd_pending d \<noteq> None then p else p\<lparr>mp_startFor := None\<rparr> | None \<Rightarrow> p)"
| "monitors_step ClickBackdrop p = p\<lparr>mp_startFor := None\<rparr>"
| "monitors_step (StartSucceeds i sid) p =
     (if i \<notin> set (mp_starting p) then p
      else p\<lparr>mp_starting := remove1 i (mp_starting p), mp_startFor := None, mp_refetches := mp_refetches p + 1,
             mp_pushed := mp_pushed p @ [''/sessions/'' @ sid]\<rparr>)"
| "monitors_step (StartFails i msg) p =
     (if i \<notin> set (mp_starting p) then p
      else p\<lparr>mp_starting := remove1 i (mp_starting p), mp_startFor := map_option (dialog_fails i msg) (mp_startFor p)\<rparr>)"

abbreviation monitors_run :: "monitors_event list \<Rightarrow> monitors_page" where
  "monitors_run evs \<equiv> fold monitors_step evs MonitorsPage"

text \<open>
  What the operator had before them: a monitor is on the screen after some events when the last fetch to return brought a list with
  it, and not an error; it was clicked when a click came at such a moment. A call needs such a click, and a navigation answers one start
  call.
\<close>

fun fetch_returns :: "monitors_event \<Rightarrow> bool" where
  "fetch_returns (Fetched n ms) = True"
| "fetch_returns FetchFails = True"
| "fetch_returns _ = False"

definition last_fetch :: "monitors_event list \<Rightarrow> nat \<Rightarrow> monitor list \<Rightarrow> bool" where
  "last_fetch evs n ms \<longleftrightarrow> (\<exists>before after. evs = before @ Fetched n ms # after \<and> \<not> list_ex fetch_returns after)"

definition on_screen :: "monitors_event list \<Rightarrow> monitor \<Rightarrow> bool" where
  "on_screen evs m \<longleftrightarrow> (\<exists>n ms. last_fetch evs n ms \<and> n \<noteq> 0 \<and> m \<in> set ms)"

definition clicked :: "monitors_event list \<Rightarrow> monitors_event \<Rightarrow> monitor \<Rightarrow> bool" where
  "clicked evs click m \<longleftrightarrow> (\<exists>before after. evs = before @ click # after \<and> on_screen before m)"

definition startable :: "monitors_event list \<Rightarrow> monitor \<Rightarrow> bool" where
  "startable evs m \<longleftrightarrow> clicked evs (ClickStart (mo_name m)) m \<and> mo_online m \<and> \<not> mo_capture_enabled m"

fun call_justified :: "monitors_event list \<Rightarrow> api_op \<Rightarrow> bool" where
  "call_justified evs (StartMonitor name body) \<longleftrightarrow> (\<exists>m. startable evs m \<and> mo_name m = name) \<and>
     (body = JObj [] \<or> (\<exists>s. s \<noteq> [] \<and> trim s = s \<and> body = JObj [(''session_name'', JStr s)]))"
| "call_justified evs (StopMonitor name) \<longleftrightarrow> (\<exists>m. clicked evs (ClickStop name) m \<and> mo_capture_enabled m \<and> mo_name m = name)"
| "call_justified evs _ \<longleftrightarrow> False"

abbreviation is_start :: "api_op \<Rightarrow> bool" where
  "is_start op \<equiv> (case op of StartMonitor name body \<Rightarrow> True | _ \<Rightarrow> False)"

definition monitors_inv :: "monitors_event list \<Rightarrow> monitors_page \<Rightarrow> bool" where
  "monitors_inv evs p \<longleftrightarrow>
     (\<forall>n ms. qu_data (mp_query p) = Some (n, ms) \<and> \<not> qu_failed (mp_query p) \<longrightarrow> last_fetch evs n ms) \<and>
     (\<forall>d. mp_startFor p = Some d \<longrightarrow> startable evs (sd_monitor d)) \<and>
     list_all (call_justified evs) (mp_calls p) \<and>
     length (mp_starting p) + length (mp_pushed p) \<le> length (filter is_start (mp_calls p))"

lemma last_fetch_step: "last_fetch evs n ms \<Longrightarrow> \<not> fetch_returns e \<Longrightarrow> last_fetch (evs @ [e]) n ms"
proof -
  assume "last_fetch evs n ms" "\<not> fetch_returns e"
  then obtain before after where "evs = before @ Fetched n ms # after" "\<not> list_ex fetch_returns (after @ [e])"
    by (auto simp: last_fetch_def)
  then show ?thesis unfolding last_fetch_def by (intro exI [of _ before] exI [of _ "after @ [e]"]) simp
qed

lemma last_fetch_new: "last_fetch (evs @ [Fetched n ms]) n ms"
  unfolding last_fetch_def by (intro exI [of _ evs] exI [of _ "[]"]) simp

lemma clicked_mono: "clicked evs click m \<Longrightarrow> clicked (evs @ es) click m"
  unfolding clicked_def by fastforce

lemma clicked_now: "on_screen evs m \<Longrightarrow> clicked (evs @ [click]) click m"
  unfolding clicked_def by blast

lemma call_justified_mono: "call_justified evs op \<Longrightarrow> call_justified (evs @ es) op"
  by (induction evs op rule: call_justified.induct) (auto simp: startable_def dest: clicked_mono)

text \<open>What stays as it was when an event only changes the rest of the page.\<close>

lemma monitors_inv_keep:
  assumes "monitors_inv evs p" "\<not> fetch_returns e"
  shows "monitors_inv (evs @ [e]) p"
  using assms by (auto simp: monitors_inv_def startable_def list_all_iff dest: clicked_mono call_justified_mono last_fetch_step)

lemma rtrim_append: "\<exists>sp. x = rtrim x @ sp"
  using takeWhile_dropWhile_id [of is_space "rev x"] by (metis rev_append rev_rev_ident rtrim_def)

lemma trim_idem: "trim (trim s) = trim s"
proof -
  let ?t = "trim s"
  obtain sp where sp: "ltrim s = ?t @ sp" unfolding trim_def using rtrim_append [of "ltrim s"] by blast
  have "\<not> is_space (hd ?t)" if "?t \<noteq> []"
  proof -
    have "ltrim s \<noteq> []" "hd (ltrim s) = hd ?t" using sp that by auto
    then show ?thesis using hd_dropWhile [of is_space s] by (simp add: ltrim_def)
  qed
  then have "ltrim ?t = ?t" by (cases ?t) (auto simp: ltrim_def)
  moreover have "rtrim ?t = ?t" by (simp add: trim_def rtrim_def)
  ultimately show ?thesis by (simp add: trim_def)
qed

lemma shown_row_on_screen:
  assumes "monitors_inv evs p" "shown_row p name = Some m"
  shows "on_screen evs m \<and> mo_name m = name"
proof -
  from assms(2) obtain ms where v: "monitors_view (mp_query p) = ShowRows ms" "find (\<lambda>m. mo_name m = name) ms = Some m"
    by (auto simp: shown_row_def split: list_view.splits)
  from v(1) obtain n where "qu_data (mp_query p) = Some (n, ms)" "\<not> qu_failed (mp_query p)" "n \<noteq> 0"
    by (auto simp: monitors_view_def split: option.splits if_splits)
  with assms(1) have "last_fetch evs n ms" by (simp add: monitors_inv_def)
  moreover have "m \<in> set ms" "mo_name m = name" using v(2) by (auto simp: find_Some_iff)
  ultimately show ?thesis using \<open>n \<noteq> 0\<close> by (auto simp: on_screen_def)
qed

lemma start_call_justified: "startable evs (sd_monitor d) \<Longrightarrow> call_justified evs (start_call d)"
  using trim_idem [of "sd_sessionName d"] by (auto simp: start_call_def)

lemma is_start_call [simp]: "is_start (start_call d)"
  by (simp add: start_call_def)

lemma dialog_monitor [simp]:
  "sd_monitor (dialog_submit i d) = sd_monitor d" "sd_monitor (dialog_fails i msg d) = sd_monitor d"
  "sd_monitor (StartDialog m) = m"
  by (simp_all add: dialog_submit_def dialog_fails_def StartDialog_def)

lemma monitors_inv_step:
  assumes "monitors_inv evs p"
  shows "monitors_inv (evs @ [e]) (monitors_step e p)"
proof (cases "fetch_returns e")
  case True
  then show ?thesis using assms
    by (cases e) (auto simp: monitors_inv_def startable_def list_all_iff query_result_def query_fails_def last_fetch_new
        dest: clicked_mono call_justified_mono)
next
  case False
  have inv: "monitors_inv (evs @ [e]) p" using assms False by (rule monitors_inv_keep)
  note row = shown_row_on_screen [OF assms]
  show ?thesis
  proof (cases e)
    case (ClickStop name)
    then show ?thesis using inv row [of name] clicked_now [of evs _ e]
      by (auto simp: monitors_inv_def row_action_def split: option.splits action_button.splits bool.splits if_splits)
  next
    case (ClickStart name)
    then show ?thesis using inv row [of name] clicked_now [of evs _ e]
      by (auto simp: monitors_inv_def row_action_def startable_def split: option.splits if_splits)
  next
    case SubmitStart
    then show ?thesis using inv start_call_justified by (auto simp: monitors_inv_def split: option.splits)
  next
    case (StartSucceeds i sid)
    then show ?thesis using inv length_pos_if_in_set [of i "mp_starting p"]
      by (cases "i \<in> set (mp_starting p)") (simp_all add: monitors_inv_def length_remove1 Suc_le_eq)
  next
    case (StartFails i msg)
    then show ?thesis using inv by (auto simp: monitors_inv_def length_remove1)
  qed (use inv False in \<open>auto simp: monitors_inv_def split: option.splits\<close>)
qed

interpretation mpi: history_invariant MonitorsPage monitors_step monitors_inv
  by unfold_locales (simp add: monitors_inv_def MonitorsPage_def query_new_def, rule monitors_inv_step)

lemmas monitors_inv_run = mpi.inv_run

text \<open>
  C37. Whatever the operator clicks and whatever the engine answers, in any order: the page asks to start a
  capture only after a click on the row of that monitor made while the list on the screen said it was online and idle (the
  button is disabled for a monitor that is offline, although its title and the comment of the page say that a start would wait), with a
  session name that is either left out or trimmed and not blank; it asks to stop one only after a click made while the list
  said it was capturing; it makes no other call; and it leaves for a session at most once per start. The list may
  have changed on the engine, and on the screen, between the click and the submission of the dialog.
\<close>

theorem monitors_page_calls:
  "list_all (call_justified evs) (mp_calls (monitors_run evs)) \<and>
   length (mp_pushed (monitors_run evs)) \<le> length (filter is_start (mp_calls (monitors_run evs)))"
  using monitors_inv_run [of evs] by (simp add: monitors_inv_def)

text \<open>
  A monitor that is offline whenever the list is fetched is never started, although the page says
  that a start would wait for it to reconnect.
\<close>

theorem offline_monitor_never_started:
  assumes "\<And>n ms m. Fetched n ms \<in> set evs \<Longrightarrow> m \<in> set ms \<Longrightarrow> mo_name m = name \<Longrightarrow> \<not> mo_online m"
  shows "StartMonitor name body \<notin> set (mp_calls (monitors_run evs))"
proof
  assume "StartMonitor name body \<in> set (mp_calls (monitors_run evs))"
  with monitors_inv_run [of evs] have "call_justified evs (StartMonitor name body)"
    unfolding monitors_inv_def list_all_iff by blast
  with assms show False by (force simp: startable_def clicked_def on_screen_def last_fetch_def)
qed

theorem monitors_page_calls_witness:
  "\<exists>m. mp_calls (monitors_run [Fetched 1 [m], ClickStart ''api'', TypeName '' load '', SubmitStart, SubmitStart, StartSucceeds 0 ''s1'']) =
       [StartMonitor ''api'' (JObj [(''session_name'', JStr ''load'')])] \<and>
     mp_pushed (monitors_run [Fetched 1 [m], ClickStart ''api'', TypeName '' load '', SubmitStart, SubmitStart, StartSucceeds 0 ''s1'']) =
       [''/sessions/s1''] \<and>
     call_justified [Fetched 1 [m], ClickStart ''api'', TypeName '' load '', SubmitStart, SubmitStart, StartSucceeds 0 ''s1'']
       (StartMonitor ''api'' (JObj [(''session_name'', JStr ''load'')]))"
proof -
  let ?m = "\<lparr>mo_name = ''api'', mo_display_name = [], mo_labels = [], mo_capture_enabled = False, mo_active_session_id = None,
     mo_sdk_language = None, mo_sdk_version = None, mo_last_seen_at = [], mo_created_at = [], mo_online_replicas = 1,
     mo_online = True\<rparr>"
  let ?evs = "[Fetched 1 [?m], ClickStart ''api'', TypeName '' load '', SubmitStart, SubmitStart, StartSucceeds 0 ''s1'']"
  have run: "mp_calls (monitors_run ?evs) = [StartMonitor ''api'' (JObj [(''session_name'', JStr ''load'')])]"
    "mp_pushed (monitors_run ?evs) = [''/sessions/s1'']"
    by code_simp+
  have "call_justified ?evs (StartMonitor ''api'' (JObj [(''session_name'', JStr ''load'')]))"
    using monitors_page_calls [of ?evs, THEN conjunct1] unfolding run list.pred_inject by (rule conjunct1)
  with run show ?thesis by (intro exI [of _ ?m] conjI)
qed

section \<open>The page of one monitor\<close>

text \<open>The link of a row, and the name the page reads from its address.\<close>

definition monitor_href :: "string \<Rightarrow> string" where
  "monitor_href name = ''/monitors/'' @ encodeURIComponent name"

definition page_name :: "string \<Rightarrow> string" where
  "page_name rawName = percent_decode rawName"

lemma page_name_href: "\<exists>raw. monitor_href name = ''/monitors/'' @ raw \<and> CHR ''/'' \<notin> set raw \<and> page_name raw = utf8_text name"
  using component_chars [of name] by (auto simp: monitor_href_def page_name_def decode_component)

record monitor_detail =
  md_name :: string
  md_query :: "monitor query"
  md_dialog :: "start_dialog option"
  md_stopping :: bool
  md_starting :: "nat list"
  md_nextCall :: nat
  md_calls :: "api_op list"
  md_refetches :: nat
  md_pushed :: "string list"

definition MonitorDetailPage :: "string \<Rightarrow> monitor_detail" where
  "MonitorDetailPage rawName = \<lparr>md_name = page_name rawName, md_query = query_new, md_dialog = None, md_stopping = False,
     md_starting = [], md_nextCall = 0, md_calls = [], md_refetches = 0, md_pushed = []\<rparr>"

datatype detail_event =
    DFetched monitor
  | DFetchFails
  | DClickStop
  | DStopSettles bool
  | DClickStart
  | DType string
  | DSubmit
  | DCancel
  | DBackdrop
  | DStartSucceeds nat string
  | DStartFails nat string

text \<open>The dialog is rendered with the monitor as last fetched.\<close>

fun detail_step :: "detail_event \<Rightarrow> monitor_detail \<Rightarrow> monitor_detail" where
  "detail_step (DFetched m) p =
     p\<lparr>md_query := query_result m (md_query p), md_dialog := map_option (\<lambda>d. d\<lparr>sd_monitor := m\<rparr>) (md_dialog p)\<rparr>"
| "detail_step DFetchFails p = p\<lparr>md_query := query_fails (md_query p)\<rparr>"
| "detail_step DClickStop p =
     (case map_option (detail_action (md_stopping p)) (qu_data (md_query p)) of
        Some (StopButton False) \<Rightarrow> p\<lparr>md_calls := md_calls p @ [StopMonitor (md_name p)], md_stopping := True\<rparr>
      | _ \<Rightarrow> p)"
| "detail_step (DStopSettles ok) p =
     (if md_stopping p then p\<lparr>md_stopping := False, md_refetches := md_refetches p + (if ok then 1 else 0)\<rparr> else p)"
| "detail_step DClickStart p =
     (case (md_dialog p, qu_data (md_query p)) of
        (None, Some m) \<Rightarrow>
          if detail_action (md_stopping p) m = StartButton False then p\<lparr>md_dialog := Some (StartDialog m)\<rparr> else p
      | _ \<Rightarrow> p)"
| "detail_step (DType s) p = p\<lparr>md_dialog := map_option (\<lambda>d. d\<lparr>sd_sessionName := s\<rparr>) (md_dialog p)\<rparr>"
| "detail_step DSubmit p =
     (case md_dialog p of
        Some d \<Rightarrow>
          if sd_pending d \<noteq> None then p
          else p\<lparr>md_dialog := Some (dialog_submit (md_nextCall p) d), md_starting := md_starting p @ [md_nextCall p],
                 md_nextCall := md_nextCall p + 1, md_calls := md_calls p @ [start_call d]\<rparr>
      | None \<Rightarrow> p)"
| "detail_step DCancel p =
     (case md_dialog p of Some d \<Rightarrow> if sd_pending d \<noteq> None then p else p\<lparr>md_dialog := None\<rparr> | None \<Rightarrow> p)"
| "detail_step DBackdrop p = p\<lparr>md_dialog := None\<rparr>"
| "detail_step (DStartSucceeds i sid) p =
     (if i \<notin> set (md_starting p) then p
      else p\<lparr>md_starting := remove1 i (md_starting p), md_dialog := None, md_refetches := md_refetches p + 1,
             md_pushed := md_pushed p @ [''/sessions/'' @ sid]\<rparr>)"
| "detail_step (DStartFails i msg) p =
     (if i \<notin> set (md_starting p) then p
      else p\<lparr>md_starting := remove1 i (md_starting p), md_dialog := map_option (dialog_fails i msg) (md_dialog p)\<rparr>)"

definition detail_inv :: "detail_event list \<Rightarrow> string \<Rightarrow> monitor_detail \<Rightarrow> bool" where
  "detail_inv evs name p \<longleftrightarrow> md_name p = name \<and>
     (\<forall>m. qu_data (md_query p) = Some m \<longrightarrow> DFetched m \<in> set evs) \<and>
     (\<forall>d. md_dialog p = Some d \<longrightarrow> DFetched (sd_monitor d) \<in> set evs \<and>
        (\<exists>m. DFetched m \<in> set evs \<and> mo_online m \<and> \<not> mo_capture_enabled m)) \<and>
     (\<forall>op \<in> set (md_calls p). case op of
        StopMonitor n \<Rightarrow> n = name \<and> (\<exists>m. DFetched m \<in> set evs \<and> mo_capture_enabled m)
      | StartMonitor n body \<Rightarrow> (\<exists>m. DFetched m \<in> set evs \<and> mo_name m = n) \<and>
          (\<exists>m. DFetched m \<in> set evs \<and> mo_online m \<and> \<not> mo_capture_enabled m)
      | _ \<Rightarrow> False)"

lemma detail_inv_mono:
  assumes "detail_inv evs name p"
  shows "detail_inv (evs @ es) name p"
  using assms unfolding detail_inv_def by (fastforce split: api_op.splits)

lemma detail_inv_step:
  assumes "detail_inv evs name p"
  shows "detail_inv (evs @ [e]) name (detail_step e p)"
proof -
  have inv: "detail_inv (evs @ [e]) name p" using assms by (rule detail_inv_mono)
  show ?thesis
  proof (cases e)
    case DClickStop
    then show ?thesis using inv
      by (auto simp: detail_inv_def detail_action_def split: option.splits action_button.splits bool.splits if_splits)
  next
    case DClickStart
    then show ?thesis using inv
      by (auto simp: detail_inv_def detail_action_def split: option.splits if_splits)
  next
    case DSubmit
    then show ?thesis using inv by (auto simp: detail_inv_def start_call_def split: option.splits)
  qed (use inv in \<open>auto simp: detail_inv_def query_result_def query_fails_def split: option.splits\<close>)
qed

interpretation mdi: history_invariant "MonitorDetailPage raw" detail_step "\<lambda>evs. detail_inv evs (page_name raw)" for raw
  by unfold_locales (simp add: detail_inv_def MonitorDetailPage_def query_new_def, rule detail_inv_step)

text \<open>
  The page of one monitor stops that monitor and only after it was seen capturing, and starts it only
  after it was seen online and idle.
\<close>

theorem detail_page_calls: "detail_inv evs (page_name raw) (fold detail_step evs (MonitorDetailPage raw))"
  by (rule mdi.inv_run)

end
