(* ===== verification/Views.thy ===== *)
theory Views
  imports Pages
begin

text \<open>
  What the remaining pages decide before they render: the charts and tables of the database page
  (\<open>replays/[id]/db/page.tsx\<close>), the events of a session (\<open>sessions/[id]/page.tsx\<close>), the lists
  (\<open>sessions/page.tsx\<close>, \<open>replays/page.tsx\<close>), the overview (\<open>(authed)/page.tsx\<close>) and the navigation
  (\<open>components/sidebar.tsx\<close>, \<open>status-pill.tsx\<close>). Markup is left out.
\<close>

section \<open>The database page\<close>

text \<open>The rows that are open, as a set; a click on a row opens or closes it.\<close>

definition toggle :: "string \<Rightarrow> string set \<Rightarrow> string set" where
  "toggle key expanded = (if key \<in> expanded then expanded - {key} else insert key expanded)"

definition slow_query_key :: "string \<Rightarrow> string \<Rightarrow> string" where
  "slow_query_key fingerprint observation_type = fingerprint @ observation_type"

text \<open>An even number of clicks on a row leaves it as it was, whatever happened to the others.\<close>

lemma toggle_count:
  "key \<in> fold toggle clicks expanded \<longleftrightarrow> (key \<in> expanded) = even (length (filter (\<lambda>k. k = key) clicks))"
  by (induction clicks arbitrary: expanded) (auto simp: toggle_def)

definition db_unavailable :: "bool \<Rightarrow> bool \<Rightarrow> bool \<Rightarrow> bool" where
  "db_unavailable topSlowError byEndpointError deadlocksError \<longleftrightarrow> topSlowError \<or> byEndpointError \<or> deadlocksError"

record runtime_point =
  pt_sampled_at :: string
  pt_mem_rss :: rat
  pt_mem_heap_used :: rat
  pt_mem_heap_total :: rat
  pt_event_loop_p50_ns :: rat
  pt_event_loop_p99_ns :: rat
  pt_event_loop_max_ns :: rat
  pt_gc_count :: rat
  pt_gc_total_pause_ns :: rat
  pt_cpu_user_us :: rat
  pt_cpu_system_us :: rat
  pt_active_handles :: rat
  pt_active_requests :: rat
  pt_db_pool_used :: rat
  pt_db_pool_free :: rat
  pt_db_pool_pending :: rat
  pt_db_pool_max :: rat

record runtime_summary =
  rs_samples :: nat
  rs_window_start_ns :: rat
  rs_window_end_ns :: rat
  rs_mem_rss_peak :: rat
  rs_mem_rss_min :: rat
  rs_event_loop_p99_peak_ms :: rat
  rs_pool_saturated_sec :: rat
  rs_pool_max :: nat
  rs_gc_total_pause_ms :: rat

definition pool_pct :: "runtime_point \<Rightarrow> rat" where
  "pool_pct p = (if pt_db_pool_max p > 0 then pt_db_pool_used p / pt_db_pool_max p * 100 else 0)"

definition pending_scaled :: "runtime_point \<Rightarrow> rat" where
  "pending_scaled p = min (pt_db_pool_pending p * 10) 100"

text \<open>The three charts: both lines, and the threshold at which a chart turns red.\<close>

definition RuntimeCharts :: "runtime_point list \<Rightarrow> (rat list \<times> rat list option \<times> rat option) list" where
  "RuntimeCharts points =
     [(map pt_mem_rss points, Some (map pt_mem_heap_used points), None),
      (map pt_event_loop_p99_ns points, None, Some 100000000),
      (map pool_pct points, Some (map pending_scaled points), Some 90)]"

definition chart_path :: "rat \<Rightarrow> rat list \<Rightarrow> string" where
  "chart_path peak vals =
     join_with '' '' (map (\<lambda>(i, x, y). (if i = 0 then ''M'' else ''L'') @ toFixed 2 x @ '','' @ toFixed 2 y)
       (enumerate 0 (chart_points peak vals)))"

text \<open>
  Every line of the three charts stays in its box as long as no sample is negative, and the pool's
  chart turns red exactly when some sample has the pool nine tenths full or nine statements waiting.
\<close>

definition sane_point :: "runtime_point \<Rightarrow> bool" where
  "sane_point p \<longleftrightarrow> 0 \<le> pt_mem_rss p \<and> 0 \<le> pt_mem_heap_used p \<and> 0 \<le> pt_event_loop_p99_ns p \<and>
     0 \<le> pt_db_pool_used p \<and> 0 \<le> pt_db_pool_pending p"

lemma pool_nonneg: "sane_point p \<Longrightarrow> 0 \<le> pool_pct p" "sane_point p \<Longrightarrow> 0 \<le> pending_scaled p"
  by (simp_all add: sane_point_def pool_pct_def pending_scaled_def)

theorem runtime_charts_in_box:
  assumes "\<forall>p \<in> set points. sane_point p" "(primary, secondary, warn) \<in> set (RuntimeCharts points)"
    and "vals = primary \<or> secondary = Some vals"
  shows "\<forall>(x, y) \<in> set (chart_points (chart_peak primary secondary) vals). 0 \<le> x \<and> x \<le> 100 \<and> 0 \<le> y \<and> y \<le> 40"
proof (rule chart_in_box [OF _ _ assms(3)])
  show "\<forall>v \<in> set primary. 0 \<le> v" "\<forall>v \<in> set vals. 0 \<le> v"
    using assms pool_nonneg by (auto simp: RuntimeCharts_def sane_point_def)
qed

lemma pool_chart_warns:
  "chart_warns (Some 90) (chart_peak (map pool_pct points) (Some (map pending_scaled points))) \<longleftrightarrow>
     (\<exists>p \<in> set points. 90 \<le> pool_pct p \<or> 9 \<le> pt_db_pool_pending p)"
proof -
  have "90 \<le> chart_peak (map pool_pct points) (Some (map pending_scaled points)) \<longleftrightarrow>
      (\<exists>v \<in> set (map pool_pct points @ map pending_scaled points @ [1]). 90 \<le> v)"
    unfolding chart_peak_def by (subst Max_ge_iff) auto
  moreover have "90 \<le> pending_scaled p \<longleftrightarrow> 9 \<le> pt_db_pool_pending p" for p
    by (auto simp: pending_scaled_def)
  ultimately show ?thesis by (auto simp: chart_warns_def)
qed

definition loop_hint :: "rat \<Rightarrow> string" where
  "loop_hint p99_peak_ms = (if p99_peak_ms > 100 then ''starved'' else ''healthy'')"

definition pool_hint :: "nat \<Rightarrow> string" where
  "pool_hint pool_max = (if pool_max > 0 then ''max '' @ nat_to_string pool_max @ '' conns'' else ''pool stats unavailable'')"

text \<open>The four cards above the charts, each with its label, value and hint; without samples there are none.\<close>

definition runtime_cards :: "runtime_summary \<Rightarrow> (string \<times> string \<times> string) list" where
  "runtime_cards r =
     (if rs_samples r = 0 then []
      else [(''Peak RSS'', formatBytes (rs_mem_rss_peak r), ''min '' @ formatBytes (rs_mem_rss_min r)),
            (''Event loop p99 peak'', toFixed 1 (rs_event_loop_p99_peak_ms r) @ '' ms'', loop_hint (rs_event_loop_p99_peak_ms r)),
            (''Pool saturated'', toFixed 1 (rs_pool_saturated_sec r) @ '' s'', pool_hint (rs_pool_max r)),
            (''GC pause total'', toFixed 0 (rs_gc_total_pause_ms r) @ '' ms'', nat_to_string (rs_samples r) @ '' samples'')])"

text \<open>The three tables.\<close>

record db_slow_row =
  sl_observation_type :: string
  sl_event_id :: string
  sl_query_fingerprint :: string
  sl_query_text :: string
  sl_occurrences :: nat
  sl_avg_ms :: rat
  sl_p95_ms :: rat
  sl_max_ms :: rat
  sl_first_observed_at :: string

record db_endpoint_row =
  en_http_method :: string
  en_http_route :: string
  en_observations :: nat
  en_total_db_ms :: rat
  en_avg_ms :: rat
  en_max_ms :: rat

record db_lock_row =
  lk_event_id :: string
  lk_query_fingerprint :: string
  lk_query_text :: string
  lk_occurrences :: nat
  lk_avg_ms :: rat
  lk_max_ms :: rat
  lk_wait_event_type :: string
  lk_wait_event :: string

text \<open>\<open>replace\<close> with a string replaces the first occurrence only.\<close>

fun replace_first :: "char \<Rightarrow> char \<Rightarrow> string \<Rightarrow> string" where
  "replace_first a b [] = []"
| "replace_first a b (c # cs) = (if c = a then b # cs else c # replace_first a b cs)"

definition slow_cells :: "db_slow_row \<Rightarrow> string list" where
  "slow_cells r =
     [replace_first (CHR ''_'') (CHR '' '') (sl_observation_type r), take 10 (sl_query_fingerprint r), sl_query_text r,
      nat_to_string (sl_occurrences r), toFixed 1 (sl_avg_ms r), toFixed 1 (sl_p95_ms r), toFixed 1 (sl_max_ms r)]"

definition endpoint_cells :: "db_endpoint_row \<Rightarrow> string list" where
  "endpoint_cells r =
     [en_http_method r, en_http_route r, nat_to_string (en_observations r), toFixed 1 (en_total_db_ms r), toFixed 1 (en_avg_ms r),
      toFixed 1 (en_max_ms r)]"

definition lock_cells :: "db_lock_row \<Rightarrow> string list" where
  "lock_cells r =
     [take 10 (lk_query_fingerprint r), lk_wait_event_type r @ '':'' @ lk_wait_event r, lk_query_text r,
      nat_to_string (lk_occurrences r), toFixed 1 (lk_avg_ms r), toFixed 1 (lk_max_ms r)]"

text \<open>The rows of the slow queries that are open.\<close>

definition open_queries :: "string set \<Rightarrow> db_slow_row list \<Rightarrow> db_slow_row list" where
  "open_queries expanded rows =
     filter (\<lambda>r. slow_query_key (sl_query_fingerprint r) (sl_observation_type r) \<in> expanded) rows"

lemma open_after_clicks:
  "set (open_queries (fold toggle clicks {}) rows) =
     {r \<in> set rows. odd (length (filter (\<lambda>k. k = slow_query_key (sl_query_fingerprint r) (sl_observation_type r)) clicks))}"
  by (simp add: open_queries_def toggle_count)

section \<open>The page of a session\<close>

definition session_refetch :: "string option \<Rightarrow> nat option" where
  "session_refetch status = (if status = Some ''active'' then Some 2000 else None)"

datatype session_action = StopCaptureButton bool | ReplayLink string | NoAction

definition session_actions :: "string \<Rightarrow> bool \<Rightarrow> string option \<Rightarrow> session_action" where
  "session_actions i stopping status =
     (if status = Some ''active'' then StopCaptureButton stopping
      else if status = Some ''stopped'' then ReplayLink (''/replays/new?source='' @ i)
      else NoAction)"

text \<open>At most one event of the list is open.\<close>

definition toggle_event :: "string \<Rightarrow> string option \<Rightarrow> string option" where
  "toggle_event i expandedId = (if expandedId = Some i then None else Some i)"

definition shows_route :: "string option \<Rightarrow> string option \<Rightarrow> bool" where
  "shows_route route path \<longleftrightarrow> filled route \<and> route \<noteq> path"

definition HeaderBlock :: "string list dict option \<Rightarrow> string list" where
  "HeaderBlock headers =
     (case headers of None \<Rightarrow> [] | Some hs \<Rightarrow> map (\<lambda>(k, values). k @ '':'' @ join_with '', '' values) hs)"

datatype body_view = NoBody | NotPreviewed string | Preview string

definition BodyBlock :: "string \<Rightarrow> string option \<Rightarrow> nat option \<Rightarrow> bool \<Rightarrow> string \<times> body_view" where
  "BodyBlock label preview bytes truncated =
     (let n = (case bytes of None \<Rightarrow> 0 | Some n \<Rightarrow> n)
      in (label @ (if n > 0 then '' ('' @ fmtBytes n @ '')'' else []) @ (if truncated then '' '' @ DASH @ '' preview only'' else []),
          if n = 0 then NoBody
          else if \<not> filled preview then NotPreviewed (''[blob, '' @ fmtBytes n @ '' '' @ DASH @ '' not previewed]'')
          else Preview (the preview)))"

text \<open>A preview is shown exactly when the engine sent one for a body that is not empty.\<close>

lemma body_block_preview:
  "snd (BodyBlock label preview bytes truncated) = Preview t \<longleftrightarrow> preview = Some t \<and> t \<noteq> [] \<and> (\<exists>n > 0. bytes = Some n)"
  by (auto simp: BodyBlock_def Let_def filled_def split: option.splits)

section \<open>Lists and navigation\<close>

definition count_text :: "string \<Rightarrow> nat \<Rightarrow> string" where
  "count_text noun n = nat_to_string n @ '' '' @ noun @ (if n = 1 then [] else ''s'')"

definition replay_title :: "string option \<Rightarrow> string \<Rightarrow> string" where
  "replay_title label i = (if filled label then the label else i)"

text \<open>The classes of a status; statuses the page does not know get the default.\<close>

definition TONES :: "string dict" where
  "TONES = [(''active'', ''bg-success/10 text-success border-success/30''),
     (''running'', ''bg-accent/10 text-accent border-accent/30''),
     (''pending'', ''bg-muted text-muted-foreground border-border''),
     (''stopped'', ''bg-muted text-muted-foreground border-border''),
     (''completed'', ''bg-success/10 text-success border-success/30''),
     (''failed'', ''bg-danger/10 text-danger border-danger/30''),
     (''cancelled'', ''bg-warning/10 text-warning border-warning/30''),
     (''default'', ''bg-muted text-muted-foreground border-border'')]"

definition StatusPill :: "string \<Rightarrow> string" where
  "StatusPill status = (case dict_get TONES status of Some t \<Rightarrow> t | None \<Rightarrow> the (dict_get TONES ''default''))"

definition NAV :: "string list" where
  "NAV = [''/'', ''/monitors'', ''/sessions'', ''/replays'', ''/settings'']"

definition nav_active :: "string \<Rightarrow> string \<Rightarrow> bool" where
  "nav_active pathname href \<longleftrightarrow> (if href = ''/'' then pathname = ''/'' else startsWith pathname href)"

text \<open>At most one entry of the navigation is highlighted, whatever the address.\<close>

lemma nav_exclusive:
  assumes "nav_active pathname h" "nav_active pathname g" and nav: "h \<in> set NAV" "g \<in> set NAV"
  shows "h = g"
proof (cases "pathname = ''/''")
  case True
  with assms show ?thesis by (fastforce simp: NAV_def nav_active_def startsWith_def)
next
  case False
  then have "h \<noteq> ''/''" "g \<noteq> ''/''" and "startsWith pathname h" "startsWith pathname g"
    using assms(1,2) by (auto simp: nav_active_def split: if_splits)
  moreover from this have "take (length g) h = take (length h) g"
    unfolding startsWith_def by (metis min.commute take_take)
  ultimately show ?thesis using nav by (fastforce simp: NAV_def)
qed

text \<open>Leaving by the sidebar: the answer of the engine is ignored.\<close>

definition sidebar_logout :: "api_failure + api_value \<Rightarrow> after_call" where
  "sidebar_logout r = GoTo ''/login''"

end
