(* ===== verification/Sessions.thy ===== *)
theory Sessions
  imports Monitors Views
begin

text \<open>
  Sessions and replays in the dashboard: the lists (\<open>sessions/page.tsx\<close>, \<open>replays/page.tsx\<close>), the
  overview (\<open>(authed)/page.tsx\<close>), the page of a session with its stop button and its events
  (\<open>sessions/[id]/page.tsx\<close>) and the form that starts a replay (\<open>replays/new/page.tsx\<close>). A page is a
  function from what happens to it (answers, clicks, typing) to its state.
\<close>

section \<open>Lists\<close>

record session =
  ss_id :: string
  ss_name :: string
  ss_labels :: "string dict"
  ss_status :: string
  ss_started_at :: string
  ss_stopped_at :: "string option"
  ss_events_captured :: nat
  ss_bytes_captured :: nat

record replay =
  rl_id :: string
  rl_source_session_id :: string
  rl_target_url :: string
  rl_speedup :: rat
  rl_label :: "string option"
  rl_status :: string
  rl_started_at :: string
  rl_finished_at :: "string option"
  rl_events_dispatched :: nat
  rl_events_failed :: nat
  rl_events_backpressured :: nat
  rl_p50_latency_ms :: "rat option"
  rl_p95_latency_ms :: "rat option"
  rl_p99_latency_ms :: "rat option"
  rl_max_lag_ms :: "rat option"
  rl_error_message :: "string option"

text \<open>
  A row is its link and the texts of its cells. \<open>loc\<close> is \<open>toLocaleString\<close>, \<open>number\<close> the printing of
  a number, \<open>parse\<close> the date parser and \<open>now\<close> the clock.
\<close>

definition TIMES :: string where
  "TIMES = [CHR 0xC3, CHR 0x97]"

definition session_row :: "(nat \<Rightarrow> string) \<Rightarrow> (string \<Rightarrow> rat option) \<Rightarrow> rat \<Rightarrow> session \<Rightarrow> string \<times> string list" where
  "session_row loc parse now s =
     (''/sessions/'' @ ss_id s,
      [ss_name s, ss_id s, ss_status s, loc (ss_events_captured s), fmtBytes (ss_bytes_captured s),
       relativeTime parse now (Some (ss_started_at s))])"

definition latency_text :: "rat option \<Rightarrow> string" where
  "latency_text ms = (case ms of None \<Rightarrow> DASH | Some x \<Rightarrow> toFixed 1 x)"

definition replay_list_row :: "(rat \<Rightarrow> string) \<Rightarrow> (string \<Rightarrow> rat option) \<Rightarrow> rat \<Rightarrow> replay \<Rightarrow> string \<times> string list" where
  "replay_list_row number parse now r =
     (''/replays/'' @ rl_id r,
      [replay_title (rl_label r) (rl_id r), rl_id r, rl_target_url r, number (rl_speedup r) @ TIMES, rl_status r,
       nat_to_string (rl_events_dispatched r), nat_to_string (rl_events_failed r), latency_text (rl_p95_latency_ms r),
       relativeTime parse now (Some (rl_started_at r))])"

text \<open>Title and rows of a list; the title needs an answer, the rows the last answer to be a success.\<close>

definition SessionsPage :: "(nat \<Rightarrow> string) \<Rightarrow> (string \<Rightarrow> rat option) \<Rightarrow> rat \<Rightarrow> (nat \<times> session list) query
    \<Rightarrow> string option \<times> (string \<times> string list) list_view" where
  "SessionsPage loc parse now q =
     (map_option (\<lambda>(n, _). count_text ''session'' n) (qu_data q),
      map_list_view (session_row loc parse now) (monitors_view q))"

definition ReplaysPage :: "(rat \<Rightarrow> string) \<Rightarrow> (string \<Rightarrow> rat option) \<Rightarrow> rat \<Rightarrow> (nat \<times> replay list) query
    \<Rightarrow> string option \<times> (string \<times> string list) list_view" where
  "ReplaysPage number parse now q =
     (map_option (\<lambda>(n, _). count_text ''replay'' n) (qu_data q),
      map_list_view (replay_list_row number parse now) (monitors_view q))"

text \<open>The overview: at most five rows of a list, which are kept when a later fetch fails.\<close>

definition recent_rows :: "('a \<Rightarrow> string \<times> string list) \<Rightarrow> (nat \<times> 'a list) query \<Rightarrow> (string \<times> string list) list option" where
  "recent_rows row q =
     (case qu_data q of Some (n, xs) \<Rightarrow> if n > 0 then Some (map row (take 5 xs)) else None | None \<Rightarrow> None)"

definition overview_session :: "session \<Rightarrow> string \<times> string list" where
  "overview_session s = (''/sessions/'' @ ss_id s, [ss_name s, ss_status s])"

definition overview_replay :: "(string \<Rightarrow> rat option) \<Rightarrow> rat \<Rightarrow> replay \<Rightarrow> string \<times> string list" where
  "overview_replay parse now r =
     (''/replays/'' @ rl_id r,
      [replay_title (rl_label r) (rl_id r), relativeTime parse now (Some (rl_started_at r)), rl_status r])"

datatype engine_card = Unreachable | EngineVersion string string | Waiting

definition engine_status :: "(string \<times> string \<times> string) query \<Rightarrow> engine_card" where
  "engine_status q =
     (if qu_failed q then Unreachable
      else (case qu_data q of
              Some (engine, api_version, sdk) \<Rightarrow> EngineVersion engine (''api '' @ api_version @ '' '' @ MIDDOT @ '' sdk '' @ sdk)
            | None \<Rightarrow> Waiting))"

text \<open>
  A failed fetch hides the rows of a list page, not those of the overview; both show what was
  fetched, in order, and every link leads to the row it stands in.
\<close>

lemma rows_after_failure:
  assumes "0 < n"
  shows "snd (SessionsPage loc parse now (query_fails (query_result (n, xs) q))) = ShowError"
    "recent_rows overview_session (query_fails (query_result (n, xs) q)) = Some (map overview_session (take 5 xs))"
    "snd (SessionsPage loc parse now (query_result (n, xs) q)) = ShowRows (map (session_row loc parse now) xs)"
  using assms by (simp_all add: SessionsPage_def recent_rows_def monitors_view_def query_result_def query_fails_def)

section \<open>The page of a session\<close>

datatype events_view = ListView | ByEndpoint

record session_page =
  sp_id :: string
  sp_session :: "session query"
  sp_events :: "captured_event list query"
  sp_view :: events_view
  sp_expanded :: "string option"
  sp_stopping :: bool
  sp_calls :: "api_op list"
  sp_refetches :: nat

definition SessionDetailPage :: "string \<Rightarrow> session_page" where
  "SessionDetailPage i = \<lparr>sp_id = i, sp_session = query_new, sp_events = query_new, sp_view = ListView, sp_expanded = None,
     sp_stopping = False, sp_calls = [], sp_refetches = 0\<rparr>"

definition sp_status :: "session_page \<Rightarrow> string option" where
  "sp_status p = map_option ss_status (qu_data (sp_session p))"

definition shown_events :: "session_page \<Rightarrow> captured_event list" where
  "shown_events p =
     (if qu_data (sp_session p) = None then [] else (case qu_data (sp_events p) of None \<Rightarrow> [] | Some es \<Rightarrow> es))"

datatype session_event =
    SessionFetched session
  | SessionFetchFails
  | SessionEventsFetched "captured_event list"
  | ClickView events_view
  | ClickEvent string
  | ClickStopCapture
  | StopAnswers bool

text \<open>
  Leaving the list view drops the list with the row that was open in it; so does an answer without
  events.
\<close>

fun session_step :: "session_event \<Rightarrow> session_page \<Rightarrow> session_page" where
  "session_step (SessionFetched s) p = p\<lparr>sp_session := query_result s (sp_session p)\<rparr>"
| "session_step SessionFetchFails p = p\<lparr>sp_session := query_fails (sp_session p)\<rparr>"
| "session_step (SessionEventsFetched es) p =
     p\<lparr>sp_events := query_result es (sp_events p), sp_expanded := (if es = [] then None else sp_expanded p)\<rparr>"
| "session_step (ClickView v) p =
     (if shown_events p = [] then p
      else p\<lparr>sp_view := v, sp_expanded := (if v = ListView then sp_expanded p else None)\<rparr>)"
| "session_step (ClickEvent i) p =
     (if sp_view p = ListView \<and> i \<in> ce_id ` set (shown_events p)
      then p\<lparr>sp_expanded := toggle_event i (sp_expanded p)\<rparr> else p)"
| "session_step ClickStopCapture p =
     (case session_actions (sp_id p) (sp_stopping p) (sp_status p) of
        StopCaptureButton False \<Rightarrow> p\<lparr>sp_stopping := True, sp_calls := sp_calls p @ [StopSession (sp_id p)]\<rparr>
      | _ \<Rightarrow> p)"
| "session_step (StopAnswers ok) p =
     (if sp_stopping p then p\<lparr>sp_stopping := False, sp_refetches := sp_refetches p + (if ok then 1 else 0)\<rparr> else p)"

text \<open>What the list prints of an event, and what opens below it.\<close>

definition event_cells :: "(int \<Rightarrow> string) \<Rightarrow> captured_event \<Rightarrow> string list" where
  "event_cells number e =
     [ce_event_type e, (case ce_method e of None \<Rightarrow> DASH | Some m \<Rightarrow> m), (case ce_path e of None \<Rightarrow> DASH | Some p \<Rightarrow> p),
      (case ce_status e of None \<Rightarrow> DASH | Some n \<Rightarrow> number n),
      (case ce_durationNs e of None \<Rightarrow> DASH | Some d \<Rightarrow> if d = 0 then DASH else nsToMs (Some d)), take 12 (ce_id e)]"

record event_details =
  ed_from :: "string option"
  ed_route :: "string option"
  ed_status :: string
  ed_request :: "string list \<times> string \<times> body_view"
  ed_response :: "string list \<times> string \<times> body_view"

definition EventDetails :: "(int \<Rightarrow> string) \<Rightarrow> captured_event \<Rightarrow> event_details" where
  "EventDetails number e =
     \<lparr>ed_from = (if filled (ce_source_ip e) then ce_source_ip e else None),
      ed_route = (if shows_route (ce_route e) (ce_path e) then ce_route e else None),
      ed_status = (case ce_status e of None \<Rightarrow> DASH | Some n \<Rightarrow> number n) @ '' '' @
        (case ce_durationNs e of None \<Rightarrow> [] | Some d \<Rightarrow> if d = 0 then [] else MIDDOT @ '' '' @ nsToMs (Some d)),
      ed_request = (HeaderBlock (ce_request_headers e),
        BodyBlock ''Body'' (ce_request_body_preview e) (ce_request_body_size e) (ce_request_body_truncated e)),
      ed_response = (HeaderBlock (ce_response_headers e),
        BodyBlock ''Body'' (ce_response_body_preview e) (ce_response_body_size e) (ce_response_body_truncated e))\<rparr>"

definition open_details :: "(int \<Rightarrow> string) \<Rightarrow> session_page \<Rightarrow> event_details list" where
  "open_details number p =
     (if sp_view p = ListView then map (EventDetails number) (filter (\<lambda>e. sp_expanded p = Some (ce_id e)) (shown_events p)) else [])"

definition session_inv :: "session_event list \<Rightarrow> session_page \<Rightarrow> bool" where
  "session_inv evs p \<longleftrightarrow>
     (\<forall>s. qu_data (sp_session p) = Some s \<longrightarrow> SessionFetched s \<in> set evs) \<and>
     set (sp_calls p) \<subseteq> {StopSession (sp_id p)} \<and>
     (sp_calls p \<noteq> [] \<longrightarrow> ClickStopCapture \<in> set evs \<and> (\<exists>s. SessionFetched s \<in> set evs \<and> ss_status s = ''active'')) \<and>
     length (sp_calls p) \<le> length (filter (\<lambda>e. \<exists>ok. e = StopAnswers ok) evs) + (if sp_stopping p then 1 else 0) \<and>
     (sp_expanded p \<noteq> None \<longrightarrow> sp_view p = ListView)"

lemma session_inv_step:
  assumes "session_inv evs p"
  shows "session_inv (evs @ [e]) (session_step e p)"
  using assms
  by (cases e) (auto simp: session_inv_def query_result_def query_fails_def toggle_event_def session_actions_def sp_status_def
      split: session_action.splits bool.splits if_splits)

interpretation spi: history_invariant "SessionDetailPage i" session_step "\<lambda>evs p. sp_id p = i \<and> session_inv evs p" for i
proof
  show "sp_id (SessionDetailPage i) = i \<and> session_inv [] (SessionDetailPage i)"
    by (simp add: session_inv_def SessionDetailPage_def query_new_def)
  fix seen p e
  assume "sp_id p = i \<and> session_inv seen p"
  moreover have "sp_id (session_step e p) = sp_id p"
    by (cases e) (auto split: session_action.splits bool.splits)
  ultimately show "sp_id (session_step e p) = i \<and> session_inv (seen @ [e]) (session_step e p)"
    by (simp add: session_inv_step)
qed

text \<open>
  The page of a session stops that session and nothing else, only on a click while the session was
  shown active, and asks again only after an answer; it polls exactly while the session is shown
  active; and the details that are open are those of the event that was clicked.
\<close>

theorem session_page_safe:
  assumes "p = fold session_step evs (SessionDetailPage i)"
  shows "set (sp_calls p) \<subseteq> {StopSession i}"
    and "sp_calls p \<noteq> [] \<Longrightarrow> \<exists>s. SessionFetched s \<in> set evs \<and> ss_status s = ''active''"
    and "length (sp_calls p) \<le> length (filter (\<lambda>e. \<exists>ok. e = StopAnswers ok) evs) + 1"
    and "session_refetch (sp_status p) \<noteq> None \<longleftrightarrow> sp_status p = Some ''active''"
    and "open_details number p \<noteq> [] \<Longrightarrow> \<exists>e \<in> set (shown_events p). sp_expanded p = Some (ce_id e)"
  using spi.inv_run [of evs i] unfolding assms [symmetric]
  by (auto simp: session_inv_def session_refetch_def open_details_def filter_empty_conv split: if_splits)

section \<open>Starting a replay\<close>

record new_replay =
  nr_preselected :: string
  nr_sessions :: "string list query"
  nr_picked :: "string option"
  nr_targetUrl :: string
  nr_speedup :: string
  nr_label :: string
  nr_error :: "string option"
  nr_pending :: bool
  nr_calls :: "api_op list"
  nr_pushed :: "string list"

definition NewReplayPage :: "string option \<Rightarrow> new_replay" where
  "NewReplayPage source = \<lparr>nr_preselected = (case source of None \<Rightarrow> [] | Some s \<Rightarrow> s), nr_sessions = query_new, nr_picked = None,
     nr_targetUrl = [], nr_speedup = ''1'', nr_label = [], nr_error = None, nr_pending = False, nr_calls = [], nr_pushed = []\<rparr>"

text \<open>The ids of the stopped sessions the form offers.\<close>

definition stoppedSessions :: "new_replay \<Rightarrow> string list" where
  "stoppedSessions p = (case qu_data (nr_sessions p) of None \<Rightarrow> [] | Some ids \<Rightarrow> ids)"

definition sourceId :: "new_replay \<Rightarrow> string" where
  "sourceId p = chosen_source (nr_picked p) (nr_preselected p) (stoppedSessions p)"

datatype new_replay_event =
    StoppedFetched "string list"
  | StoppedFails
  | PickSource string
  | TypeTarget string
  | TypeSpeedup string
  | TypeLabel string
  | SubmitReplay
  | ReplayAnswers "string + string"

fun new_replay_step :: "(string \<Rightarrow> bool) \<Rightarrow> (string \<Rightarrow> string option) \<Rightarrow> new_replay_event \<Rightarrow> new_replay \<Rightarrow> new_replay" where
  "new_replay_step valid_url number (StoppedFetched ids) p = p\<lparr>nr_sessions := query_result ids (nr_sessions p)\<rparr>"
| "new_replay_step valid_url number StoppedFails p = p\<lparr>nr_sessions := query_fails (nr_sessions p)\<rparr>"
| "new_replay_step valid_url number (PickSource s) p = (if s \<in> set (stoppedSessions p) then p\<lparr>nr_picked := Some s\<rparr> else p)"
| "new_replay_step valid_url number (TypeTarget s) p = p\<lparr>nr_targetUrl := s\<rparr>"
| "new_replay_step valid_url number (TypeSpeedup s) p = p\<lparr>nr_speedup := s\<rparr>"
| "new_replay_step valid_url number (TypeLabel s) p = p\<lparr>nr_label := s\<rparr>"
| "new_replay_step valid_url number SubmitReplay p =
     (if nr_pending p \<or> sourceId p = [] \<or> nr_targetUrl p = [] \<or> stoppedSessions p = [] then p
      else (case new_replay_submit valid_url number (sourceId p) (nr_targetUrl p) (nr_speedup p) (nr_label p) of
              Inl m \<Rightarrow> p\<lparr>nr_error := Some m\<rparr>
            | Inr op \<Rightarrow> p\<lparr>nr_error := None, nr_pending := True, nr_calls := nr_calls p @ [op]\<rparr>))"
| "new_replay_step valid_url number (ReplayAnswers r) p =
     (if \<not> nr_pending p then p
      else (case r of
              Inr i \<Rightarrow> p\<lparr>nr_pending := False, nr_pushed := nr_pushed p @ [''/replays/'' @ i]\<rparr>
            | Inl m \<Rightarrow> p\<lparr>nr_pending := False, nr_error := Some m\<rparr>))"

definition offered :: "new_replay_event list \<Rightarrow> string \<Rightarrow> bool" where
  "offered evs s \<longleftrightarrow> (\<exists>ids. StoppedFetched ids \<in> set evs \<and> s \<in> set ids)"

definition replay_call_ok :: "(string \<Rightarrow> bool) \<Rightarrow> new_replay_event list \<Rightarrow> api_op \<Rightarrow> bool" where
  "replay_call_ok valid_url evs op \<longleftrightarrow>
     (\<exists>source target rest. offered evs source \<and> valid_url target \<and> trim target = target \<and>
        op = StartReplay (JObj ([(''source_session_id'', JStr source), (''target_url'', JStr target)] @ rest)))"

definition new_replay_inv :: "(string \<Rightarrow> bool) \<Rightarrow> new_replay_event list \<Rightarrow> new_replay \<Rightarrow> bool" where
  "new_replay_inv valid_url evs p \<longleftrightarrow>
     (\<forall>ids. qu_data (nr_sessions p) = Some ids \<longrightarrow> StoppedFetched ids \<in> set evs) \<and>
     (\<forall>s. nr_picked p = Some s \<longrightarrow> offered evs s) \<and>
     list_all (replay_call_ok valid_url evs) (nr_calls p) \<and>
     length (nr_pushed p) + (if nr_pending p then 1 else 0) \<le> length (nr_calls p)"

lemma new_replay_inv_mono: "new_replay_inv valid_url evs p \<Longrightarrow> new_replay_inv valid_url (evs @ es) p"
  unfolding new_replay_inv_def replay_call_ok_def offered_def list_all_iff set_append Un_iff by blast

lemma sourceId_offered:
  assumes "new_replay_inv valid_url evs p" "stoppedSessions p \<noteq> []"
  shows "offered evs (sourceId p)"
  using assms by (auto simp: new_replay_inv_def sourceId_def chosen_source_def stoppedSessions_def offered_def
      split: option.splits list.splits)

lemma submitted_call_ok:
  assumes "offered evs source" "new_replay_submit valid_url number source target speedup label = Inr op"
  shows "replay_call_ok valid_url evs op"
  using assms trim_idem [of target]
  by (auto simp: new_replay_submit_def replay_call_ok_def split: if_splits)

lemma new_replay_inv_step:
  assumes "new_replay_inv valid_url evs p"
  shows "new_replay_inv valid_url (evs @ [e]) (new_replay_step valid_url number e p)"
proof -
  have inv: "new_replay_inv valid_url (evs @ [e]) p" using assms by (rule new_replay_inv_mono)
  show ?thesis
  proof (cases e)
    case SubmitReplay
    with inv show ?thesis using submitted_call_ok [OF sourceId_offered [OF inv]]
      by (auto simp: new_replay_inv_def split: sum.splits if_splits)
  next
    case (PickSource s)
    moreover have "offered (evs @ [e]) s" if "s \<in> set (stoppedSessions p)"
    proof -
      from that obtain ids where "qu_data (nr_sessions p) = Some ids" "s \<in> set ids"
        by (cases "qu_data (nr_sessions p)") (auto simp: stoppedSessions_def)
      with inv show ?thesis unfolding new_replay_inv_def offered_def by blast
    qed
    ultimately show ?thesis using inv by (auto simp: new_replay_inv_def)
  qed (use inv in \<open>auto simp: new_replay_inv_def query_result_def query_fails_def split: sum.splits\<close>)
qed

interpretation nri: history_invariant "NewReplayPage source" "new_replay_step valid_url number" "new_replay_inv valid_url"
  for source valid_url number
  by unfold_locales (simp add: new_replay_inv_def NewReplayPage_def query_new_def, rule new_replay_inv_step)

text \<open>
  The form starts a replay only of a session that was listed as stopped and only against a target
  that is a URL; it leaves for a replay once per answered call, and no call is made while another is
  pending. The session named by the link is used only if it is among those listed: with more stopped
  sessions than the list holds, the form selects another one without a word.
\<close>

theorem new_replay_safe:
  assumes "p = fold (new_replay_step valid_url number) evs (NewReplayPage source)"
  shows "list_all (replay_call_ok valid_url evs) (nr_calls p)"
    and "length (nr_pushed p) + (if nr_pending p then 1 else 0) \<le> length (nr_calls p)"
    and "nr_pending p \<Longrightarrow> nr_calls (new_replay_step valid_url number SubmitReplay p) = nr_calls p"
  using nri.inv_run [of valid_url evs number source] unfolding assms [symmetric] by (simp_all add: new_replay_inv_def)

lemma linked_session_replaced:
  assumes "pre \<notin> set (s # ids)" "s \<noteq> []"
  shows "sourceId (new_replay_step valid_url number (StoppedFetched (s # ids)) (NewReplayPage (Some pre))) = s"
  using assms by (simp add: sourceId_def chosen_source_def stoppedSessions_def NewReplayPage_def query_result_def)

end
