(* ===== verification/Live.thy ===== *)
theory Live
  imports Timeline Format Api
begin

text \<open>
  The page of a replay while it runs (\<open>ui/src/app/(authed)/replays/[id]/page.tsx\<close>): what it polls
  and for how long, the topic it listens to (\<open>ui/src/lib/hooks/use-ws-topic.ts\<close>) and the counters it
  shows, and how it prints rows. The query library and the socket are the environment: fetched rows
  and pushed snapshots arrive in any order.
\<close>

section \<open>The topic hook\<close>

text \<open>
  The effect runs when the topic changes: it unsubscribes from the old topic and subscribes to the
  new one, if there is one. The payload is kept.
\<close>

record 'a topic_hook =
  th_topic :: "string option"
  th_subscribed :: "string option"
  th_data :: "'a option"

definition topic_effect :: "string option \<Rightarrow> 'a topic_hook \<Rightarrow> 'a topic_hook" where
  "topic_effect topic h =
     (if topic = th_topic h then h
      else h\<lparr>th_topic := topic, th_subscribed := (if topic = None \<or> topic = Some [] then None else topic)\<rparr>)"

definition useWsTopic :: "'a topic_hook" where
  "useWsTopic = \<lparr>th_topic = None, th_subscribed = None, th_data = None\<rparr>"

definition topic_message :: "string \<Rightarrow> 'a \<Rightarrow> 'a topic_hook \<Rightarrow> 'a topic_hook" where
  "topic_message topic payload h = (if th_subscribed h = Some topic then h\<lparr>th_data := Some payload\<rparr> else h)"

section \<open>Polling\<close>

definition is_live :: "string option \<Rightarrow> bool" where
  "is_live status \<longleftrightarrow> status = Some ''running'' \<or> status = Some ''pending''"

definition replay_refetch :: "string option \<Rightarrow> nat option" where
  "replay_refetch status = (if is_live status then Some 2000 else None)"

text \<open>The rows seen and the rows dispatched; both are zero when they are not known.\<close>

definition events_refetch :: "string option \<Rightarrow> nat option \<Rightarrow> nat option \<Rightarrow> nat option" where
  "events_refetch status seen dispatched =
     (if is_live status then Some 2000
      else if status = Some ''completed'' \<and>
        (case seen of None \<Rightarrow> 0 | Some n \<Rightarrow> n) < (case dispatched of None \<Rightarrow> 0 | Some n \<Rightarrow> n) then Some 2000
      else None)"

definition EVENTS_PAGE :: nat where
  "EVENTS_PAGE = 5000"

definition liveTopic :: "string \<Rightarrow> string option \<Rightarrow> string option" where
  "liveTopic i status = (if is_live status then Some (''replay.'' @ i @ ''.progress'') else None)"

section \<open>The page\<close>

record replay_page =
  rp_id :: string
  rp_replay :: "(string \<times> counters) option"
  rp_seen :: "nat option"
  rp_progress :: "(string \<times> counters) topic_hook"
  rp_cancelling :: bool
  rp_calls :: "api_op list"
  rp_refetches :: nat

datatype page_event =
    ReplayFetched string counters
  | EventsFetched nat
  | Pushed string string counters
  | ClickCancelReplay
  | CancelAnswers bool

definition ReplayDetailPage :: "string \<Rightarrow> replay_page" where
  "ReplayDetailPage i = \<lparr>rp_id = i, rp_replay = None, rp_seen = None, rp_progress = useWsTopic,
     rp_cancelling = False, rp_calls = [], rp_refetches = 0\<rparr>"

fun page_step :: "page_event \<Rightarrow> replay_page \<Rightarrow> replay_page" where
  "page_step (ReplayFetched status c) p =
     p\<lparr>rp_replay := Some (status, c), rp_progress := topic_effect (liveTopic (rp_id p) (Some status)) (rp_progress p)\<rparr>"
| "page_step (EventsFetched n) p = p\<lparr>rp_seen := Some n\<rparr>"
| "page_step (Pushed topic status c) p = p\<lparr>rp_progress := topic_message topic (status, c) (rp_progress p)\<rparr>"
| "page_step ClickCancelReplay p =
     (if is_live (map_option fst (rp_replay p)) \<and> \<not> rp_cancelling p
      then p\<lparr>rp_cancelling := True, rp_calls := rp_calls p @ [CancelReplay (rp_id p)]\<rparr> else p)"
| "page_step (CancelAnswers ok) p =
     (if rp_cancelling p then p\<lparr>rp_cancelling := False, rp_refetches := rp_refetches p + (if ok then 1 else 0)\<rparr> else p)"

definition page_counters :: "replay_page \<Rightarrow> counters" where
  "page_counters p = live_counters (th_data (rp_progress p)) (map_option snd (rp_replay p))"

definition page_polls :: "replay_page \<Rightarrow> nat option \<times> nat option" where
  "page_polls p =
     (replay_refetch (map_option fst (rp_replay p)),
      events_refetch (map_option fst (rp_replay p)) (rp_seen p) (map_option (ct_dispatched \<circ> snd) (rp_replay p)))"

text \<open>
  The page listens exactly while the replay it last saw is live, and to its own topic.
\<close>

definition page_inv :: "replay_page \<Rightarrow> bool" where
  "page_inv p \<longleftrightarrow> th_topic (rp_progress p) = liveTopic (rp_id p) (map_option fst (rp_replay p)) \<and>
     th_subscribed (rp_progress p) = th_topic (rp_progress p)"

lemma page_inv_step: "page_inv p \<Longrightarrow> page_inv (page_step e p)"
  by (cases e) (auto simp: page_inv_def topic_effect_def topic_message_def liveTopic_def)

lemma page_id_step [simp]: "rp_id (page_step e p) = rp_id p"
  by (cases e) simp_all

lemma page_run: "rp_id (fold page_step evs p) = rp_id p \<and> (page_inv p \<longrightarrow> page_inv (fold page_step evs p))"
  by (induction evs arbitrary: p) (auto intro: page_inv_step)

lemma page_inv_new: "page_inv (ReplayDetailPage i)"
  by (simp add: page_inv_def ReplayDetailPage_def useWsTopic_def liveTopic_def is_live_def)

theorem page_listens:
  "let p = fold page_step evs (ReplayDetailPage i)
   in th_subscribed (rp_progress p) =
       (if is_live (map_option fst (rp_replay p)) then Some (''replay.'' @ i @ ''.progress'') else None) \<and>
     (fst (page_polls p) \<noteq> None \<longleftrightarrow> th_subscribed (rp_progress p) \<noteq> None)"
  using page_run [of evs "ReplayDetailPage i"] page_inv_new [of i]
  by (auto simp: page_inv_def liveTopic_def page_polls_def replay_refetch_def ReplayDetailPage_def Let_def)

text \<open>
  The page cancels its own replay and no other, on a click, while the replay was shown pending or
  running, and at most once more than it was answered.
\<close>

definition cancel_inv :: "page_event list \<Rightarrow> replay_page \<Rightarrow> bool" where
  "cancel_inv evs p \<longleftrightarrow>
     (\<forall>status c. rp_replay p = Some (status, c) \<longrightarrow> ReplayFetched status c \<in> set evs) \<and>
     set (rp_calls p) \<subseteq> {CancelReplay (rp_id p)} \<and>
     (rp_calls p \<noteq> [] \<longrightarrow> ClickCancelReplay \<in> set evs \<and> (\<exists>status c. ReplayFetched status c \<in> set evs \<and> is_live (Some status))) \<and>
     length (rp_calls p) \<le> length (filter (\<lambda>e. \<exists>ok. e = CancelAnswers ok) evs) + (if rp_cancelling p then 1 else 0)"

lemma cancel_inv_step:
  assumes inv: "cancel_inv evs p"
  shows "cancel_inv (evs @ [e]) (page_step e p)"
proof (cases e)
  case ClickCancelReplay
  show ?thesis
  proof (cases "is_live (map_option fst (rp_replay p)) \<and> \<not> rp_cancelling p")
    case True
    then obtain status c where "rp_replay p = Some (status, c)" "is_live (Some status)"
      by (cases "rp_replay p") (auto simp: is_live_def)
    moreover from this inv have "ReplayFetched status c \<in> set evs" by (simp add: cancel_inv_def)
    ultimately show ?thesis using inv True ClickCancelReplay by (auto simp: cancel_inv_def)
  qed (use inv ClickCancelReplay in \<open>auto simp: cancel_inv_def\<close>)
qed (use inv in \<open>auto simp: cancel_inv_def split: if_splits\<close>)

interpretation rpi: history_invariant "ReplayDetailPage i" page_step "\<lambda>evs p. rp_id p = i \<and> cancel_inv evs p" for i
  by unfold_locales (simp add: cancel_inv_def ReplayDetailPage_def, simp add: cancel_inv_step)

theorem cancel_only_live:
  "let p = fold page_step evs (ReplayDetailPage i)
   in set (rp_calls p) \<subseteq> {CancelReplay i} \<and>
     (rp_calls p \<noteq> [] \<longrightarrow> (\<exists>status c. ReplayFetched status c \<in> set evs \<and> is_live (Some status)))"
  using rpi.inv_run [of evs i] unfolding cancel_inv_def Let_def by metis

section \<open>What the page shows in the end\<close>

text \<open>
  The page stops fetching rows only when the replay is over, and for a completed one only when it has as
  many rows as were dispatched. It asks for one page of rows, so for a replay of more events than
  that it never stops.
\<close>

theorem events_polling:
  "(events_refetch status seen dispatched = None \<longleftrightarrow> \<not> is_live status \<and>
     (status = Some ''completed'' \<longrightarrow> (case dispatched of None \<Rightarrow> 0 | Some n \<Rightarrow> n) \<le> (case seen of None \<Rightarrow> 0 | Some n \<Rightarrow> n))) \<and>
   (n \<le> EVENTS_PAGE \<longrightarrow> EVENTS_PAGE < d \<longrightarrow> events_refetch (Some ''completed'') (Some n) (Some d) = Some 2000)"
  by (auto simp: events_refetch_def not_less split: if_splits)

text \<open>
  A snapshot that says the replay is running outlives the replay: once the page has fetched that it is
  over it no longer listens, and nothing replaces the snapshot, so its counters stay on the page
  whatever is fetched later.
\<close>

definition over :: "page_event \<Rightarrow> bool" where
  "over e \<longleftrightarrow> (case e of ReplayFetched status c \<Rightarrow> \<not> is_live (Some status) | _ \<Rightarrow> True)"

theorem stale_counters:
  assumes "page_inv p" "th_data (rp_progress p) = Some (status, c)" "status \<noteq> ''finished''" "list_all over evs"
    and "\<not> is_live (Some final)"
  shows "page_counters (fold page_step (ReplayFetched final r # evs) p) = c"
proof -
  have keep: "th_data (rp_progress (fold page_step evs q)) = Some (status, c)"
    if "th_subscribed (rp_progress q) = None" "th_topic (rp_progress q) = None" "th_data (rp_progress q) = Some (status, c)"
      "list_all over evs" for q evs
    using that
  proof (induction evs arbitrary: q)
    case (Cons e evs)
    have "th_subscribed (rp_progress (page_step e q)) = None \<and> th_topic (rp_progress (page_step e q)) = None \<and>
        th_data (rp_progress (page_step e q)) = Some (status, c)"
      using Cons.prems by (cases e) (simp_all add: topic_effect_def topic_message_def liveTopic_def over_def)
    with Cons.IH [of "page_step e q"] Cons.prems(4) show ?case by simp
  qed simp
  let ?q = "page_step (ReplayFetched final r) p"
  have "th_subscribed (rp_progress ?q) = None" "th_topic (rp_progress ?q) = None" "th_data (rp_progress ?q) = Some (status, c)"
    using assms(1,2,5) by (auto simp: topic_effect_def liveTopic_def page_inv_def)
  from keep [OF this assms(4)] assms(3) show ?thesis by (simp add: page_counters_def live_counters_def)
qed

theorem stale_counters_witness:
  "page_counters (fold page_step [ReplayFetched ''running'' \<lparr>ct_dispatched = 0, ct_failed = 0, ct_backpressured = 0\<rparr>,
       Pushed ''replay.r1.progress'' ''running'' \<lparr>ct_dispatched = 7, ct_failed = 0, ct_backpressured = 0\<rparr>,
       ReplayFetched ''completed'' \<lparr>ct_dispatched = 90, ct_failed = 2, ct_backpressured = 0\<rparr>,
       ReplayFetched ''completed'' \<lparr>ct_dispatched = 90, ct_failed = 2, ct_backpressured = 0\<rparr>] (ReplayDetailPage ''r1'')) =
     \<lparr>ct_dispatched = 7, ct_failed = 0, ct_backpressured = 0\<rparr>"
proof -
  let ?zero = "\<lparr>ct_dispatched = 0, ct_failed = 0, ct_backpressured = 0\<rparr>"
  let ?seven = "\<lparr>ct_dispatched = 7, ct_failed = 0, ct_backpressured = 0\<rparr>"
  let ?final = "ReplayFetched ''completed'' \<lparr>ct_dispatched = 90, ct_failed = 2, ct_backpressured = 0\<rparr>"
  define p where "p = fold page_step [ReplayFetched ''running'' ?zero, Pushed ''replay.r1.progress'' ''running'' ?seven] (ReplayDetailPage ''r1'')"
  have "page_inv p" using page_run [of _ "ReplayDetailPage ''r1''"] page_inv_new unfolding p_def by blast
  moreover have "th_data (rp_progress p) = Some (''running'', ?seven)" unfolding p_def by code_simp
  ultimately have "page_counters (fold page_step (?final # [?final]) p) = ?seven"
    by (rule stale_counters) (simp_all add: over_def is_live_def)
  then show ?thesis by (simp add: p_def)
qed

section \<open>Panels\<close>

text \<open>The samples of the captured events, as the comparison wants them.\<close>

record event_view =
  vw_method :: "string option"
  vw_route :: "string option"
  vw_path :: "string option"
  vw_durationNs :: "rat option"
  vw_status :: "int option"

definition capture_sample :: "event_view \<Rightarrow> http_sample" where
  "capture_sample e = \<lparr>hs_method = vw_method e, hs_route = vw_route e, hs_path = vw_path e,
     hs_durationNs = (case vw_durationNs e of None \<Rightarrow> 0 | Some n \<Rightarrow> n), hs_status = vw_status e\<rparr>"

definition CaptureVsReplayPanel :: "event_view list \<Rightarrow> replay_row list \<Rightarrow> endpoint_comparison list" where
  "CaptureVsReplayPanel captured replayed =
     take 30 (compareCaptureVsReplay (map capture_sample captured) (map replayToSample replayed))"

definition ByEndpointPanel :: "replay_row list \<Rightarrow> endpoint_rollup list" where
  "ByEndpointPanel rows = rollupByEndpoint (map replayToSample rows)"

definition SlowestPanel :: "replay_row list \<Rightarrow> http_sample list" where
  "SlowestPanel rows = topSlow (map replayToSample rows) 10"

definition delta_tone :: "rat option \<Rightarrow> string" where
  "delta_tone delta =
     (case delta of
        None \<Rightarrow> ''text-muted-foreground''
      | Some d \<Rightarrow>
          if d > 20 then ''text-danger'' else if d > 5 then ''text-warning''
          else if d < -5 then ''text-success'' else ''text-muted-foreground'')"

definition delta_text :: "rat option \<Rightarrow> string" where
  "delta_text delta =
     (case delta of None \<Rightarrow> DASH | Some d \<Rightarrow> (if d \<ge> 0 then ''+'' else []) @ toFixed 0 d @ [CHR 0x25])"

definition error_rate_text :: "rat \<Rightarrow> string" where
  "error_rate_text rate = (if rate = 0 then DASH else toFixed 0 (rate * 100) @ [CHR 0x25])"

definition duration_text :: "rat \<Rightarrow> string" where
  "duration_text ns = (if ns = 0 then DASH else nsToMs (Some ns))"

text \<open>The rows of the panels as texts; \<open>number\<close> prints a number.\<close>

definition rollup_cells :: "endpoint_rollup \<Rightarrow> string list" where
  "rollup_cells r =
     [er_method r, er_route r, nat_to_string (er_count r), duration_text (er_p50 r), duration_text (er_p95 r),
      duration_text (er_max r), error_rate_text (er_errorRate r)]"

definition comparison_cells :: "endpoint_comparison \<Rightarrow> string list" where
  "comparison_cells r =
     [ec_method r, ec_route r, duration_text (ec_capturedP95 r), duration_text (ec_replayedP95 r), delta_text (ec_deltaPct r),
      nat_to_string (ec_captureCount r) @ ''/'' @ nat_to_string (ec_replayCount r)]"

definition slowest_cells :: "(int \<Rightarrow> string) \<Rightarrow> nat \<Rightarrow> http_sample \<Rightarrow> string list" where
  "slowest_cells number i s =
     [nat_to_string (i + 1), (case hs_method s of None \<Rightarrow> DASH | Some m \<Rightarrow> m),
      (if filled (hs_route s) then the (hs_route s) else if filled (hs_path s) then the (hs_path s) else DASH),
      (case hs_status s of None \<Rightarrow> DASH | Some n \<Rightarrow> number n), nsToMs (Some (hs_durationNs s))]"

definition EventsPanel :: "(int \<Rightarrow> string) \<Rightarrow> replay_row list \<Rightarrow> string list list" where
  "EventsPanel number rows =
     map (\<lambda>r. [rr_method r, (if rr_route r \<noteq> [] then rr_route r else rr_path r), number (rr_status r),
       nsToMs (Some (rr_durationNs r)), nsToMs (Some (rr_lagNs r)), rr_errorCode r]) rows"

text \<open>The bars of the timeline, as percentages of its height.\<close>

definition max_p95 :: "bucket_view list \<Rightarrow> rat" where
  "max_p95 bs = Max (set (map bv_p95 bs @ [1]))"

definition bar_height :: "bucket_view list \<Rightarrow> bucket_view \<Rightarrow> rat" where
  "bar_height bs b = (if max_p95 bs > 0 then max (bv_p95 b / max_p95 bs * 100) 2 else 0)"

definition error_band :: "bucket_view \<Rightarrow> rat" where
  "error_band b = min (bv_errorRate b * 100) 15"

theorem bars_in_panel:
  assumes "b \<in> set bs" "0 \<le> bv_errorRate b"
  shows "2 \<le> bar_height bs b \<and> bar_height bs b \<le> 100 \<and> 0 \<le> error_band b \<and> error_band b \<le> 15"
proof -
  have m: "1 \<le> max_p95 bs" "bv_p95 b \<le> max_p95 bs" using assms(1) by (auto simp: max_p95_def intro!: Max_ge)
  then have "bv_p95 b * 100 / max_p95 bs \<le> 100" by (simp add: pos_divide_le_eq)
  with m assms(2) show ?thesis by (simp add: bar_height_def error_band_def)
qed

end
