(* ===== verification/Details.thy ===== *)
theory Details
  imports Sessions Live
begin

text \<open>
  What the detail pages of the dashboard show below their headers: the page of a session and its table of endpoints
  (\<open>sessions/[id]/page.tsx\<close>), the page of a monitor (\<open>monitors/[name]/page.tsx\<close>) and the sections of the
  database page (\<open>replays/[id]/db/page.tsx\<close>). Each is a function of the queries the page has made; texts as in
  theories \<open>Format\<close>, \<open>Views\<close> and \<open>Live\<close>.
\<close>

section \<open>One object\<close>

datatype 'a detail_view = DetailLoading | DetailNotFound | Detail 'a

definition detail_view :: "'a query \<Rightarrow> 'a detail_view" where
  "detail_view q =
     (case qu_data q of
        Some x \<Rightarrow> Detail x
      | None \<Rightarrow> if qu_failed q then DetailNotFound else DetailLoading)"

text \<open>
  What has been fetched stays on the page while later fetches fail; a page that has fetched nothing calls every failure
  \<open>not found\<close>, an engine that cannot be reached included.
\<close>

fun fetched :: "('a + unit) list \<Rightarrow> 'a option" where
  "fetched [] = None"
| "fetched (Inl x # later) = (case fetched later of None \<Rightarrow> Some x | Some y \<Rightarrow> Some y)"
| "fetched (Inr _ # later) = fetched later"

definition query_run :: "('a + unit) list \<Rightarrow> 'a query \<Rightarrow> 'a query" where
  "query_run = fold (\<lambda>a q. case a of Inl x \<Rightarrow> query_result x q | Inr _ \<Rightarrow> query_fails q)"

lemma query_run_data:
  "qu_data (query_run as q) = (case fetched as of None \<Rightarrow> qu_data q | Some x \<Rightarrow> Some x)"
  unfolding query_run_def
  by (induction as arbitrary: q rule: fetched.induct) (auto simp: query_result_def query_fails_def split: option.splits)

lemma query_run_failed: "fetched as = None \<Longrightarrow> qu_failed (query_run as q) \<longleftrightarrow> qu_failed q \<or> as \<noteq> []"
  unfolding query_run_def
  by (induction as arbitrary: q rule: fetched.induct) (auto simp: query_fails_def split: option.splits)

lemma detail_view_run:
  "detail_view (query_run as query_new) =
     (if as = [] then DetailLoading else case fetched as of None \<Rightarrow> DetailNotFound | Some x \<Rightarrow> Detail x)"
  by (auto simp: detail_view_def query_run_data query_run_failed query_new_def split: option.splits)

section \<open>A session\<close>

record session_body =
  sb_stats :: "string list"
  sb_labels :: "string list"
  sb_events :: "captured_event list"

definition session_body_of :: "(nat \<Rightarrow> string) \<Rightarrow> (string \<Rightarrow> rat option) \<Rightarrow> rat \<Rightarrow> session_page \<Rightarrow> session \<Rightarrow> session_body" where
  "session_body_of loc parse now p s =
     \<lparr>sb_stats = [ss_status s, loc (ss_events_captured s), fmtBytes (ss_bytes_captured s),
        relativeTime parse now (Some (ss_started_at s))],
      sb_labels = map (\<lambda>(k, v). k @ ''='' @ v) (ss_labels s), sb_events = shown_events p\<rparr>"

definition session_shows :: "(nat \<Rightarrow> string) \<Rightarrow> (string \<Rightarrow> rat option) \<Rightarrow> rat \<Rightarrow> session_page \<Rightarrow> session_body detail_view" where
  "session_shows loc parse now p = map_detail_view (session_body_of loc parse now p) (detail_view (sp_session p))"

text \<open>The table of endpoints; \<open>None\<close> is the remark that the page has no HTTP events.\<close>

definition EventsByEndpoint :: "captured_event list \<Rightarrow> string list list option" where
  "EventsByEndpoint events =
     (let rows = page_rollup events
      in if rows = [] then None else Some (map rollup_cells rows))"

text \<open>Every event that has a method or a path is counted in exactly one row, and there is a table as soon as there is one.\<close>

abbreviation has_endpoint :: "captured_event \<Rightarrow> bool" where
  "has_endpoint e \<equiv> filled (ce_method e) \<or> filled (ce_path e)"

abbreviation group_total :: "'a list dict \<Rightarrow> nat" where
  "group_total d \<equiv> sum_list (map (length \<circ> snd) d)"

lemma group_total_set:
  "group_total (dict_set k (arr @ [e]) d) = (case dict_get d k of None \<Rightarrow> length arr + 1 | Some old \<Rightarrow> length arr + 1 - length old) + group_total d"
  if "\<forall>old. dict_get d k = Some old \<longrightarrow> length old \<le> length arr + 1"
  using that by (induction d) (auto split: option.splits if_splits)

lemma group_total_step: "group_total (page_group e d) = group_total d + (if has_endpoint e then 1 else 0)"
  using group_total_set [of d "page_key e" "[]" e] group_total_set [of d "page_key e" "the (dict_get d (page_key e))" e]
  by (auto simp: page_group_def split: option.splits)

lemma group_total_fold: "group_total (fold page_group es d) = group_total d + length (filter has_endpoint es)"
  by (induction es arbitrary: d) (auto simp: group_total_step)

lemma sum_list_sort_key: "sum_list (map f (sort_key g xs)) = sum_list (map (f :: 'a \<Rightarrow> nat) xs)"
  by (metis mset_map mset_sort sum_mset_sum_list)

lemma endpoint_table_complete:
  "sum_list (map er_count (page_rollup es)) = length (filter has_endpoint es)"
proof -
  have "er_count (page_row g) = length (snd g)" for g by (simp add: page_row_def Let_def split: prod.splits)
  then show ?thesis
    using group_total_fold [of es "[]"] by (simp add: page_rollup_def sum_list_sort_key comp_def)
qed

lemma endpoint_table_shown: "EventsByEndpoint es \<noteq> None \<longleftrightarrow> list_ex has_endpoint es"
proof -
  have one: "page_group e d \<noteq> []" if "d \<noteq> []" for e d
    using that by (cases d) (auto simp: page_group_def split: option.splits)
  have keep: "fold page_group xs d \<noteq> []" if "d \<noteq> []" for xs d
    using that by (induction xs arbitrary: d) (simp_all add: one)
  have "fold page_group xs [] \<noteq> [] \<longleftrightarrow> list_ex has_endpoint xs" for xs
  proof (induction xs)
    case (Cons e xs)
    show ?case
    proof (cases "has_endpoint e")
      case True
      then have "page_group e [] \<noteq> []" by (auto simp: page_group_def)
      with True keep show ?thesis by simp
    next
      case False
      with Cons show ?thesis by (simp add: page_group_def)
    qed
  qed simp
  then have "fold page_group es [] = [] \<longleftrightarrow> \<not> list_ex has_endpoint es" by blast
  moreover have "page_rollup es = [] \<longleftrightarrow> fold page_group es [] = []"
    unfolding page_rollup_def by (simp flip: length_0_conv)
  ultimately show ?thesis by (simp add: EventsByEndpoint_def Let_def)
qed

section \<open>A monitor\<close>

record monitor_body =
  mb_stats :: "string list"
  mb_meta :: "(string \<times> string) list"
  mb_session :: "string option"
  mb_labels :: "string list"

definition monitor_body_of :: "(nat \<Rightarrow> string) \<Rightarrow> (string \<Rightarrow> rat option) \<Rightarrow> rat \<Rightarrow> monitor \<Rightarrow> monitor_body" where
  "monitor_body_of loc parse now m =
     \<lparr>mb_stats = [detail_status m, loc (mo_online_replicas m), sdk_text m, relativeTime parse now (Some (mo_last_seen_at m))],
      mb_meta = [(''Name'', mo_name m), (''Registered'', relativeTime parse now (Some (mo_created_at m)))],
      mb_session = (if filled (mo_active_session_id m) then Some (''/sessions/'' @ the (mo_active_session_id m)) else None),
      mb_labels = map (\<lambda>(k, v). k @ ''='' @ v) (mo_labels m)\<rparr>"

definition monitor_shows :: "(nat \<Rightarrow> string) \<Rightarrow> (string \<Rightarrow> rat option) \<Rightarrow> rat \<Rightarrow> monitor_detail \<Rightarrow> monitor_body detail_view" where
  "monitor_shows loc parse now p = map_detail_view (monitor_body_of loc parse now) (detail_view (md_query p))"

section \<open>The database page\<close>

text \<open>A table is shown for an answer with rows; no answer, a failure and an empty answer all read the same.\<close>

definition table_of :: "('a \<Rightarrow> string list) \<Rightarrow> 'a list query \<Rightarrow> string list list option" where
  "table_of cells q =
     (case qu_data q of
        None \<Rightarrow> None
      | Some rows \<Rightarrow> if rows = [] then None else Some (map cells rows))"

record db_page =
  dp_topSlow :: "db_slow_row list query"
  dp_byEndpoint :: "db_endpoint_row list query"
  dp_deadlocks :: "db_lock_row list query"
  dp_note :: "string option"
  dp_runtime :: "runtime_summary query"
  dp_samples :: "runtime_point list query"
  dp_expanded :: "string set"

record db_page_view =
  dv_unavailable :: bool
  dv_cards :: "(string \<times> string \<times> string) list"
  dv_charts :: "(rat list \<times> rat list option \<times> rat option) list"
  dv_slow :: "string list list option"
  dv_open :: "db_slow_row list"
  dv_endpoints :: "string list list option"
  dv_note :: "string option"
  dv_locks :: "string list list option"

definition db_page_shows :: "db_page \<Rightarrow> db_page_view" where
  "db_page_shows p =
     (let cards = (case qu_data (dp_runtime p) of None \<Rightarrow> [] | Some r \<Rightarrow> runtime_cards r)
      in \<lparr>dv_unavailable = db_unavailable (qu_failed (dp_topSlow p)) (qu_failed (dp_byEndpoint p)) (qu_failed (dp_deadlocks p)),
          dv_cards = cards,
          dv_charts = (case qu_data (dp_samples p) of
                         None \<Rightarrow> []
                       | Some points \<Rightarrow> if cards \<noteq> [] \<and> length points > 1 then RuntimeCharts points else []),
          dv_slow = table_of slow_cells (dp_topSlow p),
          dv_open = (case qu_data (dp_topSlow p) of None \<Rightarrow> [] | Some rows \<Rightarrow> open_queries (dp_expanded p) rows),
          dv_endpoints = table_of endpoint_cells (dp_byEndpoint p),
          dv_note = (if filled (dp_note p) then dp_note p else None),
          dv_locks = table_of lock_cells (dp_deadlocks p)\<rparr>)"

text \<open>
  A first fetch that fails reads as an empty answer, beside the card that says why; the failure of a fetch about the runtime is not
  shown at all. Charts have at least two points, so every line has a width.
\<close>

lemma failed_table_reads_empty: "table_of cells (query_fails query_new) = table_of cells (query_result [] q)"
  by (simp add: table_of_def query_fails_def query_result_def query_new_def)

lemma runtime_failure_unseen:
  "db_page_shows (p\<lparr>dp_runtime := query_fails (dp_runtime p), dp_samples := query_fails (dp_samples p)\<rparr>) = db_page_shows p"
  by (simp add: db_page_shows_def query_fails_def cong: option.case_cong)

lemma shown_charts:
  assumes "(primary, secondary, warn) \<in> set (dv_charts (db_page_shows p))"
  shows "length primary \<ge> 2 \<and> (\<forall>vals. secondary = Some vals \<longrightarrow> length vals = length primary)"
  using assms by (auto simp: db_page_shows_def RuntimeCharts_def Let_def split: option.splits if_splits)

end
