(* ===== verification/Site.thy ===== *)
theory Site
  imports Prelude
begin

text \<open>
  The parts of the documentation site (\<open>site\<close>) that compute: the copy button of the install block
  (\<open>components/landing/install-block.tsx\<close>), the code blocks of the pages (\<open>mdx-components.tsx\<close>,
  \<open>components/landing/code-block.tsx\<close>), the sidebar (\<open>components/docs-sidebar.tsx\<close>) and the choice of the theme
  (\<open>components/theme-toggle.tsx\<close>). The highlighter (shiki) is a parameter.
\<close>

section \<open>The copy button\<close>

text \<open>
  Time passes in ticks of a millisecond. A timer is its id and the moment it fires; \<open>ib_timer\<close> is the id the component
  remembers, which it keeps after the timer has fired.
\<close>

record install_block =
  ib_command :: string
  ib_copied :: bool
  ib_timer :: "nat option"
  ib_pending :: "(nat \<times> nat) list"
  ib_nextId :: nat
  ib_clock :: nat
  ib_mounted :: bool
  ib_clipboard :: "string option"

definition InstallBlock :: "string \<Rightarrow> install_block" where
  "InstallBlock command = \<lparr>ib_command = command, ib_copied = False, ib_timer = None, ib_pending = [], ib_nextId = 1,
     ib_clock = 0, ib_mounted = True, ib_clipboard = None\<rparr>"

text \<open>A click (with what the clipboard makes of it), a millisecond, or the end of the component.\<close>

datatype block_event = ClickCopy bool | Tick | Unmount

definition clear_timer :: "install_block \<Rightarrow> install_block" where
  "clear_timer b =
     (case ib_timer b of
        None \<Rightarrow> b
      | Some i \<Rightarrow> b\<lparr>ib_pending := filter (\<lambda>(j, d). j \<noteq> i) (ib_pending b)\<rparr>)"

definition onCopy :: "bool \<Rightarrow> install_block \<Rightarrow> install_block" where
  "onCopy allowed b =
     (let b = b\<lparr>ib_clipboard := (if allowed then Some (ib_command b) else ib_clipboard b), ib_copied := True\<rparr>;
          b = clear_timer b
      in b\<lparr>ib_timer := Some (ib_nextId b), ib_pending := ib_pending b @ [(ib_nextId b, ib_clock b + 1500)],
           ib_nextId := ib_nextId b + 1\<rparr>)"

fun block_step :: "block_event \<Rightarrow> install_block \<Rightarrow> install_block" where
  "block_step (ClickCopy allowed) b = (if ib_mounted b then onCopy allowed b else b)"
| "block_step Tick b =
     (let now = ib_clock b + 1
      in b\<lparr>ib_clock := now, ib_copied := (ib_copied b \<and> \<not> list_ex (\<lambda>(j, d). d \<le> now) (ib_pending b)),
           ib_pending := filter (\<lambda>(j, d). now < d) (ib_pending b)\<rparr>)"
| "block_step Unmount b = (if ib_mounted b then (clear_timer b)\<lparr>ib_mounted := False\<rparr> else b)"

text \<open>The milliseconds since the last click on the mounted component.\<close>

fun since_click :: "block_event \<Rightarrow> bool \<times> nat option \<Rightarrow> bool \<times> nat option" where
  "since_click (ClickCopy allowed) (mounted, n) = (mounted, if mounted then Some 0 else n)"
| "since_click Tick (mounted, n) = (mounted, map_option Suc n)"
| "since_click Unmount (mounted, n) = (False, n)"

definition last_click :: "block_event list \<Rightarrow> bool \<times> nat option" where
  "last_click evs = fold since_click evs (True, None)"

lemma last_click_snoc: "last_click (evs @ [e]) = since_click e (last_click evs)"
  by (simp add: last_click_def)

text \<open>
  The invariant: while the component is mounted the mark stands exactly for the 1500 milliseconds after the last click, with one timer
  pending to take it away; a component that is gone has no timer.
\<close>

definition block_inv :: "block_event list \<Rightarrow> install_block \<Rightarrow> bool" where
  "block_inv evs b \<longleftrightarrow>
     ib_mounted b = fst (last_click evs) \<and>
     (if ib_mounted b
      then (case snd (last_click evs) of
              None \<Rightarrow> \<not> ib_copied b \<and> ib_pending b = []
            | Some n \<Rightarrow>
                (if n < 1500
                 then ib_copied b \<and> (\<exists>i. ib_timer b = Some i \<and> ib_pending b = [(i, ib_clock b + (1500 - n))])
                 else \<not> ib_copied b \<and> ib_pending b = []))
      else ib_pending b = [])"

lemma block_inv_step:
  assumes "block_inv evs b"
  shows "block_inv (evs @ [e]) (block_step e b)"
proof (cases e)
  case (ClickCopy allowed)
  with assms show ?thesis
    by (cases "last_click evs")
      (auto simp: block_inv_def last_click_snoc onCopy_def clear_timer_def Let_def split: option.splits if_splits)
next
  case Tick
  with assms show ?thesis
    by (cases "last_click evs")
      (auto simp: block_inv_def last_click_snoc Let_def split: option.splits if_splits)
next
  case Unmount
  with assms show ?thesis
    by (cases "last_click evs")
      (auto simp: block_inv_def last_click_snoc clear_timer_def split: option.splits if_splits)
qed

interpretation ibi: history_invariant "InstallBlock command" block_step block_inv for command
  by unfold_locales (simp_all add: block_inv_step, simp add: block_inv_def InstallBlock_def last_click_def)

theorem copied_mark_timed:
  "(let b = fold block_step evs (InstallBlock command); (mounted, n) = last_click evs
    in length (ib_pending b) \<le> 1 \<and> (\<not> mounted \<longrightarrow> ib_pending b = []) \<and>
       (mounted \<longrightarrow> ib_copied b = (\<exists>k < 1500. n = Some k)))"
  using ibi.inv_run [of evs command]
  by (cases "last_click evs") (auto simp: block_inv_def Let_def split: option.splits if_splits)

text \<open>The mark says nothing about the clipboard: it appears also when the browser refuses the write.\<close>

lemma copied_mark_unconditional:
  "ib_copied (block_step (ClickCopy False) (InstallBlock command)) \<and>
   ib_clipboard (block_step (ClickCopy False) (InstallBlock command)) = None"
  by (simp add: InstallBlock_def onCopy_def clear_timer_def Let_def)

section \<open>Code blocks\<close>

text \<open>\<open>highlight code lang theme\<close> is the markup, or \<open>None\<close> when it rejects (an unknown language, for one).\<close>

type_synonym highlighter = "string \<Rightarrow> string \<Rightarrow> string \<Rightarrow> string option"

definition lang_char :: "char \<Rightarrow> bool" where
  "lang_char c \<longleftrightarrow> c \<in> {CHR ''a''..CHR ''z''} \<union> {CHR ''A''..CHR ''Z''} \<union> {CHR ''0''..CHR ''9''} \<union> {CHR ''_'', CHR ''-''}"

text \<open>The first match of \<open>language-\<close> followed by at least one such character.\<close>

fun mdx_lang :: "string \<Rightarrow> string" where
  "mdx_lang [] = ''text''"
| "mdx_lang (c # cs) =
     (if startsWith (c # cs) ''language-'' \<and> takeWhile lang_char (drop 9 (c # cs)) \<noteq> []
      then takeWhile lang_char (drop 9 (c # cs)) else mdx_lang cs)"

datatype rendered = PlainPre | Highlighted string string | RenderFails

definition highlight_or_text :: "highlighter \<Rightarrow> string \<Rightarrow> string \<Rightarrow> string \<Rightarrow> string option" where
  "highlight_or_text highlight raw lang theme =
     (case highlight raw lang theme of Some html \<Rightarrow> Some html | None \<Rightarrow> highlight raw ''text'' theme)"

definition both_themes :: "(string \<Rightarrow> string option) \<Rightarrow> rendered" where
  "both_themes render =
     (case (render ''github-dark-dimmed'', render ''github-light'') of
        (Some dark, Some light) \<Rightarrow> Highlighted dark light
      | _ \<Rightarrow> RenderFails)"

text \<open>The text of the child, if it is a string, and its class.\<close>

definition MDXPre :: "highlighter \<Rightarrow> string option \<Rightarrow> string option \<Rightarrow> rendered" where
  "MDXPre highlight children className =
     (let raw = (case children of Some s \<Rightarrow> s | None \<Rightarrow> []);
          lang = mdx_lang (case className of Some c \<Rightarrow> c | None \<Rightarrow> [])
      in if raw = [] then PlainPre else both_themes (highlight_or_text highlight raw lang))"

definition CodeBlock :: "highlighter \<Rightarrow> string \<Rightarrow> string option \<Rightarrow> rendered" where
  "CodeBlock highlight code lang = both_themes (highlight code (case lang of None \<Rightarrow> ''ts'' | Some l \<Rightarrow> l))"

text \<open>
  With a highlighter that renders plain text, a block of a page is always rendered, whatever language it names; both kinds of block
  agree on a language the highlighter knows, and a block of the landing page with another one fails.
\<close>

definition renders_text :: "highlighter \<Rightarrow> bool" where
  "renders_text highlight \<longleftrightarrow> (\<forall>raw theme. highlight raw ''text'' theme \<noteq> None)"

lemma highlight_or_text_renders: "renders_text highlight \<Longrightarrow> highlight_or_text highlight raw lang theme \<noteq> None"
  by (cases "highlight raw lang theme") (simp_all add: highlight_or_text_def renders_text_def del: not_None_eq)

lemma both_themes_renders:
  assumes "\<And>theme. render theme \<noteq> None"
  shows "both_themes render \<noteq> RenderFails"
  using assms [of "''github-dark-dimmed''"] assms [of "''github-light''"] by (auto simp: both_themes_def)

lemma mdx_pre_renders: "renders_text highlight \<Longrightarrow> MDXPre highlight children className \<noteq> RenderFails"
  unfolding MDXPre_def Let_def using both_themes_renders [OF highlight_or_text_renders] by simp

lemma code_blocks_agree:
  assumes "\<forall>theme. highlight code lang theme \<noteq> None" "code \<noteq> []" "lang \<noteq> []" "list_all lang_char lang"
  shows "MDXPre highlight (Some code) (Some (''language-'' @ lang)) = CodeBlock highlight code (Some lang)"
proof -
  have lang: "takeWhile lang_char lang = lang" using assms(4) by (simp add: list_all_iff)
  have "mdx_lang (''language-'' @ lang) = lang" using assms(3) by (simp add: startsWith_def lang)
  moreover have "highlight_or_text highlight code lang = highlight code lang"
  proof
    fix theme
    obtain html where "highlight code lang theme = Some html" using assms(1) by blast
    then show "highlight_or_text highlight code lang theme = highlight code lang theme" by (simp add: highlight_or_text_def)
  qed
  ultimately show ?thesis using assms(2) by (simp add: MDXPre_def CodeBlock_def)
qed

lemma unknown_language_fails: "\<forall>theme. highlight code lang theme = None \<Longrightarrow> CodeBlock highlight code (Some lang) = RenderFails"
  by (simp add: CodeBlock_def both_themes_def)

section \<open>Sidebar and theme\<close>

definition SECTIONS :: "(string \<times> (string \<times> string) list) list" where
  "SECTIONS =
     [(''Get started'', [(''/docs'', ''Overview''), (''/docs/quickstart'', ''Quickstart''), (''/docs/concepts'', ''Core concepts'')]),
      (''Capture'', [(''/docs/monitors'', ''Monitors (remote control)''), (''/docs/db-correlation'', ''Database correlation'')]),
      (''Self-host'', [(''/docs/deployment'', ''Deployment'')])]"

definition active_items :: "string \<Rightarrow> (string \<times> string) list" where
  "active_items pathname = filter (\<lambda>(href, label). pathname = href) (concat (map snd SECTIONS))"

definition theme_options :: "(string \<times> string) list" where
  "theme_options = [(''light'', ''Light''), (''dark'', ''Dark''), (''system'', ''System'')]"

definition checked_themes :: "string \<Rightarrow> string list" where
  "checked_themes theme = map snd (filter (\<lambda>(value, label). theme = value) theme_options)"

text \<open>At most one entry is marked, in the sidebar and in the menu; a subpage does not mark the page above it.\<close>

lemma one_active: "length (active_items pathname) \<le> 1"
  by (simp add: active_items_def SECTIONS_def)

lemma one_checked: "length (checked_themes theme) \<le> 1"
  by (simp add: checked_themes_def theme_options_def)

end
