(* ===== verification/Spec2Isabelle.thy ===== *)
theory Spec2Isabelle
  imports Delivery Drain Drain_Ends Client_Errors Upload Replay Orm Pipeline Runtime Auto Ws Account Details Site
begin

text \<open>
  \<^bold>\<open>clearvoiance: the capture and replay SDK and the logic of its dashboard.\<close>

  clearvoiance records the traffic of a Node application (requests, jobs, sockets, outbound calls,
  database statements, runtime samples), ships it to an engine, and replays it later against a copy
  of the application whose outbound calls are answered from the recording. The development models
  the SDK (\<open>sdk-node/src\<close>), the parts of the engine that prepare the recorded answers
  (\<open>engine/internal/hermetic\<close>) and grant blob uploads (\<open>engine/internal/storage/blob/s3.go\<close>,
  \<open>engine/internal/api/grpc/capture.go\<close>), and the parts of the dashboard (\<open>ui/src\<close>) and of the
  documentation site (\<open>site\<close>) that compute something.

  \<^bold>\<open>How the parts interact.\<close>
  An adapter (Express, Koa, Strapi, Fastify, node-cron, BullMQ, Socket.io) or a patch (\<open>http\<close>, \<open>fetch\<close>,
  Postgres, Knex, Prisma, Mongoose) observes the application, builds events inside an event scope
  and hands them to \<open>Client.sendBatch\<close>. The client sends batches over a stream to the engine; when
  the stream is down it writes them to a write-ahead log and drains the log after a reconnect. At
  replay, \<open>maybeActivateHermetic\<close> loads the mock pack the engine made from the captured outbound
  events into the mock store and replaces \<open>http.request\<close> and \<open>fetch\<close>; the shims compute the signature
  of a call and answer it from the store. The dashboard reads sessions and replays over REST and a
  WebSocket.

  \<^bold>\<open>Theories.\<close>
  \<^item> \<open>Prelude\<close>: JavaScript strings, dictionaries, decimal numerals, UTF-8; the interfaces
    \<open>invariant_of\<close> (a step relation with an invariant), \<open>history_invariant\<close> (a state machine whose
    invariant speaks of the events seen so far), \<open>reversible_patch\<close> and \<open>forward_simulation\<close> (an
    invariant under which the steps of a detailed model are steps of an abstract one).
  \<^item> \<open>Wal\<close> (\<open>client/wal.ts\<close>): the log over an explicit file system, with a fault possible at every disk
    operation; its contract is the locale \<open>batch_log\<close>.
  \<^item> \<open>Client\<close> (\<open>client.ts\<close>): the client's state, one definition per handler or piece of a method between
    two awaits; \<open>Client_Steps\<close>: the step relation that interleaves them with the environment, and the
    batch invariant; \<open>Client_Props\<close>: control invariants, durability, accounting, backoff;
    \<open>Delivery\<close>: an abstract delivery service (batches handed out, safe, settled) and that the client
    refines it;
    \<open>Drain\<close>: a drain runs to an empty log; \<open>Drain_Ends\<close>: no drain runs for ever; \<open>Client_Errors\<close>: why a
    promise is rejected; \<open>Upload\<close>: \<open>uploadBlob\<close> and the engine's side of it.
  \<^item> \<open>Events\<close> (\<open>core/*.ts\<close>): scopes, event ids, header redaction, capped buffers and body
    finalisation; the interface of the buffers is the locale \<open>capped_sink\<close>.
  \<^item> \<open>Signature\<close> (\<open>outbound/signature.ts\<close>), \<open>Mock_Store\<close> (\<open>hermetic/mock-store.ts\<close>, locale
    \<open>cycling_store\<close>), \<open>Intercept\<close> (\<open>hermetic/intercept.ts\<close>), \<open>Hermetic\<close> (\<open>hermetic/client.ts\<close>, cron
    killer, invoke server and middleware).
  \<^item> \<open>Capture\<close> (\<open>adapters/http/*.ts\<close>), \<open>Outbound\<close> (\<open>outbound/http.ts\<close>, \<open>outbound/fetch.ts\<close>), \<open>Auto\<close>
    (\<open>auto.ts\<close> and the installation of the patches), \<open>Jobs\<close> (cron, BullMQ, Socket.io adapters),
    \<open>Runtime\<close> (\<open>runtime/index.ts\<close>).
  \<^item> \<open>Sql\<close>, \<open>Db\<close>, \<open>Orm\<close> (\<open>db/*.ts\<close>): fingerprints and application names; observations, the Postgres
    wrapper and pools; Prisma and Mongoose.
  \<^item> \<open>Replay\<close>: the engine's mock packs and the composition of capture, engine and intercept layer.
  \<^item> \<open>Pipeline\<close>: all adapters and the client composed, with the events that wait in an adapter's task
    between them. Adapters are instances of the locale \<open>event_source\<close>, the
    client of \<open>event_sink\<close>; \<open>Event_Codec\<close> is a codec for the model's events, for the witnesses.
  \<^item> \<open>Stats\<close> (\<open>ui/src/lib/stats.ts\<close>), \<open>Timeline\<close> and \<open>Live\<close> (the replay page and
    \<open>ui/src/lib/hooks/use-ws-topic.ts\<close>), \<open>Ws\<close> (\<open>ui/src/lib/ws.ts\<close>), \<open>Api\<close> (\<open>ui/src/lib/api.ts\<close> and the
    gate), \<open>Format\<close> (\<open>ui/src/lib/utils.ts\<close>), \<open>Pages\<close> (form handlers, the session's endpoints, charts),
    \<open>Monitors\<close> (both monitors pages), \<open>Account\<close> (sign-in, setup, settings), \<open>Sessions\<close> (lists, overview,
    the session page, the form for a replay), \<open>Views\<close> (the database page, blocks, navigation), \<open>Details\<close> (what the detail
    pages show for what they have fetched). A page is a
    function from its events (clicks, answers, messages) to its state; its calls and navigations are
    lists in that state, and its invariant is an instance of \<open>history_invariant\<close>.
  \<^item> \<open>Site\<close> (\<open>site\<close>): the copy button, code blocks, sidebar and theme menu of the documentation site.

  \<^bold>\<open>What is shown.\<close>
  Client: it refines an abstract delivery service; a resolved \<open>sendBatch\<close> is acknowledged or on disk; every accepted batch is
  pending in one task or settled once; a crash during an
  append harms nothing; a drain can finish and empties the log, and every drain ends once it is no
  longer fed; after \<open>stop\<close> nothing reconnects; one drain at a time; the backoff sequence and its reset; each rejection has the
  cause it names. The client may start on any disk. Ids of batches start at 1 in every process, so a log that survived a
  restart can have files with the ids of new batches; what is shown of the durability of a batch is shown for the ids that no
  file had at the start (\<open>log_ids\<close>), and for the others it is false (\<open>Wal.wal_append_overwrites\<close>).
  Blob uploads: a reference denotes the data that was uploaded, also when the upload was skipped.
  Adapters and client together: every event an adapter builds waits in its task, is one batch of the client or is
  counted as turned away, and every event in a batch is well formed.
  Hermetic mode: a call that was captured whole is answered at replay with what was captured;
  responses are handed out in order per event and signature; a request is answered once, whatever its caller does; a signature determines the request up
  to the declared canonicalisation; calls outside an event are untouched and calls inside one never
  reach the network; activation is undone completely; the invoke endpoints run a registered job
  once per authorised request, and nothing else.
  Capture: what events say about bodies, headers and causes is true, each request, call, job or
  signal is recorded once, and wrapped functions behave as before.
  Database: awaited statements run under the names a wrapper would give that set the name before each, whichever \<open>SET\<close>s
  fail, as long as the statements do not change the name themselves; application names parse back; callback mode agrees with promise mode when the driver
  calls back in the scope of the caller.
  Dashboard: subscriptions agree with the server after any number of reconnects; the gate lets
  nobody through unasked; statistics and timeline account for every row; query strings round-trip; pages
  make no call the operator did not ask for and none that what they show forbids; printed numbers
  are the values rounded.
  Jobs and handlers are state transformers on a state of the application that is left open, so that a statement
  about what runs is also one about how often.
  Where the code falls short of what it says, a theorem states what happens instead (for instance
  that overlapping appends exceed the cap, or that a call with an explicit port or an uploaded body
  is never matched at replay).

  \<^bold>\<open>Conventions.\<close>
  Asynchronous code is cut at its awaits: what runs between two of them is one step, and pending
  continuations are tasks of the state, taken up in any order the environment chooses. The log is cut more coarsely: an append is
  two steps (the check of the cap; writing and renaming), a listing and an initialisation one each, with a fault
  possible at every disk operation inside, so other tasks do not run between the disk operations of one of them.
  Hand-over of an event by an adapter's task is a step of its own. Exceptions
  and rejected promises are values (\<open>Inl\<close>, \<open>None\<close>, or an error constructor). Code outside the
  repository and what cannot be computed here is an argument of the definitions that use it: the
  protobuf codec, SHA-256, the JSON and URL parsers, regular expressions given by the user, the blob
  uploader, the object store, Go's JSON library, the clock and the random draws, the engine's answers, \<open>fetch\<close>. A regular
  expression is a predicate: one with the \<open>g\<close> or \<open>y\<close> flag, whose \<open>test\<close> depends on earlier calls, is outside the model. What a theorem assumes of
  such an argument is a hypothesis (the codec decodes what it encoded; digests are collision-free)
  with an instance in its witness. Strings hold code units below 256, and the printed and parsed query strings and
  path segments are taken as UTF-8 bytes; objects and maps are
  association lists in insertion order; JavaScript numbers are integers or exact rationals.

  \<^bold>\<open>Fuel and bounds.\<close>
  None is needed: every loop of the modelled code is recursion over its data with a proof that it
  ends, and the long-running behaviour is a step relation or a fold over the callbacks. That a drain
  ends is shown with a lexicographic measure: the log files it can still meet, then the steps left.

  \<^bold>\<open>Not modelled.\<close>
  The generated protobuf and gRPC code is not in the repository; its messages are records and its
  calls steps of the environment. The rest of the engine and the observer are written in Go and
  appear as the environment. Re-exports, the marketing pages, the examples and the presentational
  components carry no logic of their own. Of the dashboard, markup and layout are left out; the query
  library is an environment that delivers answers in any order. Dynamic
  (pattern) namespaces of Socket.io are left out. Floating point rounding is not modelled.
\<close>

end
